(* ===== verification/Prelude.thy ===== *)
theory Prelude
  imports Main "HOL-Library.Word"
begin

text \<open>
  What every component of the development shares: the machine types of the C sources, the
  return codes, undefined behaviour as values of a sum type, C strings in memory of known
  extent, and the ledger of dynamically created resources (heap blocks, library handles)
  that the life-cycle operations create and release.
\<close>

section \<open>Machine types and return codes\<close>

type_synonym byte = "8 word"
type_synonym DDS_Octet = byte
type_synonym DDS_Char = byte
type_synonym DDS_Long = "32 word"
type_synonym DDS_UnsignedLong = "32 word"
type_synonym addr = nat
type_synonym rs_properties = "(string \<times> string) list"

datatype retcode =
    DDS_RETCODE_OK
  | DDS_RETCODE_ERROR
  | DDS_RETCODE_PRECONDITION_NOT_MET
  | DDS_RETCODE_OTHER int

text \<open>
  What C leaves undefined, and what no C program recovers from, is a value: an operation
  returns \<open>Inl\<close> of a fault instead of a state.
\<close>

datatype fault =
    Null_Deref
  | Double_Free
  | Use_After_Free
  | Out_Of_Bounds
  | Uninitialised
  | Assertion_Failed
  | Never_Returns
  | Undefined_Behaviour
  | Stack_Overflow

named_theorems ledger_simps \<open>rewriting of ledger operations\<close>

section \<open>Sequencing of operations that may fault\<close>

definition bindF :: "fault + 'a \<Rightarrow> ('a \<Rightarrow> fault + 'b) \<Rightarrow> fault + 'b" where
  "bindF m f = (case m of Inl e \<Rightarrow> Inl e | Inr x \<Rightarrow> f x)"

lemma bindF_Inl [simp]: "bindF (Inl e) f = Inl e"
  by (simp add: bindF_def)

lemma bindF_Inr [simp]: "bindF (Inr x) f = f x"
  by (simp add: bindF_def)

lemma bindF_eq_Inr: "bindF m f = Inr y \<longleftrightarrow> (\<exists>x. m = Inr x \<and> f x = Inr y)"
  by (cases m) auto

lemma bindF_eq_Inl: "bindF m f = Inl e \<longleftrightarrow> m = Inl e \<or> (\<exists>x. m = Inr x \<and> f x = Inl e)"
  by (cases m) auto

lemma bindF_assoc: "bindF (bindF m f) g = bindF m (\<lambda>x. bindF (f x) g)"
  by (cases m) auto

section \<open>Lists\<close>

lemma dropWhile_ConsD: "dropWhile P xs = y # ys \<Longrightarrow> \<not> P y"
  by (induction xs) (auto split: if_splits)

section \<open>Casts between words\<close>

lemma sint_scast: "sint (scast v :: 'b::len word) = signed_take_bit (LENGTH('b) - 1) (sint v)"
  for v :: "'a::len word"
  by (metis scast_eq sint_sbintrunc')

text \<open>Narrowing a number that fits in the smaller type, and widening, keep its value.\<close>

lemma narrow_signed:
  fixes v :: "'a::len word"
  assumes "- (2 ^ (LENGTH('b) - 1)) \<le> sint v" and "sint v < 2 ^ (LENGTH('b) - 1)"
  shows "scast (scast v :: 'b::len word) = v"
proof -
  have "sint (scast v :: 'b word) = sint v"
    unfolding sint_scast using assms by (rule signed_take_bit_int_eq_self)
  then show ?thesis by (metis scast_eq scast_id)
qed

lemma narrow_unsigned:
  fixes v :: "'a::len word"
  assumes "unat v < 2 ^ LENGTH('b)"
  shows "ucast (ucast v :: 'b::len word) = v"
proof -
  have "unat (ucast v :: 'b word) = unat v" using assms by (simp add: unsigned_ucast_eq take_bit_nat_eq_self)
  then show ?thesis by (metis unsigned_ucast_eq word_unat_eq_iff of_nat_unat ucast_eq uint_nat word_of_int_uint)
qed

lemma widen_signed:
  fixes s :: "'b::len word"
  assumes "LENGTH('b) \<le> LENGTH('a::len)"
  shows "sint (scast s :: 'a word) = sint s"
proof -
  have "min (LENGTH('a) - 1) (LENGTH('b) - Suc 0) = LENGTH('b) - Suc 0" using assms by simp
  then show ?thesis unfolding sint_scast sint_uint [of s] signed_take_bit_signed_take_bit by simp
qed

lemma widen_unsigned:
  fixes s :: "'b::len word"
  assumes "LENGTH('b) \<le> LENGTH('a::len)"
  shows "unat (ucast s :: 'a word) = unat s"
proof -
  have "unat s < 2 ^ LENGTH('a)"
    using unsigned_less [of s] assms power_increasing [of "LENGTH('b)" "LENGTH('a)" "2::nat"]
    by (meson le_less_trans less_le_trans one_le_numeral)
  then show ?thesis by (simp add: unsigned_ucast_eq take_bit_nat_eq_self)
qed

lemma sint_eqI: "sint a = sint b \<Longrightarrow> a = b" for a b :: "'a::len word"
  by (simp add: signed_word_eqI)

lemma unat_eqI: "unat a = unat b \<Longrightarrow> a = b" for a b :: "'a::len word"
  by (simp add: word_unat_eq_iff)

lemma sext_eq_iff:
  fixes s :: "'a::len word" and n :: "'b::len word"
  assumes "LENGTH('a) \<le> LENGTH('b)"
  shows "scast s = n \<longleftrightarrow> sint s = sint n"
  using widen_signed [OF assms, of s] sint_eqI [of "scast s" n] by auto

lemma zext_eq_iff:
  fixes s :: "'a::len word" and n :: "'b::len word"
  assumes "LENGTH('a) \<le> LENGTH('b)"
  shows "ucast s = n \<longleftrightarrow> unat s = unat n"
  using widen_unsigned [OF assms, of s] unat_eqI [of "ucast s" n] by auto

section \<open>C strings in memory of known extent\<close>

text \<open>
  A pointer into a block is the list of the bytes from it to the end of the block.
  \<open>strlen\<close> counts up to the first nul byte; where there is none it reads past the end
  of the block, which is the fault \<open>Out_Of_Bounds\<close>.
\<close>

fun strlen :: "byte list \<Rightarrow> fault + nat" where
  "strlen [] = Inl Out_Of_Bounds"
| "strlen (b # bs) = (if b = 0 then Inr 0 else bindF (strlen bs) (\<lambda>n. Inr (Suc n)))"

lemma strlen_prefix: "0 \<notin> set xs \<Longrightarrow> strlen (xs @ 0 # ys) = Inr (length xs)"
  by (induction xs) auto

lemma strlen_no_nul: "strlen xs = Inl e \<longleftrightarrow> 0 \<notin> set xs \<and> e = Out_Of_Bounds"
  by (induction xs arbitrary: e) (auto simp: bindF_eq_Inl)

lemma strlen_has_nul: "0 \<in> set xs \<Longrightarrow> \<exists>n. strlen xs = Inr n"
  by (induction xs) (auto simp: bindF_eq_Inr)

lemma strlen_eq_Inr:
  "strlen xs = Inr n \<longleftrightarrow> n < length xs \<and> xs ! n = 0 \<and> 0 \<notin> set (take n xs)"
proof (induction xs arbitrary: n)
  case Nil
  then show ?case by simp
next
  case (Cons x xs)
  then show ?case
    by (cases n) (auto simp: bindF_eq_Inr)
qed

lemma strlen_take_no_nul: "strlen xs = Inr n \<Longrightarrow> take n xs = takeWhile (\<lambda>b. b \<noteq> 0) xs"
proof (induction xs arbitrary: n)
  case Nil
  then show ?case by simp
next
  case (Cons x xs)
  then show ?case by (auto simp: bindF_eq_Inr split: if_splits)
qed

section \<open>The ledger of resources\<close>

text \<open>
  A resource is an object a call creates and another call releases: a block of the C heap,
  a handle of librdkafka, a semaphore, a thread. The ledger gives every resource a fresh
  identity, records the kind of each live one, and holds the outcomes of the coming
  allocations that may fail (\<open>False\<close>: the allocator returns NULL; an empty list means that
  all of them succeed). A theorem about an arbitrary ledger is a theorem about every
  pattern of allocation failures.
\<close>

record 'k ledger =
  next_id :: addr
  live :: "addr \<rightharpoonup> 'k"
  sched :: "bool list"

definition wf_ledger :: "('k, 'z) ledger_scheme \<Rightarrow> bool" where
  "wf_ledger w \<longleftrightarrow> (\<forall>i \<ge> next_id w. live w i = None)"

definition acquire :: "'k \<Rightarrow> ('k, 'z) ledger_scheme \<Rightarrow> addr \<times> ('k, 'z) ledger_scheme" where
  "acquire k w = (next_id w, w\<lparr>next_id := Suc (next_id w), live := (live w)(next_id w \<mapsto> k)\<rparr>)"

definition alloc_ok :: "('k, 'z) ledger_scheme \<Rightarrow> bool" where
  "alloc_ok w = (case sched w of [] \<Rightarrow> True | b # _ \<Rightarrow> b)"

definition alloc :: "'k \<Rightarrow> ('k, 'z) ledger_scheme \<Rightarrow> addr option \<times> ('k, 'z) ledger_scheme" where
  "alloc k w =
     (if alloc_ok w
      then (let (a, w') = acquire k w in (Some a, w'\<lparr>sched := tl (sched w)\<rparr>))
      else (None, w\<lparr>sched := tl (sched w)\<rparr>))"

definition release :: "addr \<Rightarrow> ('k, 'z) ledger_scheme \<Rightarrow> fault + ('k, 'z) ledger_scheme" where
  "release a w =
     (case live w a of
        None \<Rightarrow> Inl Double_Free
      | Some _ \<Rightarrow> Inr (w\<lparr>live := (live w)(a := None)\<rparr>))"

lemma release_live: "live w a = Some k \<Longrightarrow> release a w = Inr (w\<lparr>live := (live w)(a := None)\<rparr>)"
  by (simp add: release_def)

text \<open>\<open>free(NULL)\<close> has no effect.\<close>

definition release_opt :: "addr option \<Rightarrow> ('k, 'z) ledger_scheme \<Rightarrow> fault + ('k, 'z) ledger_scheme" where
  "release_opt p w = (case p of None \<Rightarrow> Inr w | Some a \<Rightarrow> release a w)"

lemma acquire_simps [ledger_simps, simp]:
  "fst (acquire k w) = next_id w"
  "next_id (snd (acquire k w)) = Suc (next_id w)"
  "live (snd (acquire k w)) = (live w)(next_id w \<mapsto> k)"
  "sched (snd (acquire k w)) = sched w"
  by (simp_all add: acquire_def)

lemma wf_ledger_fresh [dest]: "wf_ledger w \<Longrightarrow> live w (next_id w) = None"
  by (simp add: wf_ledger_def)

lemma wf_ledger_acquire: "wf_ledger w \<Longrightarrow> wf_ledger (snd (acquire k w))"
  by (simp add: wf_ledger_def)

lemma alloc_cases:
  obtains (ok) "alloc k w = (Some (next_id w),
      w\<lparr>next_id := Suc (next_id w), live := (live w)(next_id w \<mapsto> k), sched := tl (sched w)\<rparr>)"
      and "alloc_ok w"
  | (failed) "alloc k w = (None, w\<lparr>sched := tl (sched w)\<rparr>)" and "\<not> alloc_ok w"
  by (cases "alloc_ok w") (auto simp: alloc_def acquire_def Let_def)

lemma alloc_sched_Nil: "sched w = [] \<Longrightarrow> alloc k w =
    (Some (next_id w), w\<lparr>next_id := Suc (next_id w), live := (live w)(next_id w \<mapsto> k)\<rparr>)"
  by (cases w) (simp add: alloc_def alloc_ok_def acquire_def)

lemma alloc_okE:
  assumes "alloc_ok w"
  obtains a w1 where "alloc k w = (Some a, w1)"
  using assms by (rule_tac alloc_cases [of k w]) auto

lemma wf_ledger_alloc: "wf_ledger w \<Longrightarrow> alloc k w = (p, w') \<Longrightarrow> wf_ledger w'"
  by (rule alloc_cases [of k w]) (auto simp: wf_ledger_def)

lemma alloc_fresh: "wf_ledger w \<Longrightarrow> alloc k w = (Some a, w') \<Longrightarrow> live w a = None"
  by (rule alloc_cases [of k w]) auto

lemma wf_ledger_release: "wf_ledger w \<Longrightarrow> release a w = Inr w' \<Longrightarrow> wf_ledger w'"
  by (auto simp: wf_ledger_def release_def split: option.splits)

lemma release_alloc:
  assumes "wf_ledger w" and "alloc k w = (Some a, w')"
  shows "\<exists>w''. release a w' = Inr w'' \<and> live w'' = live w"
  using assms
  by (rule_tac alloc_cases [of k w]) (auto simp: release_def fun_upd_idem_iff)

text \<open>
  An object owns a list of resources; releasing all of them succeeds when they are live and
  distinct, and touches nothing else.
\<close>

fun release_all :: "addr list \<Rightarrow> ('k, 'z) ledger_scheme \<Rightarrow> fault + ('k, 'z) ledger_scheme" where
  "release_all [] w = Inr w"
| "release_all (a # as) w = bindF (release a w) (release_all as)"

abbreviation opt_list :: "'a option \<Rightarrow> 'a list" where
  "opt_list p \<equiv> (case p of None \<Rightarrow> [] | Some a \<Rightarrow> [a])"

lemma release_all_append: "release_all (as @ bs) = (\<lambda>w. bindF (release_all as w) (release_all bs))"
proof
  show "release_all (as @ bs) w = bindF (release_all as w) (release_all bs)" for w
    by (induction as arbitrary: w) (simp_all add: bindF_assoc bindF_def split: sum.split)
qed

lemma release_opt_all: "release_opt p w = release_all (opt_list p) w"
  by (simp add: release_opt_def bindF_def split: option.split sum.split)

lemma release_all_single: "release_all [a] = release a"
  by (rule ext) (simp add: bindF_def split: sum.split)

lemma release_all_ok:
  assumes "distinct as" and "set as \<subseteq> dom (live w)"
  shows "release_all as w = Inr (w\<lparr>live := (live w) |` (- set as)\<rparr>)"
  using assms
proof (induction as arbitrary: w)
  case Nil
  then show ?case by (simp add: restrict_map_def)
next
  case (Cons a as)
  from Cons.prems obtain k where k: "live w a = Some k" by auto
  let ?w = "w\<lparr>live := (live w)(a := None)\<rparr>"
  have "set as \<subseteq> dom (live ?w)" using Cons.prems by auto
  then have "release_all as ?w = Inr (?w\<lparr>live := live ?w |` (- set as)\<rparr>)"
    by (rule Cons.IH [rotated]) (use Cons.prems(1) in simp)
  moreover have "((live w)(a := None)) |` (- set as) = live w |` (- set (a # as))"
    by (auto simp: restrict_map_def)
  ultimately show ?case using k by (simp add: release_def)
qed

text \<open>
  \<open>owned w0 as w\<close>: since the ledger \<open>w0\<close>, the distinct resources \<open>as\<close> were created (among
  others) and are live in \<open>w\<close>, and the resources of \<open>w0\<close> are untouched.
\<close>

definition owned :: "('k, 'y) ledger_scheme \<Rightarrow> addr list \<Rightarrow> ('k, 'z) ledger_scheme \<Rightarrow> bool" where
  "owned w0 as w \<longleftrightarrow> wf_ledger w \<and> next_id w0 \<le> next_id w \<and> distinct as
     \<and> (\<forall>a \<in> set as. next_id w0 \<le> a \<and> a \<in> dom (live w))
     \<and> (\<forall>a < next_id w0. live w a = live w0 a)"

definition untouched :: "('k, 'y) ledger_scheme \<Rightarrow> ('k, 'z) ledger_scheme \<Rightarrow> bool" where
  "untouched w0 w \<longleftrightarrow> wf_ledger w \<and> next_id w0 \<le> next_id w \<and> (\<forall>a < next_id w0. live w a = live w0 a)"

lemma owned_untouched: "owned w0 as w \<Longrightarrow> untouched w0 w"
  by (simp add: owned_def untouched_def)

lemma owned_cong:
  "live w' = live w \<Longrightarrow> next_id w' = next_id w \<Longrightarrow> owned w0 as w' \<longleftrightarrow> owned w0 as w"
  by (simp add: owned_def wf_ledger_def)

lemma untouched_cong:
  "live w' = live w \<Longrightarrow> next_id w' = next_id w \<Longrightarrow> untouched w0 w' \<longleftrightarrow> untouched w0 w"
  by (simp add: untouched_def wf_ledger_def)

lemma untouched_refl: "wf_ledger w \<Longrightarrow> untouched w w"
  by (simp add: untouched_def)

lemma owned_free:
  assumes "owned w0 [a] w"
  shows "\<exists>w'. release a w = Inr w' \<and> untouched w0 w'"
proof -
  have "live w a \<noteq> None" "next_id w0 \<le> a" using assms by (auto simp: owned_def)
  then show ?thesis
    using assms by (auto simp: owned_def release_def untouched_def wf_ledger_def)
qed

lemma owned_start: "wf_ledger w \<Longrightarrow> owned w [] w"
  by (simp add: owned_def)

lemma owned_lt: "owned w0 as w \<Longrightarrow> a \<in> set as \<Longrightarrow> a < next_id w"
  unfolding owned_def wf_ledger_def by (metis domIff leI)

lemma owned_sublist: "owned w0 bs w \<Longrightarrow> distinct as \<Longrightarrow> set as \<subseteq> set bs \<Longrightarrow> owned w0 as w"
  by (auto simp: owned_def)

lemma owned_acquire:
  assumes "owned w0 as w" and "acquire k w = (a, w1)"
  shows "owned w0 (a # as) w1"
proof -
  have "a = next_id w" "w1 = snd (acquire k w)" using assms(2) by (auto simp: acquire_def)
  moreover have "next_id w \<notin> set as" using owned_lt [OF assms(1)] by blast
  ultimately show ?thesis
    using assms(1) wf_ledger_acquire [of w k] by (auto simp: owned_def)
qed

lemma owned_sched: "owned w0 as (w\<lparr>sched := q\<rparr>) = owned w0 as w"
  by (simp add: owned_def wf_ledger_def)

lemma owned_alloc:
  assumes "owned w0 as w" and "alloc k w = (p, w1)"
  shows "owned w0 (opt_list p @ as) w1"
  using assms owned_acquire [OF assms(1), of k]
  by (auto simp: alloc_def owned_sched Let_def split: if_splits prod.splits)

lemma owned_alloc_drop: "owned w0 as w \<Longrightarrow> alloc k w = (p, w1) \<Longrightarrow> owned w0 as w1"
  by (rule owned_sublist [OF owned_alloc]) (auto simp: owned_def)

lemma owned_acquire_drop: "owned w0 as w \<Longrightarrow> acquire k w = (a, w1) \<Longrightarrow> owned w0 as w1"
  by (rule owned_sublist [OF owned_acquire]) (auto simp: owned_def)

lemma owned_release:
  assumes "owned w0 (as @ bs) w"
  shows "\<exists>w'. release_all as w = Inr w' \<and> owned w0 bs w'"
proof -
  have "release_all as w = Inr (w\<lparr>live := (live w) |` (- set as)\<rparr>)"
    using assms by (intro release_all_ok) (auto simp: owned_def)
  moreover have "owned w0 bs (w\<lparr>live := (live w) |` (- set as)\<rparr>)"
  proof -
    have "\<forall>a < next_id w0. a \<notin> set as" "\<forall>a \<in> set bs. a \<notin> set as"
      using assms by (auto simp: owned_def not_le [symmetric])
    with assms show ?thesis by (simp add: owned_def wf_ledger_def restrict_map_def domIff)
  qed
  ultimately show ?thesis by blast
qed

text \<open>The same with nothing else created: the ledger differs from \<open>w0\<close> in \<open>as\<close> only.\<close>

definition owns_exactly :: "('k, 'y) ledger_scheme \<Rightarrow> addr list \<Rightarrow> ('k, 'z) ledger_scheme \<Rightarrow> bool" where
  "owns_exactly w0 as w \<longleftrightarrow> wf_ledger w0 \<and> owned w0 as w \<and> (\<forall>a. a \<notin> set as \<longrightarrow> live w a = live w0 a)"

lemma owns_exactly_start: "wf_ledger w \<Longrightarrow> owns_exactly w [] w"
  by (simp add: owns_exactly_def owned_start)

lemma owns_exactly_nothing: "owns_exactly w0 [] w \<Longrightarrow> live w = live w0 \<and> untouched w0 w"
  by (auto simp: owns_exactly_def dest: owned_untouched)

lemma owns_exactly_wf: "owns_exactly w0 as w \<Longrightarrow> wf_ledger w"
  by (simp add: owns_exactly_def owned_def)

lemma owns_exactly_cong:
  assumes "live w' = live w" and "next_id w' = next_id w"
  shows "owns_exactly w0 as w' \<longleftrightarrow> owns_exactly w0 as w"
  unfolding owns_exactly_def using assms owned_cong [of w' w w0 as] by simp

lemma owns_exactly_acquire:
  assumes "owns_exactly w0 as w" and "acquire k w = (a, w1)"
  shows "owns_exactly w0 (a # as) w1"
  using assms owned_acquire [of w0 as w k a w1] by (auto simp: owns_exactly_def acquire_def)

lemma owns_exactly_alloc:
  assumes "owns_exactly w0 as w" and "alloc k w = (p, w1)"
  shows "owns_exactly w0 (opt_list p @ as) w1"
  using assms owned_alloc [of w0 as w k p w1]
  by (cases rule: alloc_cases [of k w]) (auto simp: owns_exactly_def split: if_splits)

lemma owns_exactly_distinct: "owns_exactly w0 as w \<Longrightarrow> distinct as"
  by (simp add: owns_exactly_def owned_def)

lemma owns_exactly_perm:
  assumes "owns_exactly w0 as w" and "set bs = set as" and "distinct bs"
  shows "owns_exactly w0 bs w"
  using assms by (auto simp: owns_exactly_def owned_def)

lemma owns_exactly_release_kinds:
  assumes "owns_exactly w0 (as @ bs) w"
  shows "\<exists>w'. release_all as w = Inr w' \<and> owns_exactly w0 bs w' \<and> (\<forall>b \<in> set bs. live w' b = live w b)"
proof -
  have own: "owned w0 (as @ bs) w" using assms by (simp add: owns_exactly_def)
  then have ok: "release_all as w = Inr (w\<lparr>live := (live w) |` (- set as)\<rparr>)"
    by (intro release_all_ok) (auto simp: owned_def)
  moreover have "owned w0 bs (w\<lparr>live := (live w) |` (- set as)\<rparr>)"
    using owned_release [OF own] ok by simp
  moreover have "live w0 a = None" if "a \<in> set as" for a
    using assms that by (auto simp: owns_exactly_def owned_def wf_ledger_def)
  moreover have "set as \<inter> set bs = {}" using own by (auto simp: owned_def)
  ultimately show ?thesis
    using assms by (auto simp: owns_exactly_def restrict_map_def)
qed

lemma owns_exactly_release:
  "owns_exactly w0 (as @ bs) w \<Longrightarrow> \<exists>w'. release_all as w = Inr w' \<and> owns_exactly w0 bs w'"
  using owns_exactly_release_kinds by blast

text \<open>What owning one resource of a known kind means for the ledger.\<close>

lemma owns_exactly_one:
  assumes "owns_exactly w0 [a] w" and "live w a = Some k"
  shows "live w0 a = None \<and> live w = (live w0)(a \<mapsto> k)"
proof -
  have "live w0 a = None" using assms(1) by (auto simp: owns_exactly_def owned_def wf_ledger_def)
  then show ?thesis using assms by (auto simp: owns_exactly_def fun_eq_iff)
qed

lemma owns_exactly_release_one:
  "owns_exactly w0 (a # bs) w \<Longrightarrow> \<exists>w'. release a w = Inr w' \<and> owns_exactly w0 bs w'"
  using owns_exactly_release [of w0 "[a]" bs w] unfolding release_all_single by simp

end
