(* ===== verification/Dds_Sequence.thy ===== *)
theory Dds_Sequence
  imports Prelude
begin

text \<open>
  The Connext DDS sequences as the adapter and the transformation library use them, and the
  helpers of \<^verbatim>\<open>common/dds_specific/srcC/SequenceHelpers.c\<close>. The sequences themselves belong
  to Connext DDS, whose code is not part of the repository: their operations are a
  parameter, the record \<open>seq_ops\<close>, and what their documentation promises is the locale
  \<open>dds_seq\<close>. The list-backed sequence at the end satisfies the locale, so its laws can
  hold together; it is used only to evaluate the model on concrete inputs.
\<close>

section \<open>The operations of a sequence\<close>

text \<open>
  \<open>seq_get\<close> and \<open>seq_put\<close> are a read and a write through the pointer that
  \<open>get_reference\<close> returns. \<open>seq_buffer\<close> is the memory the pointer returned by
  \<open>get_contiguous_buffer\<close> leads to, up to the end of its allocation: it can extend beyond
  the length of the sequence.
\<close>

record ('s, 'e) seq_ops =
  seq_initialize :: "'s \<Rightarrow> bool \<times> 's"
  seq_finalize :: "'s \<Rightarrow> bool \<times> 's"
  seq_get_length :: "'s \<Rightarrow> DDS_Long"
  seq_get_maximum :: "'s \<Rightarrow> DDS_Long"
  seq_set_length :: "'s \<Rightarrow> DDS_Long \<Rightarrow> bool \<times> 's"
  seq_ensure_length :: "'s \<Rightarrow> DDS_Long \<Rightarrow> DDS_Long \<Rightarrow> bool \<times> 's"
  seq_get :: "'s \<Rightarrow> DDS_Long \<Rightarrow> 'e"
  seq_put :: "'s \<Rightarrow> DDS_Long \<Rightarrow> 'e \<Rightarrow> 's"
  seq_loan_contiguous :: "'s \<Rightarrow> 'e list \<Rightarrow> DDS_Long \<Rightarrow> DDS_Long \<Rightarrow> bool \<times> 's"
  seq_unloan :: "'s \<Rightarrow> bool \<times> 's"
  seq_buffer :: "'s \<Rightarrow> 'e list option"

text \<open>
  The laws: \<open>elems\<close> is the content of a sequence, \<open>cap\<close> its maximum. A sequence that owns
  its memory is resized by \<open>set_length\<close> beyond the maximum, a loan takes an empty sequence.
\<close>

locale dds_seq =
  fixes ops :: "('s, 'e) seq_ops"
    and valid :: "'s \<Rightarrow> bool"
    and elems :: "'s \<Rightarrow> 'e list"
    and cap :: "'s \<Rightarrow> nat"
  assumes get_length: "valid s \<Longrightarrow> seq_get_length ops s = word_of_nat (length (elems s))"
    and length_le_cap: "valid s \<Longrightarrow> length (elems s) \<le> cap s"
    and get_maximum: "valid s \<Longrightarrow> seq_get_maximum ops s = word_of_nat (cap s)"
    and cap_bound: "valid s \<Longrightarrow> cap s < 2 ^ 31"
    and get_elem: "valid s \<Longrightarrow> i < length (elems s) \<Longrightarrow> seq_get ops s (word_of_nat i) = elems s ! i"
    and put_elem: "valid s \<Longrightarrow> i < length (elems s) \<Longrightarrow>
          valid (seq_put ops s (word_of_nat i) v) \<and>
          cap (seq_put ops s (word_of_nat i) v) = cap s \<and>
          elems (seq_put ops s (word_of_nat i) v) = (elems s)[i := v]"
    and set_length_ok: "valid s \<Longrightarrow> seq_set_length ops s n = (True, s') \<Longrightarrow>
          valid s' \<and> length (elems s') = unat n \<and>
          take (length (elems s)) (elems s') = take (unat n) (elems s)"
    and ensure_length_ok: "valid s \<Longrightarrow> seq_ensure_length ops s n m = (True, s') \<Longrightarrow> unat n \<le> unat m \<Longrightarrow>
          valid s' \<and> length (elems s') = unat n \<and>
          take (length (elems s)) (elems s') = take (unat n) (elems s)"
    and loan_ok: "valid s \<Longrightarrow> seq_loan_contiguous ops s buf n m = (True, s') \<Longrightarrow> unat n \<le> length buf \<Longrightarrow>
          valid s' \<and> elems s' = take (unat n) buf"
    and loan_cap: "valid s \<Longrightarrow> seq_loan_contiguous ops s buf n m = (True, s') \<Longrightarrow> unat n \<le> length buf \<Longrightarrow>
          unat n \<le> cap s'"
    and loan_needs_empty: "valid s \<Longrightarrow> 0 < cap s \<Longrightarrow> fst (seq_loan_contiguous ops s buf n m) = False"
    and buffer_prefix: "valid s \<Longrightarrow> seq_buffer ops s = Some buf \<Longrightarrow>
          take (length (elems s)) buf = elems s"
begin

lemma length_bound: "valid s \<Longrightarrow> length (elems s) < 2 ^ 31"
  using length_le_cap cap_bound by fastforce

lemma unat_get_length: "valid s \<Longrightarrow> unat (seq_get_length ops s) = length (elems s)"
  using length_bound [of s] by (simp add: get_length unat_of_nat)

lemma get_length_eq_0: "valid s \<Longrightarrow> seq_get_length ops s = 0 \<longleftrightarrow> elems s = []"
  using unat_get_length [of s] by (metis length_0_conv unat_0 unat_eq_zero)

lemma get_last:
  assumes "valid s" and "elems s \<noteq> []"
  shows "seq_get ops s (seq_get_length ops s - 1) = last (elems s)"
proof -
  have "seq_get_length ops s - 1 = word_of_nat (length (elems s) - 1)"
    using assms by (simp add: get_length of_nat_diff Suc_le_eq)
  then show ?thesis
    using assms get_elem [of s "length (elems s) - 1"] by (simp add: last_conv_nth)
qed

text \<open>Growing a sequence by one element and writing that element appends it.\<close>

lemma grow_and_put:
  assumes "valid s"
    and "seq_set_length ops s (seq_get_length ops s + 1) = (True, s')"
  shows "valid (seq_put ops s' (seq_get_length ops s) v) \<and>
         elems (seq_put ops s' (seq_get_length ops s) v) = elems s @ [v]"
proof -
  let ?n = "length (elems s)"
  have b: "?n < 2 ^ 31" using assms(1) by (rule length_bound)
  have len: "unat (seq_get_length ops s + 1) = Suc ?n"
    using b unat_get_length [OF assms(1)]
    by (simp add: unat_word_ariths)
  have valid': "valid s'" and ln: "length (elems s') = Suc ?n"
    and pre: "take ?n (elems s') = elems s"
    using set_length_ok [OF assms] len by simp_all
  have eq: "elems s' = elems s @ [elems s' ! ?n]"
    using take_Suc_conv_app_nth [of ?n "elems s'"] ln pre by simp
  have "(elems s')[?n := v] = elems s @ [v]"
    by (subst eq) simp
  then show ?thesis
    using put_elem [OF valid', of ?n v] ln by (simp add: get_length [OF assms(1)])
qed

end

section \<open>SequenceHelpers.c\<close>

definition DDS_CharSeq_assert_nul_terminator :: "('s, DDS_Char) seq_ops \<Rightarrow> 's \<Rightarrow> bool \<times> 's" where
  "DDS_CharSeq_assert_nul_terminator ops self =
     (let length = seq_get_length ops self in
      if length = 0 then (False, self)
      else if seq_get ops self (length - 1) = 0 then (True, self)
      else (let (ok, self) = seq_set_length ops self (length + 1) in
            if \<not> ok then (False, self)
            else (True, seq_put ops self length 0)))"

definition DDS_OctetSeq_assert_nul_terminator :: "('s, DDS_Octet) seq_ops \<Rightarrow> 's \<Rightarrow> bool \<times> 's" where
  "DDS_OctetSeq_assert_nul_terminator ops self =
     (let length = seq_get_length ops self in
      if length = 0 then (False, self)
      else if seq_get ops self (length - 1) = 0 then (True, self)
      else (let (ok, self) = seq_set_length ops self (length + 1) in
            if \<not> ok then (False, self)
            else (True, seq_put ops self length 0)))"

text \<open>What the header promises of both: the content, terminated.\<close>

definition nul_terminated :: "byte list \<Rightarrow> byte list" where
  "nul_terminated xs = (if last xs = 0 then xs else xs @ [0])"

context dds_seq
begin

text \<open>
  The body both helpers have, over any element type with a zero: the two C functions are
  its instances at \<open>DDS_Char\<close> and \<open>DDS_Octet\<close>.
\<close>

lemma append_unless_last:
  assumes "valid s" and "elems s \<noteq> []"
    and "seq_get ops s (seq_get_length ops s - 1) \<noteq> v"
    and "seq_set_length ops s (seq_get_length ops s + 1) = (True, s')"
  shows "valid (seq_put ops s' (seq_get_length ops s) v) \<and>
         elems (seq_put ops s' (seq_get_length ops s) v) =
           (if last (elems s) = v then elems s else elems s @ [v])"
  using grow_and_put [OF assms(1,4), of v] get_last [OF assms(1,2)] assms(3) by simp

end

lemma OctetSeq_assert_nul_terminator_spec:
  assumes "dds_seq ops valid elems cap" and "valid s"
    and "DDS_OctetSeq_assert_nul_terminator ops s = (True, s')"
  shows "valid s' \<and> elems s \<noteq> [] \<and> elems s' = nul_terminated (elems s)"
proof -
  note l = dds_seq.get_length_eq_0 [OF assms(1,2)] dds_seq.get_last [OF assms(1,2)]
  from assms(3) have ne: "elems s \<noteq> []"
    by (auto simp: DDS_OctetSeq_assert_nul_terminator_def Let_def l(1) split: if_splits)
  show ?thesis
  proof (cases "last (elems s) = 0")
    case True
    with assms(2,3) ne l show ?thesis
      by (auto simp: DDS_OctetSeq_assert_nul_terminator_def Let_def nul_terminated_def)
  next
    case False
    then obtain t where t: "seq_set_length ops s (seq_get_length ops s + 1) = (True, t)"
        and s': "s' = seq_put ops t (seq_get_length ops s) 0"
      using assms(3) ne l
      by (auto simp: DDS_OctetSeq_assert_nul_terminator_def Let_def split: prod.splits if_splits)
    show ?thesis
      using dds_seq.append_unless_last [OF assms(1,2) ne _ t, of 0] False ne l s'
      by (simp add: nul_terminated_def)
  qed
qed

text \<open>The two helpers are the same function, at the two element types of one byte.\<close>

lemma CharSeq_assert_eq_OctetSeq_assert:
  "DDS_CharSeq_assert_nul_terminator = DDS_OctetSeq_assert_nul_terminator"
  by (simp add: fun_eq_iff DDS_CharSeq_assert_nul_terminator_def
      DDS_OctetSeq_assert_nul_terminator_def)

lemma OctetSeq_assert_nul_terminator_fails:
  assumes "dds_seq ops valid elems cap" and "valid s"
  shows "fst (DDS_OctetSeq_assert_nul_terminator ops s) = False \<longleftrightarrow>
    elems s = [] \<or> (last (elems s) \<noteq> 0 \<and>
      \<not> fst (seq_set_length ops s (seq_get_length ops s + 1)))"
  using dds_seq.get_length_eq_0 [OF assms] dds_seq.get_last [OF assms]
  by (auto simp: DDS_OctetSeq_assert_nul_terminator_def Let_def split: prod.splits)

section \<open>A list-backed sequence\<close>

text \<open>
  An executable sequence with the documented behaviour: \<open>l_mem\<close> is the allocated memory
  (its length is the maximum), \<open>l_len\<close> the length, \<open>l_loaned\<close> whether the memory is a loan.
  New elements are the value \<open>d\<close> that the element type's initialiser stores.
\<close>

record 'e lseq =
  l_mem :: "'e list"
  l_len :: nat
  l_loaned :: bool

definition empty_lseq :: "'e lseq" where
  "empty_lseq = \<lparr>l_mem = [], l_len = 0, l_loaned = False\<rparr>"

definition lseq_elems :: "'e lseq \<Rightarrow> 'e list" where
  "lseq_elems s = take (l_len s) (l_mem s)"

definition lseq_wf :: "'e lseq \<Rightarrow> bool" where
  "lseq_wf s \<longleftrightarrow> l_len s \<le> length (l_mem s) \<and> length (l_mem s) < 2 ^ 31"

definition lseq_cap :: "'e lseq \<Rightarrow> nat" where
  "lseq_cap s = length (l_mem s)"

definition lseq_resize :: "'e \<Rightarrow> 'e lseq \<Rightarrow> nat \<Rightarrow> nat \<Rightarrow> bool \<times> 'e lseq" where
  "lseq_resize d s n m =
     (if m < n \<or> 2 ^ 31 \<le> m then (False, s)
      else if n \<le> length (l_mem s) then (True, s\<lparr>l_len := n\<rparr>)
      else if l_loaned s then (False, s)
      else (True, s\<lparr>l_mem := l_mem s @ replicate (m - length (l_mem s)) d, l_len := n\<rparr>))"

definition lseq_loan :: "'e lseq \<Rightarrow> 'e list \<Rightarrow> nat \<Rightarrow> nat \<Rightarrow> bool \<times> 'e lseq" where
  "lseq_loan s buf n m =
     (if l_mem s \<noteq> [] \<or> m < n \<or> 2 ^ 31 \<le> m \<or> length buf < n then (False, s)
      else (True, \<lparr>l_mem = take m buf, l_len = n, l_loaned = True\<rparr>))"

definition lseq_ops :: "'e \<Rightarrow> ('e lseq, 'e) seq_ops" where
  "lseq_ops d = \<lparr>
     seq_initialize = (\<lambda>s. (True, empty_lseq)),
     seq_finalize = (\<lambda>s. if l_loaned s then (False, s) else (True, empty_lseq)),
     seq_get_length = (\<lambda>s. word_of_nat (l_len s)),
     seq_get_maximum = (\<lambda>s. word_of_nat (length (l_mem s))),
     seq_set_length = (\<lambda>s n. lseq_resize d s (unat n) (max (unat n) (length (l_mem s)))),
     seq_ensure_length = (\<lambda>s n m. lseq_resize d s (unat n) (unat m)),
     seq_get = (\<lambda>s i. l_mem s ! unat i),
     seq_put = (\<lambda>s i v. s\<lparr>l_mem := (l_mem s)[unat i := v]\<rparr>),
     seq_loan_contiguous = (\<lambda>s buf n m. lseq_loan s buf (unat n) (unat m)),
     seq_unloan = (\<lambda>s. if l_loaned s then (True, empty_lseq) else (False, s)),
     seq_buffer = (\<lambda>s. if l_mem s = [] then None else Some (l_mem s))\<rparr>"

lemma lseq_loan_code [code]:
  "lseq_loan s buf n m =
     (if l_mem s \<noteq> [] \<or> m < n \<or> 2 ^ 31 \<le> int m \<or> length buf < n then (False, s)
      else (True, \<lparr>l_mem = take m buf, l_len = n, l_loaned = True\<rparr>))"
  by (simp add: lseq_loan_def)

lemma lseq_resize_ok:
  assumes "lseq_wf s" and "lseq_resize d s n m = (True, s')"
  shows "lseq_wf s' \<and> length (lseq_elems s') = n \<and>
         take (length (lseq_elems s)) (lseq_elems s') = take n (lseq_elems s)"
  using assms
  by (auto simp: lseq_resize_def lseq_wf_def lseq_elems_def min_def split: if_splits)

lemma lseq_loan_ok:
  assumes "lseq_loan s buf n m = (True, s')"
  shows "lseq_wf s' \<and> lseq_elems s' = take n buf"
  using assms by (auto simp: lseq_loan_def lseq_wf_def lseq_elems_def min_def split: if_splits)

interpretation lseq: dds_seq "lseq_ops d" lseq_wf lseq_elems lseq_cap
proof (unfold_locales, goal_cases)
  case (1 s)
  then show ?case by (simp add: lseq_ops_def lseq_wf_def lseq_elems_def)
next
  case (2 s)
  then show ?case by (simp add: lseq_cap_def lseq_elems_def)
next
  case (3 s)
  then show ?case by (simp add: lseq_ops_def lseq_cap_def)
next
  case (4 s)
  then show ?case by (simp add: lseq_wf_def lseq_cap_def)
next
  case (5 s i)
  then show ?case by (simp add: lseq_ops_def lseq_wf_def lseq_elems_def unat_of_nat)
next
  case (6 s i v)
  then show ?case
    by (simp add: lseq_ops_def lseq_wf_def lseq_elems_def lseq_cap_def unat_of_nat take_update_swap)
next
  case (7 s n s')
  then show ?case by (intro lseq_resize_ok [where d = d]) (simp_all add: lseq_ops_def)
next
  case (8 s n m s')
  then show ?case by (intro lseq_resize_ok [where d = d]) (simp_all add: lseq_ops_def)
next
  case (9 s buf n m s')
  then show ?case by (intro lseq_loan_ok) (simp add: lseq_ops_def)
next
  case (10 s buf n m s')
  then show ?case by (auto simp: lseq_ops_def lseq_loan_def lseq_cap_def split: if_splits)
next
  case (11 s buf n m)
  then show ?case by (simp add: lseq_ops_def lseq_loan_def lseq_cap_def)
next
  case (12 s buf)
  then show ?case by (auto simp: lseq_ops_def lseq_elems_def lseq_wf_def min_def split: if_splits)
qed

section \<open>Properties\<close>

text \<open>
  C21. Both nul-terminator helpers succeed exactly when the sequence is not empty and either
  already ends in a nul or can be grown by one element; on success the content is the old
  content, with one nul appended only if it did not end in one.
\<close>

theorem assert_nul_terminator_correct:
  assumes "dds_seq ops valid elems cap" and "valid s"
    and "f \<in> {DDS_CharSeq_assert_nul_terminator, DDS_OctetSeq_assert_nul_terminator}"
  shows "(fst (f ops s) \<longleftrightarrow>
      elems s \<noteq> [] \<and> (last (elems s) = 0 \<or> fst (seq_set_length ops s (seq_get_length ops s + 1))))
    \<and> (fst (f ops s) \<longrightarrow> valid (snd (f ops s)) \<and> elems (snd (f ops s)) = nul_terminated (elems s))"
proof (intro conjI [where P = "_ = _"] impI)
  have f: "f = DDS_OctetSeq_assert_nul_terminator"
    using assms(3) by (auto simp: CharSeq_assert_eq_OctetSeq_assert)
  show "fst (f ops s) \<longleftrightarrow>
      elems s \<noteq> [] \<and> (last (elems s) = 0 \<or> fst (seq_set_length ops s (seq_get_length ops s + 1)))"
    using OctetSeq_assert_nul_terminator_fails [OF assms(1,2)] unfolding f by blast
  show "valid (snd (f ops s)) \<and> elems (snd (f ops s)) = nul_terminated (elems s)" if "fst (f ops s)"
    using OctetSeq_assert_nul_terminator_spec [OF assms(1,2)] that unfolding f
    by (metis prod.collapse)
qed

theorem assert_nul_terminator_correct_witness:
  "fst (DDS_OctetSeq_assert_nul_terminator (lseq_ops 0) \<lparr>l_mem = [7, 8], l_len = 2, l_loaned = False\<rparr>) \<and>
   lseq_elems (snd (DDS_OctetSeq_assert_nul_terminator (lseq_ops 0)
     \<lparr>l_mem = [7, 8], l_len = 2, l_loaned = False\<rparr>)) = [7, 8, 0]"
proof -
  let ?s = "\<lparr>l_mem = [7, 8], l_len = 2, l_loaned = False\<rparr> :: byte lseq"
  have v: "lseq_wf ?s" by (simp add: lseq_wf_def)
  note c = assert_nul_terminator_correct [OF lseq.dds_seq_axioms v insertI2 [OF singletonI]]
  have "fst (DDS_OctetSeq_assert_nul_terminator (lseq_ops 0) ?s)"
    unfolding c [THEN conjunct1] by (simp add: lseq_elems_def lseq_ops_def lseq_resize_def)
  then show ?thesis
    using c [THEN conjunct2] by (simp add: lseq_elems_def nul_terminated_def)
qed

end
