(* ===== verification/Dynamic_Helpers.thy ===== *)
theory Dynamic_Helpers
  imports Dds_Sequence
begin

text \<open>
  \<^verbatim>\<open>common/dds_specific/srcC/DynamicDataHelpers.c\<close>: the walk down nested type codes by a
  dotted member name, and the transfer of byte buffers into and out of sequence members of
  a DynamicData object. Type codes, DynamicData and the string utilities of Connext are
  parameters of the definitions.
\<close>

section \<open>Member types by dotted names\<close>

text \<open>
  \<open>tc_find\<close> and \<open>tc_member\<close> are \<open>None\<close> where the Connext function sets its exception
  code. \<open>str_token s delim\<close> is the token and the remaining string that
  \<open>RTIOsapiUtility_strToken\<close> yields, \<open>str_dup\<close> is \<open>DDS_String_dup\<close> (\<open>None\<close>: no memory) and
  \<open>str_cpy n\<close> the bounded copy \<open>RTIOsapiUtility_strcpy\<close>.
\<close>

record 'tc typecode_ops =
  tc_find :: "'tc \<Rightarrow> string \<Rightarrow> nat option"
  tc_member :: "'tc \<Rightarrow> nat \<Rightarrow> 'tc option"
  str_token :: "string \<Rightarrow> string \<Rightarrow> string option \<times> string"
  str_dup :: "string \<Rightarrow> string option"
  str_cpy :: "nat \<Rightarrow> string \<Rightarrow> string"

definition TYPE_CODE_LENGTH :: nat where
  "TYPE_CODE_LENGTH = 256"

text \<open>The token loop. Its outer \<open>None\<close> is a loop that does not end.\<close>

partial_function (option) member_type_loop ::
  "'tc typecode_ops \<Rightarrow> 'tc \<Rightarrow> string option \<Rightarrow> string \<Rightarrow> 'tc option option" where
  "member_type_loop ops member_tc token remaining =
     (case token of
        None \<Rightarrow> Some (Some member_tc)
      | Some t \<Rightarrow>
          (case tc_find ops member_tc t of
             None \<Rightarrow> Some None
           | Some i \<Rightarrow>
               (case tc_member ops member_tc i of
                  None \<Rightarrow> Some None
                | Some tc \<Rightarrow>
                    member_type_loop ops tc (fst (str_token ops remaining ''.''))
                      (snd (str_token ops remaining ''.'')))))"

definition RTI_COMMON_TypeCode_get_member_type ::
  "'tc typecode_ops \<Rightarrow> 'tc \<Rightarrow> string \<Rightarrow> 'tc option option" where
  "RTI_COMMON_TypeCode_get_member_type ops self member_name =
     (if CHR ''.'' \<notin> set member_name
      then (case tc_find ops self member_name of
              None \<Rightarrow> Some None
            | Some i \<Rightarrow> Some (tc_member ops self i))
      else (case (if length member_name > TYPE_CODE_LENGTH - 1 then str_dup ops member_name
                  else Some (str_cpy ops TYPE_CODE_LENGTH member_name)) of
              None \<Rightarrow> Some None
            | Some original_name \<Rightarrow>
                (let (token, remaining) = str_token ops original_name ''.'' in
                 member_type_loop ops self token remaining)))"

text \<open>
  The specification: follow the non-empty components of the name one after the other.
\<close>

fun member_path :: "'tc typecode_ops \<Rightarrow> 'tc \<Rightarrow> string list \<Rightarrow> 'tc option" where
  "member_path ops tc [] = Some tc"
| "member_path ops tc (t # ts) =
     (case tc_find ops tc t of
        None \<Rightarrow> None
      | Some i \<Rightarrow> (case tc_member ops tc i of None \<Rightarrow> None | Some tc' \<Rightarrow> member_path ops tc' ts))"

function name_components :: "string \<Rightarrow> string list" where
  "name_components s =
     (case dropWhile (\<lambda>c. c = CHR ''.'') s of
        [] \<Rightarrow> []
      | c # s' \<Rightarrow> (c # takeWhile (\<lambda>c. c \<noteq> CHR ''.'') s') #
                    name_components (dropWhile (\<lambda>c. c \<noteq> CHR ''.'') s'))"
  by pat_completeness auto
termination
proof (relation "measure length")
  fix s c and s' :: string
  assume "dropWhile (\<lambda>c. c = CHR ''.'') s = c # s'"
  then have "Suc (length s') \<le> length s"
    by (metis length_Cons length_dropWhile_le)
  then show "(dropWhile (\<lambda>c. c \<noteq> CHR ''.'') s', s) \<in> measure length"
    using length_dropWhile_le [of "\<lambda>c. c \<noteq> CHR ''.''" s'] by simp
qed simp

declare name_components.simps [simp del] and dropWhile_eq_Nil_conv [simp del]

text \<open>
  The documented behaviour of the string utilities: the token function is the reentrant
  \<open>strtok\<close>, copies of a string that fits are equal to it.
\<close>

definition strtok_r :: "string \<Rightarrow> string option \<times> string" where
  "strtok_r s =
     (case dropWhile (\<lambda>c. c = CHR ''.'') s of
        [] \<Rightarrow> (None, [])
      | c # s' \<Rightarrow> (Some (c # takeWhile (\<lambda>c. c \<noteq> CHR ''.'') s'),
                    drop 1 (dropWhile (\<lambda>c. c \<noteq> CHR ''.'') s')))"

definition string_laws :: "'tc typecode_ops \<Rightarrow> bool" where
  "string_laws ops \<longleftrightarrow>
     (\<forall>s. str_token ops s ''.'' = strtok_r s) \<and>
     (\<forall>s. length s < TYPE_CODE_LENGTH \<longrightarrow> str_cpy ops TYPE_CODE_LENGTH s = s) \<and>
     (\<forall>s t. str_dup ops s = Some t \<longrightarrow> t = s)"

lemma name_components_Nil:
  "dropWhile (\<lambda>c. c = CHR ''.'') s = [] \<Longrightarrow> name_components s = []"
  by (subst name_components.simps) simp

lemma name_components_Cons:
  "dropWhile (\<lambda>c. c = CHR ''.'') s = c # s' \<Longrightarrow>
   name_components s = (c # takeWhile (\<lambda>c. c \<noteq> CHR ''.'') s') #
     name_components (dropWhile (\<lambda>c. c \<noteq> CHR ''.'') s')"
  by (subst name_components.simps) simp

lemma name_components_drop_dot:
  "name_components (drop 1 (dropWhile (\<lambda>c. c \<noteq> CHR ''.'') s)) =
   name_components (dropWhile (\<lambda>c. c \<noteq> CHR ''.'') s)"
proof (cases "dropWhile (\<lambda>c. c \<noteq> CHR ''.'') s")
  case Nil
  then show ?thesis by simp
next
  case (Cons d ds)
  then have d: "d = CHR ''.''" by (auto dest: dropWhile_ConsD)
  have "name_components (d # ds) = name_components ds"
    by (subst (1 2) name_components.simps) (simp add: d)
  then show ?thesis by (simp add: Cons)
qed

text \<open>
  The loop, started with the first token of a name, ends and computes the path of the
  name's components.
\<close>

lemma member_type_loop_path:
  assumes "string_laws ops"
  shows "member_type_loop ops tc (fst (strtok_r s)) (snd (strtok_r s)) =
         Some (member_path ops tc (name_components s))"
proof (induction s arbitrary: tc rule: name_components.induct)
  case (1 s)
  have tok: "str_token ops r ''.'' = strtok_r r" for r
    using assms by (simp add: string_laws_def)
  show ?case
  proof (cases "dropWhile (\<lambda>c. c = CHR ''.'') s")
    case Nil
    then show ?thesis
      by (simp add: strtok_r_def name_components_Nil member_type_loop.simps)
  next
    case (Cons c s')
    let ?r = "dropWhile (\<lambda>c. c \<noteq> CHR ''.'') s'"
    have IH: "member_type_loop ops tc' (fst (strtok_r (drop 1 ?r))) (snd (strtok_r (drop 1 ?r))) =
        Some (member_path ops tc' (name_components ?r))" for tc'
    proof (cases ?r)
      case Nil
      then show ?thesis
        by (simp add: strtok_r_def name_components_Nil member_type_loop.simps)
    next
      case (Cons d ds)
      then have d: "d = CHR ''.''" by (auto dest: dropWhile_ConsD)
      have "strtok_r (d # ds) = strtok_r ds" by (simp add: strtok_r_def d)
      with "1.IH" [OF \<open>dropWhile (\<lambda>c. c = CHR ''.'') s = c # s'\<close>, of tc'] Cons
      show ?thesis by simp
    qed
    have "strtok_r s = (Some (c # takeWhile (\<lambda>c. c \<noteq> CHR ''.'') s'), drop 1 ?r)"
      by (simp add: strtok_r_def Cons)
    then show ?thesis
      by (subst member_type_loop.simps)
        (simp add: name_components_Cons [OF Cons] tok IH [simplified] split: option.splits)
  qed
qed

lemma name_components_no_dot:
  assumes "CHR ''.'' \<notin> set s" and "s \<noteq> []"
  shows "name_components s = [s]"
proof -
  obtain c s' where s: "s = c # s'" using assms(2) by (cases s) auto
  have "takeWhile (\<lambda>c. c \<noteq> CHR ''.'') s' = s'" and "dropWhile (\<lambda>c. c \<noteq> CHR ''.'') s' = []"
    using assms(1) s by (auto simp: takeWhile_eq_all_conv dropWhile_eq_Nil_conv)
  moreover have "dropWhile (\<lambda>c. c = CHR ''.'') s = c # s'"
    using assms(1) s by auto
  ultimately show ?thesis
    using name_components_Cons [of s c s'] s by (simp add: name_components_Nil)
qed

lemma member_type_found:
  assumes "string_laws ops" and "name \<noteq> []"
    and "length name < TYPE_CODE_LENGTH \<or> str_dup ops name \<noteq> None"
  shows "RTI_COMMON_TypeCode_get_member_type ops self name =
         Some (member_path ops self (name_components name))"
proof (cases "CHR ''.'' \<in> set name")
  case False
  then show ?thesis
    using assms(2)
    by (simp add: RTI_COMMON_TypeCode_get_member_type_def name_components_no_dot split: option.splits)
next
  case True
  have "(if length name > TYPE_CODE_LENGTH - 1 then str_dup ops name
         else Some (str_cpy ops TYPE_CODE_LENGTH name)) = Some name"
    using assms(1,3) by (auto simp: string_laws_def TYPE_CODE_LENGTH_def)
  with True member_type_loop_path [OF assms(1), of self name] show ?thesis
    using assms(1)
    by (simp add: RTI_COMMON_TypeCode_get_member_type_def string_laws_def case_prod_beta)
qed

section \<open>Byte buffers in sequence members\<close>

text \<open>
  DynamicData objects are a parameter: reading a sequence member into a sequence and
  writing a member from one.
\<close>

record ('d, 's) member_ops =
  dd_get_seq :: "'d \<Rightarrow> 's \<Rightarrow> string \<Rightarrow> retcode \<times> 's"
  dd_set_seq :: "'d \<Rightarrow> string \<Rightarrow> 's \<Rightarrow> retcode \<times> 'd"

text \<open>
  The result of the getters: the return code, the pointer \<open>*contiguous_buffer\<close> (the memory
  it leads to; \<open>None\<close> is NULL), the length \<open>*contiguous_buffer_len\<close> and the sequence. The
  argument \<open>want_len\<close> is \<open>contiguous_buffer_len != NULL\<close>; where the code returns before it
  writes an output, the output keeps the value it had.
\<close>

record 's buffer_result =
  br_retcode :: retcode
  br_buffer :: "byte list option"
  br_len :: DDS_UnsignedLong
  br_seq :: 's

definition RTI_COMMON_DynamicData_get_octet_seq_contiguous_buffer ::
  "('s, DDS_Octet) seq_ops \<Rightarrow> ('d, 's) member_ops \<Rightarrow> 'd \<Rightarrow> byte list option \<Rightarrow> bool \<Rightarrow>
   DDS_UnsignedLong \<Rightarrow> 's \<Rightarrow> string \<Rightarrow> 's buffer_result" where
  "RTI_COMMON_DynamicData_get_octet_seq_contiguous_buffer ops dd self buf0 want_len len0 seq member =
     (let (retcode, seq) = dd_get_seq dd self seq member in
      if retcode \<noteq> DDS_RETCODE_OK then \<lparr>br_retcode = retcode, br_buffer = buf0, br_len = len0, br_seq = seq\<rparr>
      else
        (let (ok, len1, seq) =
           (if want_len then (True, seq_get_length ops seq, seq)
            else (let (ok, seq) = DDS_OctetSeq_assert_nul_terminator ops seq in (ok, len0, seq))) in
         if \<not> ok then \<lparr>br_retcode = DDS_RETCODE_ERROR, br_buffer = buf0, br_len = len1, br_seq = seq\<rparr>
         else
           (case seq_buffer ops seq of
              None \<Rightarrow> \<lparr>br_retcode = DDS_RETCODE_ERROR, br_buffer = None, br_len = len1, br_seq = seq\<rparr>
            | Some b \<Rightarrow> \<lparr>br_retcode = DDS_RETCODE_OK, br_buffer = Some b, br_len = len1, br_seq = seq\<rparr>)))"

definition RTI_COMMON_DynamicData_get_char_seq_contiguous_buffer ::
  "('s, DDS_Char) seq_ops \<Rightarrow> ('d, 's) member_ops \<Rightarrow> 'd \<Rightarrow> byte list option \<Rightarrow> bool \<Rightarrow>
   DDS_UnsignedLong \<Rightarrow> 's \<Rightarrow> string \<Rightarrow> 's buffer_result" where
  "RTI_COMMON_DynamicData_get_char_seq_contiguous_buffer ops dd self buf0 want_len len0 seq member =
     (let (retcode, seq) = dd_get_seq dd self seq member in
      if retcode \<noteq> DDS_RETCODE_OK then \<lparr>br_retcode = retcode, br_buffer = buf0, br_len = len0, br_seq = seq\<rparr>
      else
        (let (ok, len1, seq) =
           (if want_len then (True, seq_get_length ops seq, seq)
            else (let (ok, seq) = DDS_CharSeq_assert_nul_terminator ops seq in (ok, len0, seq))) in
         if \<not> ok then \<lparr>br_retcode = DDS_RETCODE_ERROR, br_buffer = buf0, br_len = len1, br_seq = seq\<rparr>
         else
           (case seq_buffer ops seq of
              None \<Rightarrow> \<lparr>br_retcode = DDS_RETCODE_ERROR, br_buffer = None, br_len = len1, br_seq = seq\<rparr>
            | Some b \<Rightarrow> \<lparr>br_retcode = DDS_RETCODE_OK, br_buffer = Some b, br_len = len1, br_seq = seq\<rparr>)))"

text \<open>
  The size the setters loan: the given size, or that of the C string with its terminator,
  without the terminator when the string alone fills the member. The arithmetic is that of
  32-bit words, as in C, where \<open>current_size - 1 == max_size\<close> compares unsigned values.
\<close>

definition current_size :: "byte list \<Rightarrow> DDS_UnsignedLong \<Rightarrow> DDS_UnsignedLong \<Rightarrow> fault + DDS_Long" where
  "current_size buffer max_size buffer_size =
     (if buffer_size > 0 then Inr buffer_size
      else bindF (strlen buffer) (\<lambda>n.
        (let size = word_of_nat n + 1 in
         Inr (if size - 1 = max_size then size - 1 else size))))"

definition RTI_COMMON_DynamicData_set_octet_seq_from_string ::
  "('s, DDS_Octet) seq_ops \<Rightarrow> ('d, 's) member_ops \<Rightarrow> 'd \<Rightarrow> 's \<Rightarrow> string \<Rightarrow> byte list \<Rightarrow>
   DDS_UnsignedLong \<Rightarrow> DDS_UnsignedLong \<Rightarrow> fault + (retcode \<times> 'd \<times> 's)" where
  "RTI_COMMON_DynamicData_set_octet_seq_from_string ops dd self seq member buffer max_size buffer_size =
     bindF (current_size buffer max_size buffer_size) (\<lambda>size.
       (let (ok, seq) = seq_loan_contiguous ops seq buffer size max_size in
        if \<not> ok then Inr (DDS_RETCODE_ERROR, self, seq)
        else
          (let (retcode, self) = dd_set_seq dd self member seq in
           if retcode \<noteq> DDS_RETCODE_OK then Inr (retcode, self, seq)
           else
             (let (ok, seq) = seq_unloan ops seq in
              if \<not> ok then Inr (DDS_RETCODE_ERROR, self, seq)
              else Inr (DDS_RETCODE_OK, self, seq)))))"

definition RTI_COMMON_DynamicData_set_char_seq_from_string ::
  "('s, DDS_Char) seq_ops \<Rightarrow> ('d, 's) member_ops \<Rightarrow> 'd \<Rightarrow> 's \<Rightarrow> string \<Rightarrow> byte list \<Rightarrow>
   DDS_UnsignedLong \<Rightarrow> DDS_UnsignedLong \<Rightarrow> fault + (retcode \<times> 'd \<times> 's)" where
  "RTI_COMMON_DynamicData_set_char_seq_from_string ops dd self seq member buffer max_size buffer_size =
     bindF (current_size buffer max_size buffer_size) (\<lambda>size.
       (let (ok, seq) = seq_loan_contiguous ops seq buffer size max_size in
        if \<not> ok then Inr (DDS_RETCODE_ERROR, self, seq)
        else
          (let (retcode, self) = dd_set_seq dd self member seq in
           if retcode \<noteq> DDS_RETCODE_OK then Inr (retcode, self, seq)
           else
             (let (ok, seq) = seq_unloan ops seq in
              if \<not> ok then Inr (DDS_RETCODE_ERROR, self, seq)
              else Inr (DDS_RETCODE_OK, self, seq)))))"

text \<open>
  The char and the octet functions are the same functions on bytes, so every lemma about
  one is a lemma about the other.
\<close>

lemma char_seq_eq_octet_seq:
  "RTI_COMMON_DynamicData_get_char_seq_contiguous_buffer =
     RTI_COMMON_DynamicData_get_octet_seq_contiguous_buffer"
  "RTI_COMMON_DynamicData_set_char_seq_from_string =
     RTI_COMMON_DynamicData_set_octet_seq_from_string"
  unfolding fun_eq_iff RTI_COMMON_DynamicData_get_char_seq_contiguous_buffer_def
    RTI_COMMON_DynamicData_get_octet_seq_contiguous_buffer_def
    RTI_COMMON_DynamicData_set_char_seq_from_string_def
    RTI_COMMON_DynamicData_set_octet_seq_from_string_def
    CharSeq_assert_eq_OctetSeq_assert
  by simp_all

section \<open>The contract of DynamicData members\<close>

text \<open>
  What a client relies on: a member read back into a sequence has the content it was
  written from.
\<close>

locale dyn_member = dds_seq ops valid elems cap
  for ops :: "('s, byte) seq_ops" and valid elems cap +
  fixes dd :: "('d, 's) member_ops"
  assumes get_wf: "valid t \<Longrightarrow> dd_get_seq dd d t m = (DDS_RETCODE_OK, t') \<Longrightarrow> valid t'"
    and set_get: "valid s \<Longrightarrow> dd_set_seq dd d m s = (DDS_RETCODE_OK, d') \<Longrightarrow>
          valid t \<Longrightarrow> dd_get_seq dd d' t m = (DDS_RETCODE_OK, t') \<Longrightarrow> elems t' = elems s"
begin

lemma set_from_buffer:
  assumes "valid s" and "0 < n" and "unat n \<le> length buf"
    and "RTI_COMMON_DynamicData_set_octet_seq_from_string ops dd d s m buf mx n =
           Inr (DDS_RETCODE_OK, d', s')"
  shows "\<exists>t. valid t \<and> elems t = take (unat n) buf \<and> dd_set_seq dd d m t = (DDS_RETCODE_OK, d') \<and>
             seq_unloan ops t = (True, s')"
  using assms(4) loan_ok [OF assms(1) _ assms(3), of mx] assms(2)
  by (auto simp: RTI_COMMON_DynamicData_set_octet_seq_from_string_def current_size_def
      split: prod.splits if_splits)

text \<open>The data of a C++ string with its size: the content of the string is stored, also when it is empty.\<close>

lemma set_from_string:
  assumes "valid s" and "int (length bytes) < 2 ^ 31"
    and "RTI_COMMON_DynamicData_set_octet_seq_from_string ops dd d s m (bytes @ [0]) (word_of_nat (length bytes))
           (word_of_nat (length bytes)) = Inr (DDS_RETCODE_OK, d', s')"
  shows "\<exists>t. valid t \<and> elems t = bytes \<and> dd_set_seq dd d m t = (DDS_RETCODE_OK, d')"
proof (cases "bytes = []")
  case True
  then show ?thesis
    using assms(3) loan_ok [OF assms(1), of "[0]" 0 0]
    by (auto simp: RTI_COMMON_DynamicData_set_octet_seq_from_string_def current_size_def split: prod.splits if_splits)
next
  case False
  have n: "unat (word_of_nat (length bytes) :: 32 word) = length bytes"
    using assms(2) by (simp add: unat_of_nat)
  with False have "0 < (word_of_nat (length bytes) :: 32 word)" by (simp add: word_less_nat_alt)
  from set_from_buffer [OF assms(1) this _ assms(3)] show ?thesis by (auto simp: n)
qed

lemma get_with_length:
  assumes "valid t"
    and "br_retcode (RTI_COMMON_DynamicData_get_octet_seq_contiguous_buffer ops dd d b0 True l0 t m)
           = DDS_RETCODE_OK"
  shows "\<exists>t' b. dd_get_seq dd d t m = (DDS_RETCODE_OK, t') \<and>
     RTI_COMMON_DynamicData_get_octet_seq_contiguous_buffer ops dd d b0 True l0 t m =
       \<lparr>br_retcode = DDS_RETCODE_OK, br_buffer = Some b,
        br_len = word_of_nat (length (elems t')), br_seq = t'\<rparr> \<and>
     take (length (elems t')) b = elems t'"
  using assms get_wf [OF assms(1)] get_length buffer_prefix
  by (auto simp: RTI_COMMON_DynamicData_get_octet_seq_contiguous_buffer_def Let_def
      split: prod.splits if_splits option.splits)

lemma get_terminated:
  assumes "valid t"
    and "RTI_COMMON_DynamicData_get_octet_seq_contiguous_buffer ops dd d b0 False l0 t m = r"
    and "br_retcode r = DDS_RETCODE_OK"
  shows "\<exists>t' b. dd_get_seq dd d t m = (DDS_RETCODE_OK, t') \<and> br_buffer r = Some b \<and>
     (\<exists>zs. b = nul_terminated (elems t') @ zs) \<and> elems t' \<noteq> []"
proof -
  obtain t' where t': "dd_get_seq dd d t m = (DDS_RETCODE_OK, t')"
    using assms(2,3)
    by (auto simp: RTI_COMMON_DynamicData_get_octet_seq_contiguous_buffer_def Let_def
        split: prod.splits if_splits)
  obtain u b where u: "DDS_OctetSeq_assert_nul_terminator ops t' = (True, u)"
      and b: "seq_buffer ops u = Some b" and r: "br_buffer r = Some b"
    using assms(2,3) t'
    by (auto simp: RTI_COMMON_DynamicData_get_octet_seq_contiguous_buffer_def Let_def
        split: prod.splits if_splits option.splits)
  have s: "valid u" "elems t' \<noteq> []" "elems u = nul_terminated (elems t')"
    using OctetSeq_assert_nul_terminator_spec [OF dds_seq_axioms get_wf [OF assms(1) t'] u]
    by simp_all
  have "b = nul_terminated (elems t') @ drop (length (elems u)) b"
    using buffer_prefix [OF s(1) b] s(3) by (metis append_take_drop_id)
  with t' r s(2) show ?thesis by blast
qed

end

lemma nul_terminated_has_nul: "xs \<noteq> [] \<Longrightarrow> 0 \<in> set (nul_terminated xs)"
  using last_in_set [of xs] by (cases "last xs = 0") (auto simp: nul_terminated_def)

text \<open>A DynamicData object with octet sequence members, to evaluate the model.\<close>

definition lseq_assign :: "byte lseq \<Rightarrow> byte list \<Rightarrow> bool \<times> byte lseq" where
  "lseq_assign s xs =
     (if length xs \<le> length (l_mem s)
      then (True, s\<lparr>l_mem := xs @ drop (length xs) (l_mem s), l_len := length xs\<rparr>)
      else if l_loaned s \<or> 2 ^ 31 \<le> length xs then (False, s)
      else (True, s\<lparr>l_mem := xs, l_len := length xs\<rparr>))"

definition map_member_ops :: "(string \<rightharpoonup> byte list, byte lseq) member_ops" where
  "map_member_ops = \<lparr>
     dd_get_seq = (\<lambda>d s m. case d m of
        None \<Rightarrow> (DDS_RETCODE_ERROR, s)
      | Some xs \<Rightarrow> (let (ok, s) = lseq_assign s xs in
                    (if ok then DDS_RETCODE_OK else DDS_RETCODE_ERROR, s))),
     dd_set_seq = (\<lambda>d m s. if m \<in> dom d then (DDS_RETCODE_OK, d(m \<mapsto> lseq_elems s))
                            else (DDS_RETCODE_ERROR, d))\<rparr>"

lemma lseq_assign_ok:
  "lseq_wf s \<Longrightarrow> lseq_assign s xs = (True, s') \<Longrightarrow> lseq_wf s' \<and> lseq_elems s' = xs"
  by (auto simp: lseq_assign_def lseq_wf_def lseq_elems_def split: if_splits)

interpretation map_member: dyn_member "lseq_ops 0" lseq_wf lseq_elems lseq_cap map_member_ops
proof (unfold_locales, goal_cases)
  case (1 t d m t')
  then show ?case
    using lseq_assign_ok
    by (auto simp: map_member_ops_def Let_def split: option.splits prod.splits if_splits)
next
  case (2 s d m d' t t')
  then show ?case
    using lseq_assign_ok
    by (fastforce simp: map_member_ops_def Let_def split: option.splits prod.splits if_splits)
qed

section \<open>Properties\<close>

text \<open>
  C22. The search for a member type by a dotted name ends for every non-empty name and
  returns the type found by following the components of the name one by one, empty
  components skipped, and NULL when a component is missing, provided the copy of a name of
  256 or more characters can be allocated.
\<close>

theorem get_member_type_follows_path:
  assumes "string_laws ops" and "name \<noteq> []"
    and "length name < TYPE_CODE_LENGTH \<or> str_dup ops name \<noteq> None"
  shows "RTI_COMMON_TypeCode_get_member_type ops self name =
         Some (member_path ops self (name_components name))"
  using assms by (rule member_type_found)

text \<open>Type codes as trees, to evaluate the walk: a node lists its named members.\<close>

datatype tc_tree = Tc_Node "(string \<times> tc_tree) list"

fun tc_members :: "tc_tree \<Rightarrow> (string \<times> tc_tree) list" where
  "tc_members (Tc_Node ms) = ms"

fun index_of :: "string \<Rightarrow> (string \<times> 'a) list \<Rightarrow> nat option" where
  "index_of k [] = None"
| "index_of k ((k', v) # xs) = (if k = k' then Some 0 else map_option Suc (index_of k xs))"

definition tree_ops :: "tc_tree typecode_ops" where
  "tree_ops = \<lparr>
     tc_find = (\<lambda>tc n. index_of n (tc_members tc)),
     tc_member = (\<lambda>tc i. if i < length (tc_members tc) then Some (snd (tc_members tc ! i)) else None),
     str_token = (\<lambda>s d. strtok_r s),
     str_dup = Some,
     str_cpy = (\<lambda>n s. take (n - 1) s)\<rparr>"

theorem get_member_type_follows_path_witness:
  "RTI_COMMON_TypeCode_get_member_type tree_ops
     (Tc_Node [(''header'', Tc_Node []), (''payload'', Tc_Node [(''data'', Tc_Node [(''x'', Tc_Node [])])])])
     ''payload.data'' = Some (Some (Tc_Node [(''x'', Tc_Node [])]))"
proof -
  have l: "string_laws tree_ops"
    by (simp add: string_laws_def tree_ops_def TYPE_CODE_LENGTH_def)
  have "name_components ''payload.data'' = [''payload'', ''data'']"
    by (simp add: name_components.simps)
  then show ?thesis
    by (subst get_member_type_follows_path [OF l])
      (simp_all add: tree_ops_def TYPE_CODE_LENGTH_def)
qed

text \<open>
  C6. Bytes stored in a sequence member with an explicit size come back: after a successful
  store of \<open>n\<close> bytes of a buffer, a successful read that asks for the length yields the
  length \<open>n\<close> and a buffer that starts with those \<open>n\<close> bytes, nul bytes included.
\<close>

theorem set_then_get_octet_seq:
  assumes "dyn_member ops valid elems cap dd" and "valid s" and "valid t"
    and "0 < n" and "unat n \<le> length buf"
    and "RTI_COMMON_DynamicData_set_octet_seq_from_string ops dd d s m buf mx n =
           Inr (DDS_RETCODE_OK, d', s')"
    and "r = RTI_COMMON_DynamicData_get_octet_seq_contiguous_buffer ops dd d' b0 True l0 t m"
    and "br_retcode r = DDS_RETCODE_OK"
  shows "br_len r = n \<and> (\<exists>b. br_buffer r = Some b \<and> take (unat n) b = take (unat n) buf)"
proof -
  obtain u where u: "valid u" "elems u = take (unat n) buf"
      "dd_set_seq dd d m u = (DDS_RETCODE_OK, d')"
    using dyn_member.set_from_buffer [OF assms(1,2,4,5,6)] by blast
  obtain t' b where t': "dd_get_seq dd d' t m = (DDS_RETCODE_OK, t')"
      and r: "r = \<lparr>br_retcode = DDS_RETCODE_OK, br_buffer = Some b,
               br_len = word_of_nat (length (elems t')), br_seq = t'\<rparr>"
      and b: "take (length (elems t')) b = elems t'"
    using dyn_member.get_with_length [OF assms(1,3) assms(8) [unfolded assms(7)]] assms(7) by metis
  have "elems t' = take (unat n) buf"
    using dyn_member.set_get [OF assms(1) u(1,3) assms(3) t'] u(2) by simp
  with r b assms(5) show ?thesis by simp
qed

theorem set_then_get_octet_seq_witness:
  "\<exists>d' s' r. RTI_COMMON_DynamicData_set_octet_seq_from_string (lseq_ops 0) map_member_ops
       [''data'' \<mapsto> []] empty_lseq ''data'' [1, 0, 2] 3 3 = Inr (DDS_RETCODE_OK, d', s') \<and>
     r = RTI_COMMON_DynamicData_get_octet_seq_contiguous_buffer (lseq_ops 0) map_member_ops
       d' None True 0 empty_lseq ''data'' \<and>
     br_len r = 3 \<and> (\<exists>b. br_buffer r = Some b \<and> take 3 b = [1, 0, 2])"
proof -
  let ?d = "[''data'' \<mapsto> [1, 0, 2]] :: string \<rightharpoonup> byte list"
  let ?r = "RTI_COMMON_DynamicData_get_octet_seq_contiguous_buffer (lseq_ops 0) map_member_ops
       ?d None True 0 empty_lseq ''data''"
  have v: "lseq_wf (empty_lseq :: byte lseq)" by (simp add: lseq_wf_def empty_lseq_def)
  have s: "RTI_COMMON_DynamicData_set_octet_seq_from_string (lseq_ops 0) map_member_ops
       [''data'' \<mapsto> []] empty_lseq ''data'' [1, 0, 2] 3 3 = Inr (DDS_RETCODE_OK, ?d, empty_lseq)"
    by (simp add: RTI_COMMON_DynamicData_set_octet_seq_from_string_def current_size_def
        lseq_ops_def lseq_loan_def map_member_ops_def lseq_elems_def empty_lseq_def)
  have g: "br_retcode ?r = DDS_RETCODE_OK"
    by (simp add: RTI_COMMON_DynamicData_get_octet_seq_contiguous_buffer_def lseq_ops_def
        map_member_ops_def lseq_assign_def empty_lseq_def Let_def)
  have "br_len ?r = 3 \<and> (\<exists>b. br_buffer ?r = Some b \<and> take (unat (3 :: 32 word)) b = take (unat (3 :: 32 word)) [1, 0, 2])"
    by (rule set_then_get_octet_seq [OF map_member.dyn_member_axioms v v _ _ s refl g]) simp_all
  with s show ?thesis by auto
qed

text \<open>
  Without a length the getter hands out a C string: where it succeeds, the buffer it
  returns starts with the content of the member followed by a nul, so \<open>strlen\<close> on it stays
  inside the buffer; an empty member is an error.
\<close>

theorem get_octet_seq_is_c_string:
  assumes "dyn_member ops valid elems cap dd" and "valid t"
    and "r = RTI_COMMON_DynamicData_get_octet_seq_contiguous_buffer ops dd d b0 False l0 t m"
    and "br_retcode r = DDS_RETCODE_OK"
  shows "\<exists>t' b n. dd_get_seq dd d t m = (DDS_RETCODE_OK, t') \<and> elems t' \<noteq> [] \<and>
     br_buffer r = Some b \<and> take (length (elems t')) b = elems t' \<and>
     strlen b = Inr n \<and> n \<le> length (elems t')"
proof -
  obtain t' b zs where t': "dd_get_seq dd d t m = (DDS_RETCODE_OK, t')" "br_buffer r = Some b"
      "b = nul_terminated (elems t') @ zs" "elems t' \<noteq> []"
    using dyn_member.get_terminated [OF assms(1,2) assms(3) [symmetric] assms(4)] by blast
  have "0 \<in> set b"
    using nul_terminated_has_nul [OF t'(4)] t'(3) by simp
  then obtain n where n: "strlen b = Inr n"
    using strlen_has_nul by blast
  have "take (length (elems t')) b = elems t'"
    using t'(3) by (simp add: nul_terminated_def)
  moreover have "n \<le> length (elems t')"
  proof (rule ccontr)
    assume "\<not> n \<le> length (elems t')"
    then have "set (nul_terminated (elems t')) \<subseteq> set (take n b)"
      using t'(3) by (auto simp: nul_terminated_def)
    then show False
      using n nul_terminated_has_nul [OF t'(4)] by (auto simp: strlen_eq_Inr)
  qed
  ultimately show ?thesis using t' n by blast
qed

theorem get_octet_seq_is_c_string_witness:
  "\<exists>t' b n. dd_get_seq map_member_ops [''data'' \<mapsto> [5, 6]] empty_lseq ''data'' = (DDS_RETCODE_OK, t') \<and>
     lseq_elems t' \<noteq> [] \<and>
     br_buffer (RTI_COMMON_DynamicData_get_octet_seq_contiguous_buffer (lseq_ops 0) map_member_ops
       [''data'' \<mapsto> [5, 6]] None False 0 empty_lseq ''data'') = Some b \<and>
     take (length (lseq_elems t')) b = lseq_elems t' \<and> strlen b = Inr n \<and> n \<le> length (lseq_elems t')"
proof (rule get_octet_seq_is_c_string [OF map_member.dyn_member_axioms _ refl])
  show "lseq_wf (empty_lseq :: byte lseq)" by (simp add: lseq_wf_def empty_lseq_def)
  show "br_retcode (RTI_COMMON_DynamicData_get_octet_seq_contiguous_buffer (lseq_ops 0) map_member_ops
       [''data'' \<mapsto> [5, 6]] None False 0 empty_lseq ''data'') = DDS_RETCODE_OK"
    by (simp add: RTI_COMMON_DynamicData_get_octet_seq_contiguous_buffer_def lseq_ops_def
        map_member_ops_def lseq_assign_def empty_lseq_def Let_def lseq_resize_def
        DDS_OctetSeq_assert_nul_terminator_def)
qed

text \<open>
  A store that fails in DynamicData leaves the helper's sequence on loan, and every
  later store of one or more bytes through the same sequence fails: the setters release the
  loan on the successful path only.
\<close>

theorem failed_store_is_permanent:
  assumes "dds_seq ops valid elems cap" and "valid s" and "0 < n" and "unat n \<le> length buf"
    and "seq_loan_contiguous ops s buf n mx = (True, t)"
    and "dd_set_seq dd d m t = (rc, d')" and "rc \<noteq> DDS_RETCODE_OK"
  shows "RTI_COMMON_DynamicData_set_octet_seq_from_string ops dd d s m buf mx n = Inr (rc, d', t)
    \<and> (0 < n2 \<longrightarrow> (\<exists>u. RTI_COMMON_DynamicData_set_octet_seq_from_string ops dd d2 t m2 buf2 mx2 n2 =
           Inr (DDS_RETCODE_ERROR, d2, u)))"
proof (intro conjI impI)
  show "RTI_COMMON_DynamicData_set_octet_seq_from_string ops dd d s m buf mx n = Inr (rc, d', t)"
    using assms by (simp add: RTI_COMMON_DynamicData_set_octet_seq_from_string_def current_size_def)
  have "0 < unat n" using assms(3) by (simp add: word_less_nat_alt)
  then have t: "valid t" "0 < cap t"
    using dds_seq.loan_ok [OF assms(1,2,5,4)] dds_seq.loan_cap [OF assms(1,2,5,4)] by simp_all
  assume "0 < n2"
  then show "\<exists>u. RTI_COMMON_DynamicData_set_octet_seq_from_string ops dd d2 t m2 buf2 mx2 n2 =
           Inr (DDS_RETCODE_ERROR, d2, u)"
    using dds_seq.loan_needs_empty [OF assms(1) t, of buf2 n2 mx2]
    by (auto simp: RTI_COMMON_DynamicData_set_octet_seq_from_string_def current_size_def
        split: prod.splits)
qed

theorem failed_store_is_permanent_witness:
  "\<exists>t u. RTI_COMMON_DynamicData_set_octet_seq_from_string (lseq_ops 0) map_member_ops
       [''data'' \<mapsto> []] empty_lseq ''missing'' [1, 2] 2 2 = Inr (DDS_RETCODE_ERROR, [''data'' \<mapsto> []], t) \<and>
     RTI_COMMON_DynamicData_set_octet_seq_from_string (lseq_ops 0) map_member_ops
       [''data'' \<mapsto> []] t ''data'' [1, 2] 2 2 = Inr (DDS_RETCODE_ERROR, [''data'' \<mapsto> []], u)"
proof -
  let ?t = "\<lparr>l_mem = [1, 2], l_len = 2, l_loaned = True\<rparr> :: byte lseq"
  have v: "lseq_wf (empty_lseq :: byte lseq)" by (simp add: lseq_wf_def empty_lseq_def)
  have l: "seq_loan_contiguous (lseq_ops 0) empty_lseq [1, 2] 2 2 = (True, ?t)"
    by (simp add: lseq_ops_def lseq_loan_def empty_lseq_def)
  have m: "dd_set_seq map_member_ops [''data'' \<mapsto> []] ''missing'' ?t = (DDS_RETCODE_ERROR, [''data'' \<mapsto> []])"
    by (simp add: map_member_ops_def)
  note f = failed_store_is_permanent [OF lseq.dds_seq_axioms v _ _ l m]
  show ?thesis using f by simp
qed

end
