(* ===== verification/Kafka_Writer.thy ===== *)
theory Kafka_Writer
  imports Dynamic_Helpers "HOL-Library.Sublist"
begin

text \<open>
  The stream writer of the Kafka adapter, \<^verbatim>\<open>plugins/adapters/kafka/srcC/KafkaStreamWriter.c\<close>:
  every DDS sample of a call is turned into one Kafka message, retried while the producer's
  queue is full. The producer of librdkafka is a parameter of the model, DynamicData and
  the octet sequence are those of \<open>Dynamic_Helpers\<close>.
\<close>

section \<open>State and parameters\<close>

datatype rd_kafka_resp_err =
    RD_KAFKA_RESP_ERR_NO_ERROR
  | RD_KAFKA_RESP_ERR__QUEUE_FULL
  | RD_KAFKA_RESP_ERR_OTHER int

text \<open>
  \<open>producev k topic payload\<close> enqueues a copy of the payload, \<open>poll k timeout\<close> serves the
  delivery reports; both act on the producer's state.
\<close>

record 'k producer_ops =
  producev :: "'k \<Rightarrow> string \<Rightarrow> byte list \<Rightarrow> rd_kafka_resp_err \<times> 'k"
  rk_poll :: "'k \<Rightarrow> nat \<Rightarrow> 'k"

record 'k RTI_RS_KafkaStreamWriter =
  sw_addr :: addr
  sw_rk :: "'k option"
  sw_topic :: "string option"

section \<open>Writing samples\<close>

text \<open>The loop that polls and produces again while the queue is full.\<close>

partial_function (option) produce_while_full ::
  "'k producer_ops \<Rightarrow> string \<Rightarrow> byte list \<Rightarrow> rd_kafka_resp_err \<Rightarrow> 'k \<Rightarrow> 'k option" where
  "produce_while_full ops topic payload err rk =
     (if err = RD_KAFKA_RESP_ERR__QUEUE_FULL
      then produce_while_full ops topic payload
             (fst (producev ops (rk_poll ops rk 10) topic payload))
             (snd (producev ops (rk_poll ops rk 10) topic payload))
      else Some rk)"

text \<open>Producing one message, and the poll at the end of the loop body.\<close>

definition produce_sample :: "'k producer_ops \<Rightarrow> string \<Rightarrow> byte list \<Rightarrow> 'k \<Rightarrow> 'k option" where
  "produce_sample ops topic payload rk =
     (let (err, rk) = producev ops rk topic payload in
      case (if err \<noteq> RD_KAFKA_RESP_ERR_NO_ERROR
            then produce_while_full ops topic payload err rk
            else Some rk) of
        None \<Rightarrow> None
      | Some rk \<Rightarrow> Some (rk_poll ops rk 0))"

text \<open>
  The loop over the samples. The sequence \<open>buffer_seq\<close> lives across the iterations; a
  sample without payload member or without buffer is skipped. The value of a message is
  the C string at the start of the buffer.
\<close>

fun write_samples ::
  "('s, DDS_Octet) seq_ops \<Rightarrow> ('d, 's) member_ops \<Rightarrow> 'k producer_ops \<Rightarrow> string \<Rightarrow> 'd list \<Rightarrow>
   's \<Rightarrow> 'k \<Rightarrow> (fault + 'k) option" where
  "write_samples ops dd kops topic [] buffer_seq rk = Some (Inr rk)"
| "write_samples ops dd kops topic (sample # samples) buffer_seq rk =
     (let (retcode, buffer_seq) = dd_get_seq dd sample buffer_seq ''payload.data'' in
      if retcode \<noteq> DDS_RETCODE_OK then write_samples ops dd kops topic samples buffer_seq rk
      else
        (case seq_buffer ops buffer_seq of
           None \<Rightarrow> write_samples ops dd kops topic samples buffer_seq rk
         | Some buffer \<Rightarrow>
             (case strlen buffer of
                Inl e \<Rightarrow> Some (Inl e)
              | Inr len \<Rightarrow>
                  (case produce_sample kops topic (take len buffer) rk of
                     None \<Rightarrow> None
                   | Some rk \<Rightarrow> write_samples ops dd kops topic samples buffer_seq rk))))"

text \<open>
  The whole operation: it returns the number of samples it was given. \<open>init_seq\<close> is the
  sequence \<open>DDS_SEQUENCE_INITIALIZER\<close> makes.
\<close>

definition RTI_RS_KafkaStreamWriter_write ::
  "('s, DDS_Octet) seq_ops \<Rightarrow> 's \<Rightarrow> ('d, 's) member_ops \<Rightarrow> 'k producer_ops \<Rightarrow>
   'k RTI_RS_KafkaStreamWriter \<Rightarrow> 'd list \<Rightarrow> (fault + int \<times> 'k RTI_RS_KafkaStreamWriter) option" where
  "RTI_RS_KafkaStreamWriter_write ops init_seq dd kops self sample_list =
     (case (sw_rk self, sw_topic self) of
        (Some rk, Some topic) \<Rightarrow>
          (case write_samples ops dd kops topic sample_list init_seq rk of
             None \<Rightarrow> None
           | Some (Inl e) \<Rightarrow> Some (Inl e)
           | Some (Inr rk) \<Rightarrow> Some (Inr (int (length sample_list), self\<lparr>sw_rk := Some rk\<rparr>)))
      | _ \<Rightarrow> Some (if sample_list = [] then Inr (0, self) else Inl Null_Deref))"

section \<open>The retry loop\<close>

fun attempts ::
  "'k producer_ops \<Rightarrow> string \<Rightarrow> byte list \<Rightarrow> nat \<Rightarrow> rd_kafka_resp_err \<times> 'k \<Rightarrow> rd_kafka_resp_err \<times> 'k" where
  "attempts ops topic payload 0 p = p"
| "attempts ops topic payload (Suc n) p =
     attempts ops topic payload n (producev ops (rk_poll ops (snd p) 10) topic payload)"

text \<open>
  \<open>settled n\<close>: after \<open>n\<close> more attempts the queue was not full, and it was full before.
\<close>

definition settled ::
  "'k producer_ops \<Rightarrow> string \<Rightarrow> byte list \<Rightarrow> nat \<Rightarrow> rd_kafka_resp_err \<times> 'k \<Rightarrow> bool" where
  "settled ops topic payload n p \<longleftrightarrow>
     fst (attempts ops topic payload n p) \<noteq> RD_KAFKA_RESP_ERR__QUEUE_FULL \<and>
     (\<forall>i < n. fst (attempts ops topic payload i p) = RD_KAFKA_RESP_ERR__QUEUE_FULL)"

lemma settled_0: "settled ops topic payload 0 (err, rk) \<longleftrightarrow> err \<noteq> RD_KAFKA_RESP_ERR__QUEUE_FULL"
  by (simp add: settled_def)

lemma settled_Suc:
  "settled ops topic payload (Suc n) (err, rk) \<longleftrightarrow>
     err = RD_KAFKA_RESP_ERR__QUEUE_FULL \<and>
     settled ops topic payload n (producev ops (rk_poll ops rk 10) topic payload)"
  by (auto simp: settled_def All_less_Suc2)

lemma produce_while_full_settled:
  "settled ops topic payload n (err, rk) \<Longrightarrow>
   produce_while_full ops topic payload err rk = Some (snd (attempts ops topic payload n (err, rk)))"
proof (induction n arbitrary: err rk)
  case 0
  then show ?case by (subst produce_while_full.simps) (simp add: settled_0)
next
  case (Suc n)
  then show ?case
    by (subst produce_while_full.simps) (simp add: settled_Suc)
qed

lemma produce_while_full_Some:
  assumes "produce_while_full ops topic payload err rk = Some rk'"
  shows "\<exists>n. settled ops topic payload n (err, rk)"
proof (rule produce_while_full.raw_induct
    [where P = "\<lambda>ops topic payload err rk rk'. \<exists>n. settled ops topic payload n (err, rk)", OF _ assms])
  fix f :: "'a producer_ops \<Rightarrow> string \<Rightarrow> byte list \<Rightarrow> rd_kafka_resp_err \<Rightarrow> 'a \<Rightarrow> 'a option"
    and ops :: "'a producer_ops" and topic payload err and rk rk' :: 'a
  let ?p = "producev ops (rk_poll ops rk 10) topic payload"
  assume IH: "\<And>ops topic payload err rk rk'. f ops topic payload err rk = Some rk' \<Longrightarrow>
      \<exists>n. settled ops topic payload n (err, rk)"
    and eq: "(if err = RD_KAFKA_RESP_ERR__QUEUE_FULL then f ops topic payload (fst ?p) (snd ?p)
       else Some rk) = Some rk'"
  show "\<exists>n. settled ops topic payload n (err, rk)"
  proof (cases "err = RD_KAFKA_RESP_ERR__QUEUE_FULL")
    case True
    with eq IH obtain n where "settled ops topic payload n ?p" by fastforce
    with True have "settled ops topic payload (Suc n) (err, rk)" by (simp add: settled_Suc)
    then show ?thesis ..
  next
    case False
    then have "settled ops topic payload 0 (err, rk)" by (simp add: settled_0)
    then show ?thesis ..
  qed
qed

text \<open>The loop returns exactly when some attempt finds room, or fails for another reason.\<close>

lemma produce_while_full_returns_iff:
  "(\<exists>rk'. produce_while_full ops topic payload err rk = Some rk') \<longleftrightarrow>
   (\<exists>n. fst (attempts ops topic payload n (err, rk)) \<noteq> RD_KAFKA_RESP_ERR__QUEUE_FULL)"
proof
  assume "\<exists>rk'. produce_while_full ops topic payload err rk = Some rk'"
  then show "\<exists>n. fst (attempts ops topic payload n (err, rk)) \<noteq> RD_KAFKA_RESP_ERR__QUEUE_FULL"
    using produce_while_full_Some by (fastforce simp: settled_def)
next
  let ?P = "\<lambda>n. fst (attempts ops topic payload n (err, rk)) \<noteq> RD_KAFKA_RESP_ERR__QUEUE_FULL"
  assume "\<exists>n. ?P n"
  then have "settled ops topic payload (LEAST n. ?P n) (err, rk)"
    using LeastI_ex [of ?P] not_less_Least [of _ ?P] by (auto simp: settled_def)
  then show "\<exists>rk'. produce_while_full ops topic payload err rk = Some rk'"
    by (intro exI) (rule produce_while_full_settled)
qed

section \<open>What the producer promises\<close>

text \<open>
  \<open>sent k\<close> is the sequence of messages the producer has accepted: an accepted message is
  appended, a refused one and a poll change nothing. \<open>accepts\<close>: a full queue is the only
  reason to refuse. \<open>drains\<close>: a full queue does not stay full for ever under polling.
\<close>

definition producer_laws :: "'k producer_ops \<Rightarrow> ('k \<Rightarrow> (string \<times> byte list) list) \<Rightarrow> bool" where
  "producer_laws kops sent \<longleftrightarrow>
     (\<forall>k t m k'. producev kops k t m = (RD_KAFKA_RESP_ERR_NO_ERROR, k') \<longrightarrow> sent k' = sent k @ [(t, m)]) \<and>
     (\<forall>k t m e k'. producev kops k t m = (e, k') \<and> e \<noteq> RD_KAFKA_RESP_ERR_NO_ERROR \<longrightarrow> sent k' = sent k) \<and>
     (\<forall>k n. sent (rk_poll kops k n) = sent k)"

definition accepts :: "'k producer_ops \<Rightarrow> bool" where
  "accepts kops \<longleftrightarrow> (\<forall>k t m. fst (producev kops k t m) \<in>
     {RD_KAFKA_RESP_ERR_NO_ERROR, RD_KAFKA_RESP_ERR__QUEUE_FULL})"

definition drains :: "'k producer_ops \<Rightarrow> bool" where
  "drains kops \<longleftrightarrow> (\<forall>k t m. \<exists>n.
     fst (attempts kops t m n (producev kops k t m)) \<noteq> RD_KAFKA_RESP_ERR__QUEUE_FULL)"

lemma producer_produce:
  assumes "producer_laws kops sent" and "producev kops k t m = (e, k')"
  shows "sent k' = sent k @ (if e = RD_KAFKA_RESP_ERR_NO_ERROR then [(t, m)] else [])"
  using assms unfolding producer_laws_def by auto

lemma producer_poll: "producer_laws kops sent \<Longrightarrow> sent (rk_poll kops k n) = sent k"
  by (simp add: producer_laws_def)

text \<open>
  The producer takes a message when the first attempt that does not find the queue full is
  accepted; otherwise the message is dropped, for it is too large, its topic is unknown or the
  producer has failed for good.
\<close>

definition takes :: "'k producer_ops \<Rightarrow> string \<Rightarrow> byte list \<Rightarrow> 'k \<Rightarrow> bool" where
  "takes kops topic m k \<longleftrightarrow> (\<exists>n. settled kops topic m n (producev kops k topic m) \<and>
     fst (attempts kops topic m n (producev kops k topic m)) = RD_KAFKA_RESP_ERR_NO_ERROR)"

text \<open>The messages out of a list that the producer takes, when they are produced one after the other.\<close>

fun taken :: "'k producer_ops \<Rightarrow> string \<Rightarrow> 'k \<Rightarrow> byte list list \<Rightarrow> byte list list" where
  "taken kops topic k [] = []"
| "taken kops topic k (m # ms) =
     (if takes kops topic m k then [m] else []) @
     (case produce_sample kops topic m k of None \<Rightarrow> [] | Some k' \<Rightarrow> taken kops topic k' ms)"

lemma settled_unique:
  "settled ops topic m n p \<Longrightarrow> settled ops topic m n' p \<Longrightarrow> n = n'"
  unfolding settled_def by (metis linorder_neqE_nat)

lemma takes_settled:
  "settled kops topic m n (producev kops k topic m) \<Longrightarrow>
   takes kops topic m k \<longleftrightarrow>
     fst (attempts kops topic m n (producev kops k topic m)) = RD_KAFKA_RESP_ERR_NO_ERROR"
  unfolding takes_def using settled_unique by metis

lemma settled_sent:
  assumes "producer_laws kops sent" and "settled kops topic payload n (err, k)"
  shows "sent (snd (attempts kops topic payload n (err, k))) =
         sent k @ (if err = RD_KAFKA_RESP_ERR__QUEUE_FULL \<and>
           fst (attempts kops topic payload n (err, k)) = RD_KAFKA_RESP_ERR_NO_ERROR
           then [(topic, payload)] else [])"
  using assms(2)
proof (induction n arbitrary: err k)
  case 0
  then show ?case by (simp add: settled_0)
next
  case (Suc n)
  obtain e k2 where p: "producev kops (rk_poll kops k 10) topic payload = (e, k2)"
    by (cases "producev kops (rk_poll kops k 10) topic payload")
  show ?case
  proof (cases "e = RD_KAFKA_RESP_ERR__QUEUE_FULL")
    case True
    with Suc p producer_produce [OF assms(1) p] show ?thesis
      by (simp add: settled_Suc producer_poll [OF assms(1)])
  next
    case False
    then have "n = 0" using Suc.prems p by (cases n) (auto simp: settled_Suc)
    with Suc.prems p producer_produce [OF assms(1) p] show ?thesis
      by (simp add: settled_Suc producer_poll [OF assms(1)])
  qed
qed

text \<open>The message of a sample is enqueued once if the producer takes it, and not at all otherwise.\<close>

lemma produce_sample_sent:
  assumes "producer_laws kops sent" and "produce_sample kops topic payload k = Some k'"
  shows "sent k' = sent k @ (if takes kops topic payload k then [(topic, payload)] else [])"
proof -
  obtain e k1 where p: "producev kops k topic payload = (e, k1)" by fastforce
  show ?thesis
  proof (cases "e = RD_KAFKA_RESP_ERR_NO_ERROR")
    case True
    then have "takes kops topic payload k"
      using takes_settled [of kops topic payload 0 k] by (simp add: p settled_0)
    with True p assms(2) producer_produce [OF assms(1) p] show ?thesis
      by (auto simp: produce_sample_def producer_poll [OF assms(1)])
  next
    case False
    with p assms(2) obtain k2 where k2: "produce_while_full kops topic payload e k1 = Some k2"
        and k': "k' = rk_poll kops k2 0"
      by (auto simp: produce_sample_def split: option.splits)
    obtain n where n: "settled kops topic payload n (e, k1)"
      using produce_while_full_Some [OF k2] ..
    have "e = RD_KAFKA_RESP_ERR__QUEUE_FULL"
      if "fst (attempts kops topic payload n (e, k1)) = RD_KAFKA_RESP_ERR_NO_ERROR"
      using n that False by (cases n) (auto simp: settled_Suc)
    then have "sent k2 = sent k1 @ (if takes kops topic payload k then [(topic, payload)] else [])"
      using settled_sent [OF assms(1) n] produce_while_full_settled [OF n] k2
        takes_settled [of kops topic payload n k] n by (auto simp: p)
    moreover have "sent k1 = sent k" and "sent k' = sent k2"
      using producer_produce [OF assms(1) p] False k' by (simp_all add: producer_poll [OF assms(1)])
    ultimately show ?thesis by simp
  qed
qed

text \<open>A producer that only refuses while its queue is full, and whose queue drains, takes everything.\<close>

lemma attempts_accepted:
  assumes "accepts kops"
    and "fst p \<in> {RD_KAFKA_RESP_ERR_NO_ERROR, RD_KAFKA_RESP_ERR__QUEUE_FULL}"
  shows "fst (attempts kops topic m n p) \<in> {RD_KAFKA_RESP_ERR_NO_ERROR, RD_KAFKA_RESP_ERR__QUEUE_FULL}"
  using assms(2)
proof (induction n arbitrary: p)
  case (Suc n)
  then show ?case using assms(1) unfolding accepts_def by simp
qed simp

lemma accepts_takes:
  assumes "accepts kops" and "produce_sample kops topic m k = Some k'"
  shows "takes kops topic m k"
proof -
  obtain e k1 where p: "producev kops k topic m = (e, k1)" by fastforce
  have e: "fst (e, k1) \<in> {RD_KAFKA_RESP_ERR_NO_ERROR, RD_KAFKA_RESP_ERR__QUEUE_FULL}"
    using assms(1) p unfolding accepts_def by metis
  have "\<exists>n. settled kops topic m n (e, k1)"
  proof (cases "e = RD_KAFKA_RESP_ERR__QUEUE_FULL")
    case True
    then obtain k2 where "produce_while_full kops topic m e k1 = Some k2"
      using assms(2) p by (auto simp: produce_sample_def split: option.splits)
    then show ?thesis by (rule produce_while_full_Some)
  next
    case False
    then have "settled kops topic m 0 (e, k1)" by (simp add: settled_0)
    then show ?thesis ..
  qed
  then obtain n where n: "settled kops topic m n (e, k1)" ..
  then show ?thesis
    using attempts_accepted [OF assms(1) e, of topic m n] takes_settled [of kops topic m n k]
    by (simp add: p settled_def)
qed

lemma produce_sample_returns:
  assumes "drains kops"
  shows "\<exists>k'. produce_sample kops topic payload k = Some k'"
proof -
  obtain e k1 where p: "producev kops k topic payload = (e, k1)" by fastforce
  then obtain k2 where "produce_while_full kops topic payload e k1 = Some k2"
    using assms produce_while_full_returns_iff unfolding drains_def by metis
  with p show ?thesis by (auto simp: produce_sample_def)
qed

section \<open>Payloads in memory\<close>

text \<open>
  The payload member of a sample can be read into any sequence that satisfies \<open>own\<close> (a
  sequence that owns its memory), which it keeps: its bytes are \<open>content d\<close>.
\<close>

definition payload_readable ::
  "('s, byte) seq_ops \<Rightarrow> ('s \<Rightarrow> bool) \<Rightarrow> ('s \<Rightarrow> byte list) \<Rightarrow> ('d, 's) member_ops \<Rightarrow>
   ('d \<Rightarrow> byte list) \<Rightarrow> 'd \<Rightarrow> bool" where
  "payload_readable ops own elems dd content d \<longleftrightarrow>
     (\<forall>t. own t \<longrightarrow> (\<exists>t' b. dd_get_seq dd d t ''payload.data'' = (DDS_RETCODE_OK, t') \<and>
        own t' \<and> elems t' = content d \<and> seq_buffer ops t' = Some b))"

lemma strlen_buffer:
  assumes "take (length xs) b = xs" and "0 \<in> set xs"
  shows "\<exists>n. strlen b = Inr n \<and> take n b = takeWhile (\<lambda>b. b \<noteq> 0) xs"
proof -
  obtain zs where b: "b = xs @ zs" using assms(1) by (metis append_take_drop_id)
  then obtain n where n: "strlen b = Inr n"
    using strlen_has_nul [of b] assms(2) by auto
  have "takeWhile (\<lambda>b. b \<noteq> 0) b = takeWhile (\<lambda>b. b \<noteq> 0) xs"
    using assms(2) takeWhile_append1 [of 0 xs "\<lambda>b. b \<noteq> 0" zs] by (simp add: b)
  with n strlen_take_no_nul show ?thesis by auto
qed

lemma strlen_buffer_no_nul:
  assumes "take (length xs) b = xs" and "0 \<notin> set xs" and "strlen b = Inr n"
  shows "take n b = xs @ takeWhile (\<lambda>b. b \<noteq> 0) (drop (length xs) b)"
proof -
  obtain zs where b: "b = xs @ zs" using assms(1) by (metis append_take_drop_id)
  then have "takeWhile (\<lambda>b. b \<noteq> 0) b = xs @ takeWhile (\<lambda>b. b \<noteq> 0) zs"
    using assms(2) takeWhile_append2 [of xs "\<lambda>b. b \<noteq> 0" zs] by metis
  then show ?thesis using strlen_take_no_nul [OF assms(3)] by (simp add: b)
qed

lemma write_samples_delivers:
  assumes "dds_seq ops valid elems cap" and "producer_laws kops sent" and "drains kops"
    and "\<And>t. own t \<Longrightarrow> valid t"
    and "\<forall>d \<in> set ds. payload_readable ops own elems dd content d \<and> 0 \<in> set (content d)"
    and "own s"
  shows "\<exists>k'. write_samples ops dd kops topic ds s k = Some (Inr k') \<and>
     sent k' = sent k @ map (Pair topic) (taken kops topic k (map (\<lambda>d. takeWhile (\<lambda>b. b \<noteq> 0) (content d)) ds))"
  using assms(5,6)
proof (induction ds arbitrary: s k)
  case Nil
  then show ?case by simp
next
  case (Cons d ds)
  obtain t b where t: "dd_get_seq dd d s ''payload.data'' = (DDS_RETCODE_OK, t)" "own t"
      "elems t = content d" "seq_buffer ops t = Some b"
    using Cons.prems by (auto simp: payload_readable_def)
  obtain n where n: "strlen b = Inr n" "take n b = takeWhile (\<lambda>b. b \<noteq> 0) (content d)"
    using strlen_buffer [of "content d" b] dds_seq.buffer_prefix [OF assms(1) assms(4) [OF t(2)] t(4)]
      t(3) Cons.prems(1)
    by auto
  obtain k1 where k1: "produce_sample kops topic (take n b) k = Some k1"
    using produce_sample_returns [OF assms(3)] by blast
  obtain k' where k': "write_samples ops dd kops topic ds t k1 = Some (Inr k')"
      "sent k' = sent k1 @ map (Pair topic) (taken kops topic k1 (map (\<lambda>d. takeWhile (\<lambda>b. b \<noteq> 0) (content d)) ds))"
    using Cons.IH [of t k1] Cons.prems(1) t(2) by auto
  show ?case
    using t n k1 k' produce_sample_sent [OF assms(2) k1] by simp
qed

lemma taken_subseq: "subseq (taken kops topic k ms) ms"
  by (induction ms arbitrary: k) (auto split: option.split)

lemma taken_all: "accepts kops \<Longrightarrow> drains kops \<Longrightarrow> taken kops topic k ms = ms"
proof (induction ms arbitrary: k)
  case (Cons m ms)
  obtain k1 where "produce_sample kops topic m k = Some k1"
    using produce_sample_returns [OF Cons.prems(2)] by blast
  with Cons accepts_takes [OF Cons.prems(1) this] show ?case by simp
qed simp

text \<open>
  A producer with room for \<open>c\<close> undelivered messages, to evaluate the model: a poll that
  may block delivers one of them.
\<close>

record bounded_queue =
  bq_sent :: "(string \<times> byte list) list"
  bq_pending :: nat

definition bounded_ops :: "nat \<Rightarrow> bounded_queue producer_ops" where
  "bounded_ops c = \<lparr>
     producev = (\<lambda>k t m. if bq_pending k < c
        then (RD_KAFKA_RESP_ERR_NO_ERROR,
              \<lparr>bq_sent = bq_sent k @ [(t, m)], bq_pending = Suc (bq_pending k)\<rparr>)
        else (RD_KAFKA_RESP_ERR__QUEUE_FULL, k)),
     rk_poll = (\<lambda>k n. if n = 0 then k else k\<lparr>bq_pending := bq_pending k - 1\<rparr>)\<rparr>"

lemma bounded_producer: "producer_laws (bounded_ops c) bq_sent" "accepts (bounded_ops c)"
  by (auto simp: producer_laws_def accepts_def bounded_ops_def split: if_splits)

lemma bounded_attempts:
  assumes "0 < c" and "bq_pending k < c + n"
  shows "\<exists>m. fst (attempts (bounded_ops c) t v m (producev (bounded_ops c) k t v))
           \<noteq> RD_KAFKA_RESP_ERR__QUEUE_FULL"
  using assms(2)
proof (induction n arbitrary: k)
  case 0
  then show ?case by (intro exI [of _ 0]) (simp add: bounded_ops_def)
next
  case (Suc n)
  let ?k = "k\<lparr>bq_pending := bq_pending k - 1\<rparr>"
  show ?case
  proof (cases "bq_pending k < c")
    case True
    then show ?thesis by (intro exI [of _ 0]) (simp add: bounded_ops_def)
  next
    case False
    then have "bq_pending ?k < c + n" using Suc.prems assms(1) by simp
    then obtain m where m: "fst (attempts (bounded_ops c) t v m (producev (bounded_ops c) ?k t v))
        \<noteq> RD_KAFKA_RESP_ERR__QUEUE_FULL"
      using Suc.IH by blast
    have "producev (bounded_ops c) k t v = (RD_KAFKA_RESP_ERR__QUEUE_FULL, k)"
      and "rk_poll (bounded_ops c) k 10 = ?k"
      using False by (simp_all add: bounded_ops_def)
    with m show ?thesis by (intro exI [of _ "Suc m"]) simp
  qed
qed

lemma bounded_drains: "0 < c \<Longrightarrow> drains (bounded_ops c)"
  unfolding drains_def using bounded_attempts by (meson less_add_Suc2 trans_less_add2)

text \<open>The same producer, which refuses messages that are longer than a limit.\<close>

definition limited_ops :: "nat \<Rightarrow> nat \<Rightarrow> bounded_queue producer_ops" where
  "limited_ops c limit = (bounded_ops c)\<lparr>producev := (\<lambda>k t m.
     if limit < length m then (RD_KAFKA_RESP_ERR_OTHER 10, k) else producev (bounded_ops c) k t m)\<rparr>"

lemma limited_producer: "producer_laws (limited_ops c limit) bq_sent"
  using bounded_producer(1) [of c] by (auto simp: producer_laws_def limited_ops_def split: if_splits)

lemma limited_produce:
  "producev (limited_ops c limit) k t m =
     (if limit < length m then (RD_KAFKA_RESP_ERR_OTHER 10, k) else producev (bounded_ops c) k t m)"
  "rk_poll (limited_ops c limit) = rk_poll (bounded_ops c)"
  by (simp_all add: limited_ops_def)

lemma limited_attempts:
  "length m \<le> limit \<Longrightarrow> attempts (limited_ops c limit) t m n p = attempts (bounded_ops c) t m n p"
  by (induction n arbitrary: p) (simp_all add: limited_produce)

lemma limited_drains: "0 < c \<Longrightarrow> drains (limited_ops c limit)"
  unfolding drains_def
proof (intro allI)
  fix k t m
  assume "0 < c"
  show "\<exists>n. fst (attempts (limited_ops c limit) t m n (producev (limited_ops c limit) k t m))
      \<noteq> RD_KAFKA_RESP_ERR__QUEUE_FULL"
  proof (cases "limit < length m")
    case True
    then show ?thesis by (intro exI [of _ 0]) (simp add: limited_produce)
  next
    case False
    then show ?thesis
      using bounded_drains [OF \<open>0 < c\<close>] by (simp add: limited_produce limited_attempts drains_def)
  qed
qed

section \<open>Properties\<close>

text \<open>
  C1. A write of samples whose payloads can be read and are C strings (contain a nul), to a producer
  whose queue drains under polling, ends and returns the number of samples. The messages it
  enqueues are, in the order of the samples, the payloads up to their first nul, one for each
  message that the producer takes: a message that it refuses for another reason than a full queue
  is dropped, although its sample is counted. None is dropped if a full queue is the only reason.
\<close>

theorem write_delivers_c_strings:
  assumes "dds_seq ops valid elems cap" and "producer_laws kops sent" and "drains kops"
    and "\<And>t. own t \<Longrightarrow> valid t"
    and "\<forall>d \<in> set ds. payload_readable ops own elems dd content d \<and> 0 \<in> set (content d)"
    and "own init_seq" and "sw_rk self = Some k" and "sw_topic self = Some topic"
    and "strings = map (\<lambda>d. takeWhile (\<lambda>b. b \<noteq> 0) (content d)) ds"
  shows "\<exists>k'. RTI_RS_KafkaStreamWriter_write ops init_seq dd kops self ds =
      Some (Inr (int (length ds), self\<lparr>sw_rk := Some k'\<rparr>))
    \<and> sent k' = sent k @ map (Pair topic) (taken kops topic k strings)
    \<and> subseq (taken kops topic k strings) strings
    \<and> (accepts kops \<longrightarrow> taken kops topic k strings = strings)"
  using write_samples_delivers [OF assms(1-6), of topic k] assms(7-9)
    taken_subseq [of kops topic k strings] taken_all [OF _ assms(3), of topic k strings]
  by (auto simp: RTI_RS_KafkaStreamWriter_write_def)

definition owned_lseq :: "byte lseq \<Rightarrow> bool" where
  "owned_lseq s \<longleftrightarrow> lseq_wf s \<and> \<not> l_loaned s"

definition payload_of :: "(string \<rightharpoonup> byte list) \<Rightarrow> byte list" where
  "payload_of d = (case d ''payload.data'' of None \<Rightarrow> [] | Some xs \<Rightarrow> xs)"

lemma map_payload_readable:
  assumes "d ''payload.data'' = Some xs" and "xs \<noteq> []" and "length xs < 2 ^ 31"
  shows "payload_readable (lseq_ops 0) owned_lseq lseq_elems map_member_ops payload_of d"
  using assms
  by (auto simp: payload_readable_def payload_of_def map_member_ops_def lseq_assign_def
      owned_lseq_def lseq_wf_def lseq_elems_def lseq_ops_def Let_def)

text \<open>
  The queue has no room at first; the first message is longer than the limit and dropped, the
  second one is sent after a poll.
\<close>

theorem write_delivers_c_strings_witness:
  "\<exists>k'. RTI_RS_KafkaStreamWriter_write (lseq_ops 0) empty_lseq map_member_ops (limited_ops 1 1)
      \<lparr>sw_addr = 0, sw_rk = Some \<lparr>bq_sent = [], bq_pending = 1\<rparr>, sw_topic = Some ''t''\<rparr>
      [[''payload.data'' \<mapsto> [1, 2, 0]], [''payload.data'' \<mapsto> [3, 0, 4]]] =
      Some (Inr (2, \<lparr>sw_addr = 0, sw_rk = Some k', sw_topic = Some ''t''\<rparr>)) \<and>
     bq_sent k' = [(''t'', [3])]"
proof -
  let ?self = "\<lparr>sw_addr = 0, sw_rk = Some \<lparr>bq_sent = [], bq_pending = 1\<rparr>, sw_topic = Some ''t''\<rparr>"
  let ?ds = "[[''payload.data'' \<mapsto> [1, 2, 0]], [''payload.data'' \<mapsto> [3, 0, 4]]] :: (string \<rightharpoonup> byte list) list"
  have r: "\<forall>d \<in> set ?ds. payload_readable (lseq_ops 0) owned_lseq lseq_elems map_member_ops payload_of d
      \<and> 0 \<in> set (payload_of d)"
    using map_payload_readable by (simp add: payload_of_def)
  have o: "owned_lseq empty_lseq" and v: "owned_lseq t \<Longrightarrow> lseq_wf t" for t
    by (auto simp: owned_lseq_def lseq_wf_def empty_lseq_def)
  let ?k = "\<lparr>bq_sent = [], bq_pending = 1\<rparr>"
  have no: "\<not> takes (limited_ops 1 1) ''t'' [1, 2] ?k"
    using takes_settled [of "limited_ops 1 1" "''t''" "[1, 2]" 0 ?k] by (simp add: limited_produce settled_0)
  have yes: "takes (limited_ops 1 1) ''t'' [3] ?k"
    using takes_settled [of "limited_ops 1 1" "''t''" "[3]" 1 ?k]
    by (simp add: limited_produce settled_Suc settled_0 bounded_ops_def)
  have drop: "produce_sample (limited_ops 1 1) ''t'' [1, 2] ?k = Some ?k"
    by (subst produce_sample_def) (subst produce_while_full.simps, simp add: limited_produce bounded_ops_def)
  have "taken (limited_ops 1 1) ''t'' ?k [[1, 2], [3]] = [[3]]"
    using no yes drop by (simp split: option.split)
  then show ?thesis
    using write_delivers_c_strings [OF lseq.dds_seq_axioms limited_producer limited_drains
        [of 1 1, simplified] v r o, of ?self ?k "''t''" "[[1, 2], [3]]"]
    by (auto simp: payload_of_def simp del: taken.simps)
qed

text \<open>
  C39. A payload without a nul byte, as a serialized Protobuf message may be, is not written
  as it is: if the memory behind it has no nul either, the write reads past the end of the
  buffer, and otherwise the message carries the bytes that follow the payload in memory.
\<close>

theorem write_payload_without_nul:
  assumes "dds_seq ops valid elems cap" and "valid t"
    and "dd_get_seq dd d s ''payload.data'' = (DDS_RETCODE_OK, t)"
    and "seq_buffer ops t = Some b" and "0 \<notin> set (elems t)"
  shows "(0 \<notin> set b \<longrightarrow>
      write_samples ops dd kops topic (d # ds) s k = Some (Inl Out_Of_Bounds))
    \<and> (0 \<in> set b \<longrightarrow>
      write_samples ops dd kops topic (d # ds) s k =
        (case produce_sample kops topic
           (elems t @ takeWhile (\<lambda>x. x \<noteq> 0) (drop (length (elems t)) b)) k of
           None \<Rightarrow> None
         | Some k' \<Rightarrow> write_samples ops dd kops topic ds t k'))"
proof (intro conjI impI)
  have p: "take (length (elems t)) b = elems t"
    using dds_seq.buffer_prefix [OF assms(1,2,4)] .
  show "write_samples ops dd kops topic (d # ds) s k = Some (Inl Out_Of_Bounds)" if "0 \<notin> set b"
  proof -
    have "strlen b = Inl Out_Of_Bounds" using that by (simp add: strlen_no_nul)
    with assms(3,4) show ?thesis by simp
  qed
  show "write_samples ops dd kops topic (d # ds) s k =
        (case produce_sample kops topic
           (elems t @ takeWhile (\<lambda>x. x \<noteq> 0) (drop (length (elems t)) b)) k of
           None \<Rightarrow> None
         | Some k' \<Rightarrow> write_samples ops dd kops topic ds t k')" if "0 \<in> set b"
  proof -
    obtain n where n: "strlen b = Inr n"
      using \<open>0 \<in> set b\<close> strlen_has_nul by blast
    with assms(3,4) strlen_buffer_no_nul [OF p assms(5) n] show ?thesis by simp
  qed
qed

text \<open>
  The second sample, of two bytes, goes out with three bytes of the first one.
\<close>

theorem write_payload_without_nul_witness:
  "write_samples (lseq_ops 0) map_member_ops (bounded_ops 5) ''t''
     [[''payload.data'' \<mapsto> [1, 2, 3, 4, 5, 0]], [''payload.data'' \<mapsto> [8, 9]]] empty_lseq
     \<lparr>bq_sent = [], bq_pending = 0\<rparr> =
   Some (Inr \<lparr>bq_sent = [(''t'', [1, 2, 3, 4, 5]), (''t'', [8, 9, 3, 4, 5])], bq_pending = 2\<rparr>) \<and>
   write_samples (lseq_ops 0) map_member_ops (bounded_ops 5) ''t''
     [[''payload.data'' \<mapsto> [8, 9]]] empty_lseq \<lparr>bq_sent = [], bq_pending = 0\<rparr> =
   Some (Inl Out_Of_Bounds)"
proof -
  let ?s = "\<lparr>l_mem = [1, 2, 3, 4, 5, 0], l_len = 6, l_loaned = False\<rparr> :: byte lseq"
  let ?t = "\<lparr>l_mem = [8, 9, 3, 4, 5, 0], l_len = 2, l_loaned = False\<rparr> :: byte lseq"
  let ?u = "\<lparr>l_mem = [8, 9], l_len = 2, l_loaned = False\<rparr> :: byte lseq"
  have v: "lseq_wf ?t" "lseq_wf ?u" by (simp_all add: lseq_wf_def)
  have g: "dd_get_seq map_member_ops [''payload.data'' \<mapsto> [8, 9]] ?s ''payload.data'' = (DDS_RETCODE_OK, ?t)"
    "dd_get_seq map_member_ops [''payload.data'' \<mapsto> [8, 9]] empty_lseq ''payload.data'' = (DDS_RETCODE_OK, ?u)"
    "dd_get_seq map_member_ops [''payload.data'' \<mapsto> [1, 2, 3, 4, 5, 0]] empty_lseq ''payload.data''
       = (DDS_RETCODE_OK, ?s)"
    by (simp_all add: map_member_ops_def lseq_assign_def empty_lseq_def)
  have b: "seq_buffer (lseq_ops 0) ?t = Some [8, 9, 3, 4, 5, 0]" "seq_buffer (lseq_ops 0) ?u = Some [8, 9]"
    "seq_buffer (lseq_ops 0) ?s = Some [1, 2, 3, 4, 5, 0]"
    by (simp_all add: lseq_ops_def)
  note w = write_payload_without_nul [OF lseq.dds_seq_axioms v(1) g(1) b(1), THEN conjunct2, rule_format]
  note w' = write_payload_without_nul [OF lseq.dds_seq_axioms v(2) g(2) b(2), THEN conjunct1, rule_format]
  have p: "produce_sample (bounded_ops 5) ''t'' m \<lparr>bq_sent = xs, bq_pending = n\<rparr> =
      Some \<lparr>bq_sent = xs @ [(''t'', m)], bq_pending = Suc n\<rparr>" if "n < 5" for m n xs
    using that by (simp add: produce_sample_def bounded_ops_def)
  have "write_samples (lseq_ops 0) map_member_ops (bounded_ops 5) ''t''
     [[''payload.data'' \<mapsto> [8, 9]]] empty_lseq \<lparr>bq_sent = [], bq_pending = 0\<rparr> =
     Some (Inl Out_Of_Bounds)"
    by (rule w') (simp_all add: lseq_elems_def)
  moreover have "write_samples (lseq_ops 0) map_member_ops (bounded_ops 5) ''t''
     [[''payload.data'' \<mapsto> [8, 9]]] ?s \<lparr>bq_sent = [(''t'', [1, 2, 3, 4, 5])], bq_pending = 1\<rparr> =
     Some (Inr \<lparr>bq_sent = [(''t'', [1, 2, 3, 4, 5]), (''t'', [8, 9, 3, 4, 5])], bq_pending = 2\<rparr>)"
    by (subst w) (simp_all add: lseq_elems_def p)
  ultimately show ?thesis
    using g(3) b(3) by (simp add: p del: write_samples.simps(2)) (simp add: p)
qed

text \<open>
  C23. Producing a message ends if and only if some attempt finds the queue not full: with a
  queue that stays full the write blocks for ever.
\<close>

theorem produce_sample_ends_iff:
  "(\<exists>k'. produce_sample kops topic payload k = Some k') \<longleftrightarrow>
   (\<exists>n. fst (attempts kops topic payload n (producev kops k topic payload))
      \<noteq> RD_KAFKA_RESP_ERR__QUEUE_FULL)"
proof -
  obtain e k1 where p: "producev kops k topic payload = (e, k1)" by fastforce
  show ?thesis
    using produce_while_full_returns_iff [of kops topic payload e k1]
    by (auto simp: produce_sample_def p settled_def split: option.splits
        intro: exI [of _ "0 :: nat"])
qed

end
