(* ===== verification/Kafka_Reader.thy ===== *)
theory Kafka_Reader
  imports Prelude "HOL-Library.Sublist"
begin

text \<open>
  The stream reader of the Kafka adapter, \<^verbatim>\<open>plugins/adapters/kafka/srcC/KafkaStreamReader.c\<close>:
  a polling thread takes messages from the consumer and hands them, one at a time, to the
  Routing Service thread that calls \<open>read\<close> and \<open>return_loan\<close>. The two threads share the
  reader object and synchronise on two binary semaphores, so the model is a transition
  system: one program counter per thread, one rule per statement that touches shared state,
  and the results of the library calls (consumer, sequence, semaphores, DynamicData) chosen
  by the environment. A rule that needs a library call to fail has the premise
  \<open>failures\<close>; with \<open>failures = False\<close> only the consumer may report errors.
\<close>

section \<open>State\<close>

datatype kafka_message =
    Consumer_Error
  | Proper_Message "byte list"

text \<open>Where the polling thread is in \<open>RTI_RS_KafkaStreamReader_on_data_availabe_thread\<close>.\<close>

datatype poll_pc =
    P_While
  | P_Take
  | P_Poll
  | P_Give_Poll
  | P_Initialize
  | P_Loan
  | P_Notify
  | P_Give_Read
  | P_Cleanup_Destroy
  | P_Cleanup_Give
  | P_Done

text \<open>
  Where the Routing Service thread is: outside the reader, in \<open>read\<close> (\<open>R_Take\<close>, \<open>R_Set\<close>),
  back from \<open>read\<close> with one sample or with none, or in \<open>return_loan\<close>.
\<close>

datatype read_pc =
    R_Idle
  | R_Take
  | R_Set
  | R_Loaned
  | R_Failed
  | R_Destroy
  | R_Give

text \<open>
  The fields of \<open>struct RTI_RS_KafkaStreamReader\<close> the threads share (\<open>payload\<close> is the
  message whose bytes the octet sequence has on loan, \<open>None\<close> an empty sequence), the
  messages that librdkafka has handed out and not got back, the first violation of memory
  safety, and two histories: the payloads of the messages polled, and those copied into the
  sample by \<open>read\<close>.
\<close>

record reader =
  run_thread :: bool
  poll_sem :: bool
  read_sem :: bool
  rkm :: "addr option"
  payload :: "addr option"
  poll_at :: poll_pc
  read_at :: read_pc
  messages :: "addr \<rightharpoonup> kafka_message"
  next_message :: addr
  violation :: "fault option"
  polled :: "byte list list"
  delivered :: "byte list list"

text \<open>The reader as \<open>create_stream_reader\<close> leaves it: \<open>poll_sem\<close> given once.\<close>

definition init_reader :: reader where
  "init_reader = \<lparr>run_thread = True, poll_sem = True, read_sem = False, rkm = None,
     payload = None, poll_at = P_While, read_at = R_Idle, messages = Map.empty,
     next_message = 0, violation = None, polled = [], delivered = []\<rparr>"

section \<open>Operations\<close>

text \<open>\<open>rd_kafka_message_destroy\<close> on the current message, when there is one.\<close>

definition destroy_rkm :: "reader \<Rightarrow> reader" where
  "destroy_rkm s =
     (case rkm s of
        None \<Rightarrow> s
      | Some m \<Rightarrow>
          (case messages s m of
             None \<Rightarrow> s\<lparr>violation := Some Double_Free\<rparr>
           | Some _ \<Rightarrow> s\<lparr>messages := (messages s)(m := None)\<rparr>))"

text \<open>
  \<open>error_cleanup\<close> destroys the message and gives the poll semaphore; it returns 0 when that
  worked and -1 otherwise.
\<close>

definition RTI_RS_KafkaStreamReader_error_cleanup :: "bool \<Rightarrow> reader \<Rightarrow> int \<times> reader" where
  "RTI_RS_KafkaStreamReader_error_cleanup give_ok s =
     (if give_ok then (0, (destroy_rkm s)\<lparr>poll_sem := True\<rparr>) else (-1, destroy_rkm s))"

text \<open>The test the thread makes of its result: \<open>if (!error_cleanup(self)) return NULL;\<close>\<close>

definition after_cleanup :: "int \<Rightarrow> poll_pc" where
  "after_cleanup rc = (if rc = 0 then P_Done else P_While)"

text \<open>
  Copying the payload into the sample reads the bytes of the loaned message: it is a use
  after free when the message has been destroyed.
\<close>

definition copy_payload :: "reader \<Rightarrow> reader" where
  "copy_payload s =
     (case payload s of
        None \<Rightarrow> s\<lparr>delivered := delivered s @ [[]]\<rparr>
      | Some m \<Rightarrow>
          (case messages s m of
             Some (Proper_Message bytes) \<Rightarrow> s\<lparr>delivered := delivered s @ [bytes]\<rparr>
           | Some Consumer_Error \<Rightarrow> s\<lparr>delivered := delivered s @ [[]]\<rparr>
           | None \<Rightarrow> s\<lparr>violation := Some Use_After_Free\<rparr>))"

definition receive :: "kafka_message \<Rightarrow> reader \<Rightarrow> reader" where
  "receive m s = s\<lparr>rkm := Some (next_message s),
     messages := (messages s)(next_message s \<mapsto> m), next_message := Suc (next_message s)\<rparr>"

inductive RTI_RS_KafkaStreamReader_on_data_availabe_thread ::
  "bool \<Rightarrow> reader \<Rightarrow> reader \<Rightarrow> bool" for failures where
  while_run: "poll_at s = P_While \<Longrightarrow> run_thread s \<Longrightarrow>
    RTI_RS_KafkaStreamReader_on_data_availabe_thread failures s (s\<lparr>poll_at := P_Take\<rparr>)"
| while_stop: "poll_at s = P_While \<Longrightarrow> \<not> run_thread s \<Longrightarrow>
    RTI_RS_KafkaStreamReader_on_data_availabe_thread failures s (s\<lparr>poll_at := P_Done\<rparr>)"
| take_poll: "poll_at s = P_Take \<Longrightarrow> poll_sem s \<Longrightarrow>
    RTI_RS_KafkaStreamReader_on_data_availabe_thread failures s (s\<lparr>poll_sem := False, poll_at := P_Poll\<rparr>)"
| take_poll_error: "failures \<Longrightarrow> poll_at s = P_Take \<Longrightarrow>
    RTI_RS_KafkaStreamReader_on_data_availabe_thread failures s (s\<lparr>poll_at := P_Done\<rparr>)"
| poll_timeout: "poll_at s = P_Poll \<Longrightarrow>
    RTI_RS_KafkaStreamReader_on_data_availabe_thread failures s (s\<lparr>rkm := None, poll_at := P_Give_Poll\<rparr>)"
| give_poll: "poll_at s = P_Give_Poll \<Longrightarrow>
    RTI_RS_KafkaStreamReader_on_data_availabe_thread failures s (s\<lparr>poll_sem := True, poll_at := P_While\<rparr>)"
| give_poll_error: "failures \<Longrightarrow> poll_at s = P_Give_Poll \<Longrightarrow>
    RTI_RS_KafkaStreamReader_on_data_availabe_thread failures s (s\<lparr>poll_at := P_Done\<rparr>)"
| poll_consumer_error: "poll_at s = P_Poll \<Longrightarrow>
    RTI_RS_KafkaStreamReader_on_data_availabe_thread failures s
      ((receive Consumer_Error s)\<lparr>poll_at := P_Cleanup_Destroy\<rparr>)"
| poll_message: "poll_at s = P_Poll \<Longrightarrow>
    RTI_RS_KafkaStreamReader_on_data_availabe_thread failures s
      ((receive (Proper_Message bytes) s)\<lparr>polled := polled s @ [bytes], poll_at := P_Initialize\<rparr>)"
| initialize: "poll_at s = P_Initialize \<Longrightarrow>
    RTI_RS_KafkaStreamReader_on_data_availabe_thread failures s (s\<lparr>payload := None, poll_at := P_Loan\<rparr>)"
| initialize_error: "failures \<Longrightarrow> poll_at s = P_Initialize \<Longrightarrow>
    RTI_RS_KafkaStreamReader_on_data_availabe_thread failures s (s\<lparr>poll_at := P_Cleanup_Destroy\<rparr>)"
| loan: "poll_at s = P_Loan \<Longrightarrow>
    RTI_RS_KafkaStreamReader_on_data_availabe_thread failures s (s\<lparr>payload := rkm s, poll_at := P_Notify\<rparr>)"
| loan_error: "failures \<Longrightarrow> poll_at s = P_Loan \<Longrightarrow>
    RTI_RS_KafkaStreamReader_on_data_availabe_thread failures s (s\<lparr>poll_at := P_Cleanup_Destroy\<rparr>)"
| notify: "poll_at s = P_Notify \<Longrightarrow>
    RTI_RS_KafkaStreamReader_on_data_availabe_thread failures s (s\<lparr>poll_at := P_Give_Read\<rparr>)"
| give_read: "poll_at s = P_Give_Read \<Longrightarrow>
    RTI_RS_KafkaStreamReader_on_data_availabe_thread failures s (s\<lparr>read_sem := True, poll_at := P_While\<rparr>)"
| give_read_error: "failures \<Longrightarrow> poll_at s = P_Give_Read \<Longrightarrow>
    RTI_RS_KafkaStreamReader_on_data_availabe_thread failures s (s\<lparr>poll_at := P_Done\<rparr>)"
| cleanup_destroy: "poll_at s = P_Cleanup_Destroy \<Longrightarrow>
    RTI_RS_KafkaStreamReader_on_data_availabe_thread failures s ((destroy_rkm s)\<lparr>poll_at := P_Cleanup_Give\<rparr>)"
| cleanup_give: "poll_at s = P_Cleanup_Give \<Longrightarrow>
    RTI_RS_KafkaStreamReader_on_data_availabe_thread failures s
      (s\<lparr>poll_sem := True, poll_at := after_cleanup 0\<rparr>)"
| cleanup_give_error: "failures \<Longrightarrow> poll_at s = P_Cleanup_Give \<Longrightarrow>
    RTI_RS_KafkaStreamReader_on_data_availabe_thread failures s (s\<lparr>poll_at := after_cleanup (-1)\<rparr>)"

text \<open>
  Routing Service calls \<open>read\<close> when it is idle and the reader is not being deleted.
\<close>

inductive RTI_RS_KafkaStreamReader_read :: "bool \<Rightarrow> reader \<Rightarrow> reader \<Rightarrow> bool" for failures where
  call_read: "read_at s = R_Idle \<Longrightarrow> run_thread s \<Longrightarrow>
    RTI_RS_KafkaStreamReader_read failures s (s\<lparr>read_at := R_Take\<rparr>)"
| take_read: "read_at s = R_Take \<Longrightarrow> read_sem s \<Longrightarrow>
    RTI_RS_KafkaStreamReader_read failures s (s\<lparr>read_sem := False, read_at := R_Set\<rparr>)"
| take_read_error: "failures \<Longrightarrow> read_at s = R_Take \<Longrightarrow>
    RTI_RS_KafkaStreamReader_read failures s (s\<lparr>read_at := R_Idle\<rparr>)"
| set_payload: "read_at s = R_Set \<Longrightarrow>
    RTI_RS_KafkaStreamReader_read failures s ((copy_payload s)\<lparr>read_at := R_Loaned\<rparr>)"
| set_payload_error: "failures \<Longrightarrow> read_at s = R_Set \<Longrightarrow>
    RTI_RS_KafkaStreamReader_read failures s (s\<lparr>read_at := R_Failed\<rparr>)"

text \<open>
  A sample that was read is returned. After a \<open>read\<close> that reported no sample there is no
  loan to return; the model also allows the service to call \<open>return_loan\<close> then.
\<close>

inductive RTI_RS_KafkaStreamReader_return_loan :: "bool \<Rightarrow> reader \<Rightarrow> reader \<Rightarrow> bool" for failures where
  call_return_loan: "read_at s \<in> {R_Loaned, R_Failed} \<Longrightarrow>
    RTI_RS_KafkaStreamReader_return_loan failures s (s\<lparr>read_at := R_Destroy\<rparr>)"
| no_loan: "read_at s = R_Failed \<Longrightarrow>
    RTI_RS_KafkaStreamReader_return_loan failures s (s\<lparr>read_at := R_Idle\<rparr>)"
| return_destroy: "read_at s = R_Destroy \<Longrightarrow>
    RTI_RS_KafkaStreamReader_return_loan failures s ((destroy_rkm s)\<lparr>read_at := R_Give\<rparr>)"
| return_give: "read_at s = R_Give \<Longrightarrow>
    RTI_RS_KafkaStreamReader_return_loan failures s (s\<lparr>poll_sem := True, read_at := R_Idle\<rparr>)"
| return_give_error: "failures \<Longrightarrow> read_at s = R_Give \<Longrightarrow>
    RTI_RS_KafkaStreamReader_return_loan failures s (s\<lparr>read_at := R_Idle\<rparr>)"

text \<open>
  The deletion of the reader starts by clearing \<open>run_thread\<close>, when no read is in progress,
  and then joins the polling thread (line 560 of \<^verbatim>\<open>KafkaConnection.c\<close>).
\<close>

inductive reader_step :: "bool \<Rightarrow> reader \<Rightarrow> reader \<Rightarrow> bool" for failures where
  poll: "RTI_RS_KafkaStreamReader_on_data_availabe_thread failures s t \<Longrightarrow> reader_step failures s t"
| read: "RTI_RS_KafkaStreamReader_read failures s t \<Longrightarrow> reader_step failures s t"
| return_loan: "RTI_RS_KafkaStreamReader_return_loan failures s t \<Longrightarrow> reader_step failures s t"
| request_stop: "read_at s = R_Idle \<Longrightarrow> reader_step failures s (s\<lparr>run_thread := False\<rparr>)"

inductive reader_run :: "bool \<Rightarrow> reader \<Rightarrow> reader \<Rightarrow> bool" for failures where
  run_refl: "reader_run failures s s"
| run_step: "reader_run failures s t \<Longrightarrow> reader_step failures t u \<Longrightarrow> reader_run failures s u"

abbreviation reachable_reader :: "bool \<Rightarrow> reader \<Rightarrow> bool" where
  "reachable_reader failures s \<equiv> reader_run failures init_reader s"

lemmas reader_cases =
  RTI_RS_KafkaStreamReader_on_data_availabe_thread.cases
  RTI_RS_KafkaStreamReader_read.cases
  RTI_RS_KafkaStreamReader_return_loan.cases
  reader_step.cases

section \<open>The token invariant\<close>

text \<open>
  The two semaphores pass one token between the threads: whoever holds it, or the semaphore
  it waits in, owns \<open>rkm\<close> and \<open>payload\<close>.
\<close>

fun poll_owns :: "poll_pc \<Rightarrow> bool" where
  "poll_owns P_While = False"
| "poll_owns P_Take = False"
| "poll_owns P_Done = False"
| "poll_owns _ = True"

fun read_owns :: "read_pc \<Rightarrow> bool" where
  "read_owns R_Idle = False"
| "read_owns R_Take = False"
| "read_owns _ = True"

definition tokens :: "reader \<Rightarrow> nat" where
  "tokens s = of_bool (poll_sem s) + of_bool (read_sem s)
     + of_bool (poll_owns (poll_at s)) + of_bool (read_owns (read_at s))"

text \<open>
  The places where the message in \<open>rkm\<close> has been received and not destroyed; those where
  it is a proper message still to be delivered; those where its bytes are on loan.
\<close>

fun poll_holds :: "poll_pc \<Rightarrow> bool" where
  "poll_holds P_Poll = False"
| "poll_holds P_Give_Poll = False"
| "poll_holds P_Cleanup_Give = False"
| "poll_holds p = poll_owns p"

fun poll_transit :: "poll_pc \<Rightarrow> bool" where
  "poll_transit P_Cleanup_Destroy = False"
| "poll_transit p = poll_holds p"

fun poll_loan :: "poll_pc \<Rightarrow> bool" where
  "poll_loan P_Initialize = False"
| "poll_loan P_Loan = False"
| "poll_loan p = poll_transit p"

fun read_holds :: "read_pc \<Rightarrow> bool" where
  "read_holds R_Give = False"
| "read_holds r = read_owns r"

definition holds_message :: "reader \<Rightarrow> bool" where
  "holds_message s \<longleftrightarrow> poll_holds (poll_at s) \<or> read_sem s \<or> read_holds (read_at s)"

definition in_transit :: "reader \<Rightarrow> bool" where
  "in_transit s \<longleftrightarrow> poll_transit (poll_at s) \<or> read_sem s \<or> read_at s = R_Set"

definition on_loan :: "reader \<Rightarrow> bool" where
  "on_loan s \<longleftrightarrow> poll_loan (poll_at s) \<or> read_sem s \<or> read_at s = R_Set"

lemma places [simp]:
  "\<not> poll_owns p \<Longrightarrow> \<not> poll_holds p" "\<not> poll_owns p \<Longrightarrow> \<not> poll_transit p"
  "\<not> poll_owns p \<Longrightarrow> \<not> poll_loan p" "\<not> read_owns r \<Longrightarrow> \<not> read_holds r"
  "\<not> read_owns r \<Longrightarrow> r \<noteq> R_Set"
  by ((cases p; simp), (cases p; simp), (cases p; simp), (cases r; simp), (cases r; simp))

definition current :: "reader \<Rightarrow> kafka_message option" where
  "current s = (case rkm s of None \<Rightarrow> None | Some m \<Rightarrow> messages s m)"

definition in_flight :: "reader \<Rightarrow> byte list list" where
  "in_flight s =
     (if in_transit s then (case current s of Some (Proper_Message b) \<Rightarrow> [b] | _ \<Rightarrow> []) else [])"

definition message_inv :: "reader \<Rightarrow> bool" where
  "message_inv s \<longleftrightarrow>
     (holds_message s \<longrightarrow> current s \<noteq> None)
     \<and> (in_transit s \<longrightarrow> (\<exists>b. current s = Some (Proper_Message b)))
     \<and> (on_loan s \<longrightarrow> payload s = rkm s)"

definition history_inv :: "bool \<Rightarrow> reader \<Rightarrow> bool" where
  "history_inv f s \<longleftrightarrow>
     (if f then subseq (delivered s @ in_flight s) (polled s)
      else polled s = delivered s @ in_flight s)"

definition reader_inv :: "bool \<Rightarrow> reader \<Rightarrow> bool" where
  "reader_inv f s \<longleftrightarrow> tokens s \<le> 1 \<and> violation s = None \<and> message_inv s \<and> history_inv f s"

lemmas place_defs = holds_message_def in_transit_def on_loan_def
lemmas reader_op_defs = destroy_rkm_def copy_payload_def receive_def after_cleanup_def

lemma destroy_rkm_frame [simp]:
  "run_thread (destroy_rkm s) = run_thread s" "poll_sem (destroy_rkm s) = poll_sem s"
  "read_sem (destroy_rkm s) = read_sem s" "rkm (destroy_rkm s) = rkm s"
  "payload (destroy_rkm s) = payload s" "poll_at (destroy_rkm s) = poll_at s"
  "read_at (destroy_rkm s) = read_at s" "polled (destroy_rkm s) = polled s"
  "delivered (destroy_rkm s) = delivered s"
  by (simp_all add: destroy_rkm_def split: option.split)

lemma destroy_rkm_safe [simp]: "current s \<noteq> None \<Longrightarrow> violation (destroy_rkm s) = violation s"
  by (auto simp: destroy_rkm_def current_def split: option.splits)

lemma copy_payload_frame [simp]:
  "run_thread (copy_payload s) = run_thread s" "poll_sem (copy_payload s) = poll_sem s"
  "read_sem (copy_payload s) = read_sem s" "rkm (copy_payload s) = rkm s"
  "payload (copy_payload s) = payload s" "poll_at (copy_payload s) = poll_at s"
  "read_at (copy_payload s) = read_at s" "polled (copy_payload s) = polled s"
  "messages (copy_payload s) = messages s"
  by (simp_all add: copy_payload_def split: option.split kafka_message.split)

lemma copy_payload_current:
  assumes "payload s = rkm s" and "current s = Some (Proper_Message b)"
  shows "copy_payload s = s\<lparr>delivered := delivered s @ [b]\<rparr>"
  using assms by (auto simp: copy_payload_def current_def split: option.splits)

lemma receive_frame [simp]:
  "run_thread (receive m s) = run_thread s" "poll_sem (receive m s) = poll_sem s"
  "read_sem (receive m s) = read_sem s" "current (receive m s) = Some m"
  "payload (receive m s) = payload s" "poll_at (receive m s) = poll_at s"
  "read_at (receive m s) = read_at s" "polled (receive m s) = polled s"
  "delivered (receive m s) = delivered s" "violation (receive m s) = violation s"
  by (simp_all add: receive_def current_def)

lemma tokens_exclusive:
  assumes "tokens s \<le> 1"
  shows "poll_owns (poll_at s) \<Longrightarrow> \<not> poll_sem s \<and> \<not> read_sem s \<and> \<not> read_owns (read_at s)"
    and "read_owns (read_at s) \<Longrightarrow> \<not> poll_sem s \<and> \<not> read_sem s \<and> \<not> poll_owns (poll_at s)"
    and "read_sem s \<Longrightarrow> \<not> poll_sem s \<and> \<not> poll_owns (poll_at s) \<and> \<not> read_owns (read_at s)"
    and "poll_sem s \<Longrightarrow> \<not> read_sem s \<and> \<not> poll_owns (poll_at s) \<and> \<not> read_owns (read_at s)"
  using assms by (auto simp: tokens_def split: if_splits)

lemma subseq_snoc: "subseq xs ys \<Longrightarrow> subseq (xs @ [z]) (ys @ [z])"
  by simp

lemma subseq_drop_last: "subseq (xs @ ys) zs \<Longrightarrow> subseq xs zs"
  by (meson prefixI prefix_imp_subseq subseq_order.order_trans)

lemma init_reader_inv: "reader_inv f init_reader"
  by (simp add: reader_inv_def message_inv_def history_inv_def tokens_def place_defs in_flight_def
      init_reader_def)

text \<open>No step creates a second token.\<close>

lemma reader_step_tokens:
  assumes "reader_step f s t"
  shows "tokens t \<le> tokens s"
  using assms
proof cases
  case poll
  then show ?thesis
    by cases (simp_all add: tokens_def after_cleanup_def)
next
  case read
  then show ?thesis
    by cases (simp_all add: tokens_def)
next
  case return_loan
  then show ?thesis
    by cases (auto simp add: tokens_def)
next
  case request_stop
  then show ?thesis by (simp add: tokens_def)
qed

lemma current_frame [simp]:
  "current (s\<lparr>poll_at := p\<rparr>) = current s" "current (s\<lparr>read_at := r\<rparr>) = current s"
  "current (s\<lparr>poll_sem := b\<rparr>) = current s" "current (s\<lparr>read_sem := b\<rparr>) = current s"
  "current (s\<lparr>run_thread := b\<rparr>) = current s" "current (s\<lparr>payload := q\<rparr>) = current s"
  "current (s\<lparr>polled := h\<rparr>) = current s" "current (s\<lparr>delivered := h\<rparr>) = current s"
  by (simp_all add: current_def split: option.split)

lemma thread_message_inv:
  assumes step: "RTI_RS_KafkaStreamReader_on_data_availabe_thread f s t" and inv: "reader_inv f s"
  shows "violation t = None \<and> message_inv t"
proof -
  have owns: "poll_owns (poll_at s) \<Longrightarrow> \<not> read_sem s \<and> \<not> read_owns (read_at s)"
    using inv tokens_exclusive(1) by (auto simp: reader_inv_def)
  show ?thesis
    using step inv owns
    by cases (auto simp: reader_inv_def message_inv_def place_defs after_cleanup_def)
qed

lemma read_message_inv:
  assumes step: "RTI_RS_KafkaStreamReader_read f s t" and inv: "reader_inv f s"
  shows "violation t = None \<and> message_inv t"
proof -
  have owns: "read_owns (read_at s) \<or> read_sem s \<Longrightarrow> \<not> poll_owns (poll_at s)"
    using inv tokens_exclusive(2,3) by (auto simp: reader_inv_def)
  show ?thesis
    using step inv owns
    by cases (auto simp: reader_inv_def message_inv_def place_defs copy_payload_current)
qed

lemma return_message_inv:
  assumes step: "RTI_RS_KafkaStreamReader_return_loan f s t" and inv: "reader_inv f s"
  shows "violation t = None \<and> message_inv t"
proof -
  have owns: "read_owns (read_at s) \<Longrightarrow> \<not> read_sem s \<and> \<not> poll_owns (poll_at s)"
    using inv tokens_exclusive(2) by (auto simp: reader_inv_def)
  show ?thesis
    using step inv owns
    by cases (auto simp: reader_inv_def message_inv_def place_defs)
qed

lemma thread_history_inv:
  assumes step: "RTI_RS_KafkaStreamReader_on_data_availabe_thread f s t" and inv: "reader_inv f s"
  shows "history_inv f t"
proof -
  have owns: "poll_owns (poll_at s) \<Longrightarrow> \<not> read_sem s \<and> \<not> read_owns (read_at s)"
    using inv tokens_exclusive(1) by (auto simp: reader_inv_def)
  show ?thesis
    using step inv owns
    by cases (auto simp: reader_inv_def message_inv_def history_inv_def in_flight_def place_defs
        after_cleanup_def dest: subseq_drop_last)
qed

lemma read_history_inv:
  assumes step: "RTI_RS_KafkaStreamReader_read f s t" and inv: "reader_inv f s"
  shows "history_inv f t"
proof -
  have owns: "read_owns (read_at s) \<or> read_sem s \<Longrightarrow> \<not> poll_owns (poll_at s)"
      "read_owns (read_at s) \<Longrightarrow> \<not> read_sem s"
    using inv tokens_exclusive(2,3) by (auto simp: reader_inv_def)
  show ?thesis
    using step inv owns
    by cases (auto simp: reader_inv_def message_inv_def history_inv_def in_flight_def place_defs
        copy_payload_current dest: subseq_drop_last)
qed

lemma in_flight_empty: "\<not> in_transit s \<Longrightarrow> in_flight s = []"
  by (simp add: in_flight_def)

lemma return_history_inv:
  assumes step: "RTI_RS_KafkaStreamReader_return_loan f s t" and inv: "reader_inv f s"
  shows "history_inv f t"
proof -
  have "read_owns (read_at s)" using step by cases auto
  then have owns: "\<not> read_sem s" "\<not> poll_owns (poll_at s)"
    using inv tokens_exclusive(2) by (auto simp: reader_inv_def)
  have same: "delivered t = delivered s \<and> polled t = polled s" using step by cases auto
  have "\<not> in_transit s" "\<not> in_transit t" using step owns by (cases; auto simp: in_transit_def)+
  with inv same show ?thesis
    by (simp add: reader_inv_def history_inv_def in_flight_empty split: if_splits)
qed

lemma run_thread_frame [simp]:
  "in_transit (s\<lparr>run_thread := b\<rparr>) = in_transit s" "in_flight (s\<lparr>run_thread := b\<rparr>) = in_flight s"
  by (simp_all add: in_flight_def in_transit_def)

lemma request_stop_inv: "reader_inv f s \<Longrightarrow> reader_inv f (s\<lparr>run_thread := False\<rparr>)"
  by (simp add: reader_inv_def message_inv_def history_inv_def place_defs tokens_def)

lemma reader_step_inv:
  assumes step: "reader_step f s t" and inv: "reader_inv f s"
  shows "reader_inv f t"
proof -
  have "tokens t \<le> 1"
    using reader_step_tokens [OF step] inv by (simp add: reader_inv_def)
  with step inv show ?thesis
    by cases (auto simp: reader_inv_def [of f t]
        dest: thread_message_inv thread_history_inv read_message_inv read_history_inv
          return_message_inv return_history_inv request_stop_inv simp del: One_nat_def)
qed

lemma reader_run_inv: "reader_run f s t \<Longrightarrow> reader_inv f s \<Longrightarrow> reader_inv f t"
  by (induction rule: reader_run.induct) (auto dest: reader_step_inv)

lemma reachable_reader_inv: "reachable_reader f s \<Longrightarrow> reader_inv f s"
  using reader_run_inv init_reader_inv by blast

lemma reader_run_tokens: "reader_run f s t \<Longrightarrow> tokens t \<le> tokens s"
  by (induction rule: reader_run.induct) (auto dest: reader_step_tokens)

lemma no_token_no_progress:
  assumes "tokens s = 0" and "reader_step f s t"
  shows "polled t = polled s \<and> delivered t = delivered s"
  using assms(2,1)
  by (cases; (elim RTI_RS_KafkaStreamReader_on_data_availabe_thread.cases
      RTI_RS_KafkaStreamReader_read.cases RTI_RS_KafkaStreamReader_return_loan.cases)?)
    (simp_all add: tokens_def)

lemma no_token_stall:
  assumes "reader_run f s t" and "tokens s = 0"
  shows "polled t = polled s \<and> delivered t = delivered s"
  using assms
proof (induction rule: reader_run.induct)
  case run_refl
  then show ?case by simp
next
  case (run_step s t u)
  then have "tokens t = 0" using reader_run_tokens [OF run_step.hyps(1)] by simp
  then show ?case using run_step no_token_no_progress by metis
qed

text \<open>From a consumer error on, the polling thread only cleans up and returns.\<close>

lemma cleaning_up_step:
  assumes "reader_step False s t"
    and "poll_at s \<in> {P_Cleanup_Destroy, P_Cleanup_Give, P_Done}" and "\<not> read_sem s"
    and "\<not> read_owns (read_at s)"
  shows "poll_at t \<in> {P_Cleanup_Destroy, P_Cleanup_Give, P_Done} \<and> \<not> read_sem t
    \<and> \<not> read_owns (read_at t) \<and> polled t = polled s \<and> delivered t = delivered s"
  using assms
  by (cases; (elim RTI_RS_KafkaStreamReader_on_data_availabe_thread.cases
      RTI_RS_KafkaStreamReader_read.cases RTI_RS_KafkaStreamReader_return_loan.cases)?)
    (auto simp: after_cleanup_def)

lemma cleaning_up_run:
  assumes "reader_run False s t"
    and "poll_at s \<in> {P_Cleanup_Destroy, P_Cleanup_Give, P_Done}" and "\<not> read_sem s"
    and "\<not> read_owns (read_at s)"
  shows "poll_at t \<in> {P_Cleanup_Destroy, P_Cleanup_Give, P_Done} \<and> \<not> read_sem t
    \<and> \<not> read_owns (read_at t) \<and> polled t = polled s \<and> delivered t = delivered s"
  using assms
proof (induction rule: reader_run.induct)
  case run_refl
  then show ?case by simp
next
  case (run_step s t u)
  then show ?case using cleaning_up_step [OF run_step.hyps(2)] by metis
qed

lemma thread_at_cleanup_destroy:
  assumes "poll_at s = P_Cleanup_Destroy"
  shows "RTI_RS_KafkaStreamReader_on_data_availabe_thread f s t
    \<longleftrightarrow> t = (destroy_rkm s)\<lparr>poll_at := P_Cleanup_Give\<rparr>"
  using assms
  by (subst RTI_RS_KafkaStreamReader_on_data_availabe_thread.simps) simp

lemma thread_at_cleanup_give:
  assumes "poll_at s = P_Cleanup_Give"
  shows "RTI_RS_KafkaStreamReader_on_data_availabe_thread f s t
    \<longleftrightarrow> t = s\<lparr>poll_sem := True, poll_at := after_cleanup 0\<rparr>
      \<or> f \<and> t = s\<lparr>poll_at := after_cleanup (-1)\<rparr>"
  using assms
  by (subst RTI_RS_KafkaStreamReader_on_data_availabe_thread.simps) (simp add: conj_commute)

section \<open>Stopping the polling thread\<close>

text \<open>The steps left to a polling thread that was asked to stop.\<close>

fun steps_to_return :: "poll_pc \<Rightarrow> nat" where
  "steps_to_return P_Done = 0"
| "steps_to_return P_While = 1"
| "steps_to_return P_Give_Read = 2"
| "steps_to_return P_Give_Poll = 2"
| "steps_to_return P_Cleanup_Give = 2"
| "steps_to_return P_Cleanup_Destroy = 3"
| "steps_to_return P_Notify = 3"
| "steps_to_return P_Loan = 4"
| "steps_to_return P_Initialize = 5"
| "steps_to_return P_Poll = 6"
| "steps_to_return P_Take = 7"

lemma stopped_thread_step:
  assumes "RTI_RS_KafkaStreamReader_on_data_availabe_thread f s t" and "\<not> run_thread s"
  shows "\<not> run_thread t \<and> steps_to_return (poll_at t) < steps_to_return (poll_at s)
    \<and> poll_at t \<noteq> P_Take"
  using assms by cases (auto simp: after_cleanup_def)

lemma thread_enabled:
  "(\<exists>t. RTI_RS_KafkaStreamReader_on_data_availabe_thread False s t)
   \<longleftrightarrow> \<not> (poll_at s = P_Done \<or> (poll_at s = P_Take \<and> \<not> poll_sem s))"
  (is "?L \<longleftrightarrow> ?R")
proof
  assume ?L then show ?R by (auto elim: RTI_RS_KafkaStreamReader_on_data_availabe_thread.cases)
next
  assume ?R then show ?L
    by (cases "poll_at s"; cases "run_thread s")
      (auto intro: RTI_RS_KafkaStreamReader_on_data_availabe_thread.intros)
qed

lemma stopped_thread_never_takes:
  assumes "(RTI_RS_KafkaStreamReader_on_data_availabe_thread f)\<^sup>*\<^sup>* s t" and "\<not> run_thread s"
    and "poll_at s \<noteq> P_Take \<or> poll_sem s"
  shows "\<not> run_thread t \<and> (poll_at t \<noteq> P_Take \<or> poll_sem t)"
  using assms by (induction rule: rtranclp_induct) (auto dest: stopped_thread_step)

lemma stopped_thread_reaches_done:
  assumes "\<not> run_thread s" and "poll_at s \<noteq> P_Take \<or> poll_sem s"
  shows "\<exists>t. (RTI_RS_KafkaStreamReader_on_data_availabe_thread False)\<^sup>*\<^sup>* s t \<and> poll_at t = P_Done"
  using assms
proof (induction "steps_to_return (poll_at s)" arbitrary: s rule: less_induct)
  case less
  show ?case
  proof (cases "poll_at s = P_Done")
    case False
    with less.prems obtain t where step: "RTI_RS_KafkaStreamReader_on_data_availabe_thread False s t"
      using thread_enabled by blast
    from stopped_thread_step [OF step less.prems(1)] less.hyps
    obtain u where "(RTI_RS_KafkaStreamReader_on_data_availabe_thread False)\<^sup>*\<^sup>* t u" "poll_at u = P_Done"
      by blast
    with step show ?thesis by (meson converse_rtranclp_into_rtranclp)
  qed auto
qed

lemma blocked_thread_stays:
  assumes "(RTI_RS_KafkaStreamReader_on_data_availabe_thread False)\<^sup>*\<^sup>* s t"
    and "poll_at s = P_Take" and "\<not> poll_sem s"
  shows "t = s"
  using assms by (metis converse_rtranclpE thread_enabled)

lemma stopped_thread_steps:
  assumes "\<not> run_thread s" and "(RTI_RS_KafkaStreamReader_on_data_availabe_thread f ^^ n) s t"
  shows "n \<le> 7"
proof -
  have "\<not> run_thread t \<and> n + steps_to_return (poll_at t) \<le> steps_to_return (poll_at s)"
    using assms(2,1)
  proof (induction n arbitrary: t)
    case (Suc n)
    then obtain u where "(RTI_RS_KafkaStreamReader_on_data_availabe_thread f ^^ n) s u"
      and "RTI_RS_KafkaStreamReader_on_data_availabe_thread f u t" by auto
    with Suc.IH [of u] Suc.prems(2) stopped_thread_step [of f u t] show ?case by auto
  qed simp
  moreover have "steps_to_return p \<le> 7" for p by (cases p) auto
  ultimately show ?thesis by (meson add_leD1 le_trans)
qed

text \<open>A thread that cleans up after an error, with every give succeeding, returns after at most two steps.\<close>

fun cleanup_steps :: "poll_pc \<Rightarrow> nat" where
  "cleanup_steps P_Cleanup_Destroy = 2"
| "cleanup_steps P_Cleanup_Give = 1"
| "cleanup_steps _ = 0"

lemma cleanup_thread_step:
  assumes "RTI_RS_KafkaStreamReader_on_data_availabe_thread False s t"
    and "poll_at s \<in> {P_Cleanup_Destroy, P_Cleanup_Give, P_Done}"
  shows "poll_at t \<in> {P_Cleanup_Destroy, P_Cleanup_Give, P_Done} \<and> cleanup_steps (poll_at s) = Suc (cleanup_steps (poll_at t))"
  using assms by cases (auto simp: after_cleanup_def)

lemma cleanup_returns:
  assumes "poll_at s \<in> {P_Cleanup_Destroy, P_Cleanup_Give, P_Done}"
  shows "\<exists>t. (RTI_RS_KafkaStreamReader_on_data_availabe_thread False)\<^sup>*\<^sup>* s t \<and> poll_at t = P_Done"
    and "(RTI_RS_KafkaStreamReader_on_data_availabe_thread False ^^ n) s t \<Longrightarrow> n \<le> 2"
proof -
  show "\<exists>t. (RTI_RS_KafkaStreamReader_on_data_availabe_thread False)\<^sup>*\<^sup>* s t \<and> poll_at t = P_Done"
    using assms
  proof (induction "cleanup_steps (poll_at s)" arbitrary: s)
    case 0
    then show ?case by auto
  next
    case (Suc n)
    then have "\<not> (poll_at s = P_Done \<or> (poll_at s = P_Take \<and> \<not> poll_sem s))" by auto
    then obtain u where step: "RTI_RS_KafkaStreamReader_on_data_availabe_thread False s u" using thread_enabled by blast
    with Suc cleanup_thread_step [OF step Suc.prems]
    obtain v where "(RTI_RS_KafkaStreamReader_on_data_availabe_thread False)\<^sup>*\<^sup>* u v" "poll_at v = P_Done" by auto
    with step show ?case by (meson converse_rtranclp_into_rtranclp)
  qed
next
  assume run: "(RTI_RS_KafkaStreamReader_on_data_availabe_thread False ^^ n) s t"
  have "poll_at t \<in> {P_Cleanup_Destroy, P_Cleanup_Give, P_Done} \<and> n + cleanup_steps (poll_at t) = cleanup_steps (poll_at s)"
    using run
  proof (induction n arbitrary: t)
    case (Suc n)
    then obtain u where u: "(RTI_RS_KafkaStreamReader_on_data_availabe_thread False ^^ n) s u"
      and step: "RTI_RS_KafkaStreamReader_on_data_availabe_thread False u t" by auto
    show ?case using Suc.IH [OF u] cleanup_thread_step [OF step] by linarith
  qed (use assms in simp)
  moreover have "cleanup_steps p \<le> 2" for p by (cases p) auto
  ultimately show "n \<le> 2" by (metis add_leD1)
qed

section \<open>Properties\<close>

text \<open>
  C2. Memory safety of the two threads, whatever calls fail: in every reachable state no
  message has been destroyed twice or read after its destruction, and when \<open>read\<close> is about
  to copy the payload, the sequence has the bytes of a live proper message on loan.
\<close>

theorem reader_memory_safe:
  assumes "reachable_reader failures s"
  shows "violation s = None
    \<and> (read_at s = R_Set \<longrightarrow> (\<exists>m b. payload s = Some m \<and> messages s m = Some (Proper_Message b)))"
  using reachable_reader_inv [OF assms]
  by (auto simp: reader_inv_def message_inv_def place_defs current_def split: option.splits)

text \<open>
  C15. The semaphores hand one token around: the polling thread and the service thread are
  never both between their take and their give, and at most one semaphore is full.
\<close>

theorem reader_mutual_exclusion:
  assumes "reachable_reader failures s"
  shows "\<not> (poll_owns (poll_at s) \<and> read_owns (read_at s)) \<and> \<not> (poll_sem s \<and> read_sem s)
    \<and> (poll_sem s \<or> read_sem s \<longrightarrow> \<not> poll_owns (poll_at s) \<and> \<not> read_owns (read_at s))"
proof -
  have one: "tokens s \<le> 1" using reachable_reader_inv [OF assms] by (simp add: reader_inv_def)
  show ?thesis using tokens_exclusive [OF one] by blast
qed

text \<open>
  C3. Delivery: while only the consumer reports errors, the payloads copied into samples are
  exactly the payloads polled, in order, less the one that is in flight between the threads.
  When other calls fail too, messages may be lost, but none is duplicated or reordered.
\<close>

theorem reader_delivers_in_order:
  assumes "reachable_reader failures s"
  shows "(\<not> failures \<longrightarrow> polled s = delivered s @ in_flight s) \<and> subseq (delivered s) (polled s)"
  using reachable_reader_inv [OF assms]
  by (auto simp: reader_inv_def history_inv_def dest: subseq_drop_last split: if_splits)

text \<open>
  C19. The test after the clean-up of a consumer error is inverted: once the consumer reports an
  error, and as long as giving the semaphore works, no message is polled or delivered ever after,
  and wherever the service is, the polling thread returns within two more steps of its own,
  although the clean-up succeeded and the comment in the code calls such errors
  informational. The other way round, it goes on polling if the clean-up failed to give the
  semaphore.
\<close>

theorem consumer_error_ends_delivery:
  assumes "reachable_reader False s" and "poll_at s = P_Poll"
    and "t = (receive Consumer_Error s)\<lparr>poll_at := P_Cleanup_Destroy\<rparr>"
    and "reader_run False t u"
  shows "reader_step False s t \<and> polled u = polled s \<and> delivered u = delivered s
    \<and> (\<exists>v. (RTI_RS_KafkaStreamReader_on_data_availabe_thread False)\<^sup>*\<^sup>* u v \<and> poll_at v = P_Done)
    \<and> (\<forall>n v. (RTI_RS_KafkaStreamReader_on_data_availabe_thread False ^^ n) u v \<longrightarrow> n \<le> 2)
    \<and> (\<exists>v. (RTI_RS_KafkaStreamReader_on_data_availabe_thread True)\<^sup>*\<^sup>* t v \<and> poll_at v = P_While)"
proof -
  have "\<not> read_sem s \<and> \<not> read_owns (read_at s)"
    using tokens_exclusive(1) [of s] reachable_reader_inv [OF assms(1)] assms(2)
    by (simp add: reader_inv_def)
  then have u: "polled u = polled t \<and> delivered u = delivered t
      \<and> poll_at u \<in> {P_Cleanup_Destroy, P_Cleanup_Give, P_Done}"
    using cleaning_up_run [OF assms(4)] by (simp add: assms(3))
  let ?d = "(destroy_rkm t)\<lparr>poll_at := P_Cleanup_Give\<rparr>" and ?w = "(destroy_rkm t)\<lparr>poll_at := after_cleanup (-1)\<rparr>"
  have "RTI_RS_KafkaStreamReader_on_data_availabe_thread True t ?d" "RTI_RS_KafkaStreamReader_on_data_availabe_thread True ?d ?w"
    by (simp_all add: assms(3) thread_at_cleanup_destroy thread_at_cleanup_give)
  then have "(RTI_RS_KafkaStreamReader_on_data_availabe_thread True)\<^sup>*\<^sup>* t ?w" by simp
  then have "\<exists>v. (RTI_RS_KafkaStreamReader_on_data_availabe_thread True)\<^sup>*\<^sup>* t v \<and> poll_at v = P_While"
    by (intro exI [of _ ?w] conjI, assumption) (simp add: after_cleanup_def)
  moreover have "reader_step False s t"
    using assms(2) unfolding assms(3) by (auto intro: reader_step.poll poll_consumer_error)
  moreover have "polled t = polled s" "delivered t = delivered s" by (simp_all add: assms(3) receive_def)
  ultimately show ?thesis using u cleanup_returns by auto
qed

text \<open>
  A \<open>read\<close> whose \<open>DDS_DynamicData_set_octet_seq\<close> fails reports no sample and gives no
  semaphore. When the service does not return a loan it was never given, the reader is
  stalled: in every continuation no message is polled and none is delivered.
\<close>

theorem failed_read_stalls:
  assumes "reachable_reader failures s" and "read_at s = R_Failed"
    and "reader_run failures (s\<lparr>read_at := R_Idle\<rparr>) u"
  shows "polled u = polled s \<and> delivered u = delivered s \<and> \<not> poll_sem u \<and> \<not> read_sem u"
proof -
  have "\<not> poll_sem s \<and> \<not> read_sem s \<and> \<not> poll_owns (poll_at s)"
    using tokens_exclusive(2) [of s] reachable_reader_inv [OF assms(1)] assms(2)
    by (simp add: reader_inv_def)
  then have none: "tokens (s\<lparr>read_at := R_Idle\<rparr>) = 0" by (simp add: tokens_def)
  show ?thesis
    using no_token_stall [OF assms(3) none] reader_run_tokens [OF assms(3)] none
    by (simp add: tokens_def split: if_splits)
qed

text \<open>
  C20. Deletion clears \<open>run_thread\<close> and joins the polling thread. With the service out of the
  reader, the thread returns after at most seven of its own steps, unless it waits for a
  \<open>poll_sem\<close> that is not full (a message is unread): then it never returns and the join
  hangs.
\<close>

theorem stopped_thread_returns_iff:
  assumes "\<not> run_thread s"
  shows "((\<exists>t. (RTI_RS_KafkaStreamReader_on_data_availabe_thread False)\<^sup>*\<^sup>* s t \<and> poll_at t = P_Done)
      \<longleftrightarrow> (poll_at s \<noteq> P_Take \<or> poll_sem s))
    \<and> (\<forall>n t. (RTI_RS_KafkaStreamReader_on_data_availabe_thread False ^^ n) s t \<longrightarrow> n \<le> 7)"
  using stopped_thread_reaches_done [OF assms] blocked_thread_stays stopped_thread_steps [OF assms]
  by fastforce

section \<open>Concrete runs\<close>

lemmas by_thread = run_step [OF _ reader_step.poll]
lemmas by_read = run_step [OF _ reader_step.read]

text \<open>A message \<open>[10]\<close> is polled and handed over; the service has not read it.\<close>

definition handed_over :: reader where
  "handed_over = init_reader\<lparr>poll_sem := False, read_sem := True, rkm := Some 0, payload := Some 0,
     poll_at := P_Take, messages := [0 \<mapsto> Proper_Message [10]], next_message := 1, polled := [[10]]\<rparr>"

lemma reach_poll: "reachable_reader f (init_reader\<lparr>poll_sem := False, poll_at := P_Poll\<rparr>)"
  using by_thread [OF by_thread [OF run_refl [of f init_reader] while_run] take_poll]
  by (simp add: init_reader_def)

lemma reach_handed_over: "reachable_reader f handed_over"
  using by_thread [OF by_thread [OF by_thread [OF by_thread [OF by_thread [OF
    by_thread [OF reach_poll [of f] poll_message [where bytes = "[10]"]] initialize] loan] notify] give_read] while_run]
  by (simp add: init_reader_def handed_over_def receive_def)

lemma reach_reading:
  "reachable_reader f (handed_over\<lparr>read_sem := False, read_at := R_Set\<rparr>)"
  using by_read [OF by_read [OF reach_handed_over [of f] call_read] take_read]
  by (simp add: handed_over_def init_reader_def)

text \<open>The message was read, and is on loan.\<close>

definition served :: reader where
  "served = handed_over\<lparr>read_sem := False, read_at := R_Loaned, delivered := [[10]]\<rparr>"

lemma reach_served: "reachable_reader f served"
  using by_read [OF reach_reading [of f] set_payload]
  by (simp add: served_def handed_over_def init_reader_def copy_payload_def)

lemma served_facts: "polled served = [[10]]" "delivered served = [[10]]"
  by (simp_all add: served_def handed_over_def)

theorem reader_memory_safe_witness:
  "\<exists>m b. (payload (handed_over\<lparr>read_sem := False, read_at := R_Set\<rparr>)) = Some m
     \<and> messages (handed_over\<lparr>read_sem := False, read_at := R_Set\<rparr>) m = Some (Proper_Message b)"
  using reader_memory_safe [OF reach_reading [of True]] by simp

theorem reader_mutual_exclusion_witness:
  "read_sem handed_over \<and> \<not> poll_owns (poll_at handed_over) \<and> \<not> read_owns (read_at handed_over)"
  using reader_mutual_exclusion [OF reach_handed_over [of True]] by (simp add: handed_over_def)

theorem reader_delivers_in_order_witness:
  "polled handed_over = [[10]] \<and> in_flight handed_over = [[10]] \<and> delivered handed_over = []"
  using reader_delivers_in_order [OF reach_handed_over [of False]]
  by (simp add: handed_over_def init_reader_def in_flight_def in_transit_def current_def)

theorem consumer_error_ends_delivery_witness:
  "reader_step False (init_reader\<lparr>poll_sem := False, poll_at := P_Poll\<rparr>)
     ((receive Consumer_Error (init_reader\<lparr>poll_sem := False, poll_at := P_Poll\<rparr>))
       \<lparr>poll_at := P_Cleanup_Destroy\<rparr>)
   \<and> (\<exists>v. (RTI_RS_KafkaStreamReader_on_data_availabe_thread False)\<^sup>*\<^sup>*
        ((receive Consumer_Error (init_reader\<lparr>poll_sem := False, poll_at := P_Poll\<rparr>))
          \<lparr>poll_at := P_Cleanup_Destroy\<rparr>) v \<and> poll_at v = P_Done)"
  using consumer_error_ends_delivery [OF reach_poll _ refl run_refl] by simp

lemma reach_failed: "reachable_reader True (handed_over\<lparr>read_sem := False, read_at := R_Failed\<rparr>)"
  using by_read [OF reach_reading [of True] set_payload_error] by simp

theorem failed_read_stalls_witness:
  "polled (handed_over\<lparr>read_sem := False, read_at := R_Idle\<rparr>) = [[10]]
   \<and> \<not> poll_sem (handed_over\<lparr>read_sem := False, read_at := R_Idle\<rparr>)"
  using failed_read_stalls [OF reach_failed _ run_refl]
  by (simp add: handed_over_def)

theorem stopped_thread_returns_iff_witness:
  "\<not> (\<exists>t. (RTI_RS_KafkaStreamReader_on_data_availabe_thread False)\<^sup>*\<^sup>*
        (handed_over\<lparr>run_thread := False\<rparr>) t \<and> poll_at t = P_Done)
   \<and> reachable_reader False (handed_over\<lparr>run_thread := False\<rparr>)"
  using stopped_thread_returns_iff [of "handed_over\<lparr>run_thread := False\<rparr>"]
    run_step [OF reach_handed_over [of False] request_stop]
  by (simp add: handed_over_def init_reader_def)

text \<open>
  The two steps of the polling thread's clean-up are the function \<open>error_cleanup\<close>, followed
  by the test of its result: the thread leaves its loop when the function returned 0 and
  goes on when it returned -1.
\<close>

theorem cleanup_steps_are_error_cleanup:
  assumes "poll_at s = P_Cleanup_Destroy"
  shows "(RTI_RS_KafkaStreamReader_on_data_availabe_thread failures ^^ 2) s t \<longleftrightarrow>
    (\<exists>give_ok rc u. (give_ok \<or> failures) \<and> RTI_RS_KafkaStreamReader_error_cleanup give_ok s = (rc, u)
       \<and> t = u\<lparr>poll_at := (if rc = 0 then P_Done else P_While)\<rparr>)"
proof -
  have first: "RTI_RS_KafkaStreamReader_on_data_availabe_thread failures s u
      \<longleftrightarrow> u = (destroy_rkm s)\<lparr>poll_at := P_Cleanup_Give\<rparr>" for u
    using assms by (simp add: thread_at_cleanup_destroy)
  have second: "RTI_RS_KafkaStreamReader_on_data_availabe_thread failures u t
      \<longleftrightarrow> t = u\<lparr>poll_sem := True, poll_at := P_Done\<rparr> \<or> failures \<and> t = u\<lparr>poll_at := P_While\<rparr>"
    if "poll_at u = P_Cleanup_Give" for u
    using that by (simp add: thread_at_cleanup_give after_cleanup_def)
  have "(RTI_RS_KafkaStreamReader_on_data_availabe_thread failures ^^ 2) s t
      \<longleftrightarrow> RTI_RS_KafkaStreamReader_on_data_availabe_thread failures
        ((destroy_rkm s)\<lparr>poll_at := P_Cleanup_Give\<rparr>) t"
    by (simp add: numeral_2_eq_2 relcompp_apply first)
  also have "\<dots> \<longleftrightarrow> t = (destroy_rkm s)\<lparr>poll_sem := True, poll_at := P_Done\<rparr>
      \<or> failures \<and> t = (destroy_rkm s)\<lparr>poll_at := P_While\<rparr>"
    by (subst second) simp_all
  finally show ?thesis
    by (simp add: ex_bool_eq RTI_RS_KafkaStreamReader_error_cleanup_def)
qed

theorem cleanup_steps_are_error_cleanup_witness:
  "(RTI_RS_KafkaStreamReader_on_data_availabe_thread False ^^ 2)
     (init_reader\<lparr>poll_sem := False, poll_at := P_Cleanup_Destroy\<rparr>)
     (init_reader\<lparr>poll_sem := True, poll_at := P_Done\<rparr>)"
  using cleanup_steps_are_error_cleanup [of "init_reader\<lparr>poll_sem := False, poll_at := P_Cleanup_Destroy\<rparr>"
      False "init_reader\<lparr>poll_sem := True, poll_at := P_Done\<rparr>"]
  by (simp add: ex_bool_eq RTI_RS_KafkaStreamReader_error_cleanup_def destroy_rkm_def init_reader_def)

end
