(* ===== verification/Dynamic_Data_Utils.thy ===== *)
theory Dynamic_Data_Utils
  imports Dds_Sequence
begin

text \<open>
  \<^verbatim>\<open>common/protobuf2dds/srcCxx/DynamicDataUtils.cpp\<close>: the resolution of aliases, the lookup of a
  member, and the setters that narrow an integer to the type of the member. The type codes
  and the DynamicData objects of Connext are parameters.
\<close>

unbundle bit_operations_syntax

section \<open>Type codes\<close>

datatype DDS_TCKind =
    DDS_TK_NULL | DDS_TK_SHORT | DDS_TK_LONG | DDS_TK_USHORT | DDS_TK_ULONG | DDS_TK_FLOAT
  | DDS_TK_DOUBLE | DDS_TK_BOOLEAN | DDS_TK_CHAR | DDS_TK_OCTET | DDS_TK_STRUCT | DDS_TK_UNION
  | DDS_TK_ENUM | DDS_TK_STRING | DDS_TK_SEQUENCE | DDS_TK_ARRAY | DDS_TK_ALIAS
  | DDS_TK_LONGLONG | DDS_TK_ULONGLONG | DDS_TK_LONGDOUBLE | DDS_TK_WCHAR | DDS_TK_WSTRING
  | DDS_TK_VALUE

text \<open>\<open>None\<close>: the function sets its exception code, or returns NULL.\<close>

record 'tc tc_ops =
  tc_kind :: "'tc \<Rightarrow> DDS_TCKind option"
  tc_content_type :: "'tc \<Rightarrow> 'tc option"
  tc_name :: "'tc \<Rightarrow> string option"

text \<open>The outer \<open>None\<close> is a chain of aliases that does not end.\<close>

partial_function (option) resolve_type_code ::
  "'tc tc_ops \<Rightarrow> 'tc \<Rightarrow> ('tc \<times> DDS_TCKind) option option" where
  "resolve_type_code tcs type_code =
     (case tc_kind tcs type_code of
        None \<Rightarrow> Some None
      | Some kind \<Rightarrow>
          if kind = DDS_TK_ALIAS then
            (case tc_content_type tcs type_code of
               None \<Rightarrow> Some None
             | Some content_tc \<Rightarrow> resolve_type_code tcs content_tc)
          else Some (Some (type_code, kind)))"

declare resolve_type_code.simps [code]

text \<open>The specification: the type at the end of the chain of aliases.\<close>

inductive alias_end :: "'tc tc_ops \<Rightarrow> 'tc \<Rightarrow> 'tc \<Rightarrow> DDS_TCKind \<Rightarrow> bool" for tcs where
  alias_here: "tc_kind tcs tc = Some k \<Longrightarrow> k \<noteq> DDS_TK_ALIAS \<Longrightarrow> alias_end tcs tc tc k"
| alias_step: "tc_kind tcs tc = Some DDS_TK_ALIAS \<Longrightarrow> tc_content_type tcs tc = Some tc' \<Longrightarrow>
    alias_end tcs tc' tc'' k \<Longrightarrow> alias_end tcs tc tc'' k"

inductive_cases alias_endE: "alias_end tcs tc tc' k"

lemma resolve_alias_end: "alias_end tcs tc tc' k \<Longrightarrow> resolve_type_code tcs tc = Some (Some (tc', k))"
proof (induction rule: alias_end.induct)
  case (alias_here tc k)
  then show ?case by (subst resolve_type_code.simps) simp
next
  case (alias_step tc tc' tc'' k)
  then show ?case by (subst resolve_type_code.simps) simp
qed

lemma resolve_type_code_sound:
  assumes "resolve_type_code tcs tc = Some (Some (tc', k))"
  shows "alias_end tcs tc tc' k"
proof -
  have "\<forall>tc' k. r = Some (tc', k) \<longrightarrow> alias_end tcs tc tc' k" if "resolve_type_code tcs tc = Some r" for r
  proof (rule resolve_type_code.raw_induct
      [where P = "\<lambda>tcs tc r. \<forall>tc' k. r = Some (tc', k) \<longrightarrow> alias_end tcs tc tc' k", OF _ that])
    fix resolve :: "'a tc_ops \<Rightarrow> 'a \<Rightarrow> ('a \<times> DDS_TCKind) option option" and tcs tc r
    assume ih: "\<And>tcs tc r. resolve tcs tc = Some r \<Longrightarrow> \<forall>tc' k. r = Some (tc', k) \<longrightarrow> alias_end tcs tc tc' k"
      and step: "(case tc_kind tcs tc of None \<Rightarrow> Some None
        | Some kind \<Rightarrow> if kind = DDS_TK_ALIAS
            then (case tc_content_type tcs tc of None \<Rightarrow> Some None | Some c \<Rightarrow> resolve tcs c)
            else Some (Some (tc, kind))) = Some r"
    show "\<forall>tc' k. r = Some (tc', k) \<longrightarrow> alias_end tcs tc tc' k"
    proof (cases "tc_kind tcs tc = Some DDS_TK_ALIAS")
      case True
      then show ?thesis using ih step by (auto intro: alias_step split: option.splits)
    next
      case False
      then show ?thesis using step by (auto intro: alias_here split: option.splits if_splits)
    qed
  qed
  with assms show ?thesis by simp
qed

section \<open>DynamicData\<close>

type_synonym DDS_Short = "16 word"
type_synonym DDS_UnsignedShort = "16 word"
type_synonym DDS_LongLong = "64 word"
type_synonym DDS_UnsignedLongLong = "64 word"
type_synonym DDS_Float = "32 word"
type_synonym DDS_Double = "64 word"
type_synonym DDS_Boolean = "8 word"
type_synonym DDS_DynamicDataMemberId = "32 word"

record DDS_DynamicDataMemberInfo =
  member_id :: DDS_DynamicDataMemberId
  member_name :: string
  member_kind :: DDS_TCKind
  element_count :: DDS_UnsignedLong
  element_kind :: DDS_TCKind

text \<open>
  A value \<open>'v\<close> is the content of a DynamicData object. Getters are \<open>None\<close> and setters \<open>None\<close>
  where the function returns an error. Floating-point numbers are kept as their bits, a
  \<open>char\<close> is signed. \<open>dd_get_string v i n\<close> gets the size of the caller's buffer and yields the
  return code, the bytes stored at the start of the buffer and the new value of the length.
  \<open>dd_bind v bound i\<close> is the content of a complex member seen through another object, which
  is \<open>bound\<close> already or not; \<open>dd_unbind v i c\<close> is \<open>v\<close> with the member's content, when the
  other object is unbound.
\<close>

record ('v, 'tc, 's) dd_ops =
  dd_get_type :: "'v \<Rightarrow> 'tc option"
  dd_get_type_kind :: "'v \<Rightarrow> DDS_TCKind"
  dd_get_member_count :: "'v \<Rightarrow> DDS_UnsignedLong"
  dd_get_member_info_by_index :: "'v \<Rightarrow> DDS_UnsignedLong \<Rightarrow> DDS_DynamicDataMemberInfo option"
  dd_get_member_info :: "'v \<Rightarrow> string \<Rightarrow> DDS_DynamicDataMemberInfo option"
  dd_member_exists :: "'v \<Rightarrow> DDS_DynamicDataMemberId \<Rightarrow> bool"
  dd_get_member_type :: "'v \<Rightarrow> DDS_DynamicDataMemberId \<Rightarrow> 'tc option"
  dd_get_short :: "'v \<Rightarrow> DDS_DynamicDataMemberId \<Rightarrow> DDS_Short option"
  dd_get_long :: "'v \<Rightarrow> DDS_DynamicDataMemberId \<Rightarrow> DDS_Long option"
  dd_get_longlong :: "'v \<Rightarrow> DDS_DynamicDataMemberId \<Rightarrow> DDS_LongLong option"
  dd_get_ushort :: "'v \<Rightarrow> DDS_DynamicDataMemberId \<Rightarrow> DDS_UnsignedShort option"
  dd_get_ulong :: "'v \<Rightarrow> DDS_DynamicDataMemberId \<Rightarrow> DDS_UnsignedLong option"
  dd_get_ulonglong :: "'v \<Rightarrow> DDS_DynamicDataMemberId \<Rightarrow> DDS_UnsignedLongLong option"
  dd_get_float :: "'v \<Rightarrow> DDS_DynamicDataMemberId \<Rightarrow> DDS_Float option"
  dd_get_double :: "'v \<Rightarrow> DDS_DynamicDataMemberId \<Rightarrow> DDS_Double option"
  dd_get_boolean :: "'v \<Rightarrow> DDS_DynamicDataMemberId \<Rightarrow> DDS_Boolean option"
  dd_get_char :: "'v \<Rightarrow> DDS_DynamicDataMemberId \<Rightarrow> DDS_Char option"
  dd_get_octet :: "'v \<Rightarrow> DDS_DynamicDataMemberId \<Rightarrow> DDS_Octet option"
  dd_get_string :: "'v \<Rightarrow> DDS_DynamicDataMemberId \<Rightarrow> DDS_UnsignedLong \<Rightarrow> retcode \<times> byte list \<times> DDS_UnsignedLong"
  dd_get_octet_seq :: "'v \<Rightarrow> DDS_DynamicDataMemberId \<Rightarrow> 's \<Rightarrow> bool \<times> 's"
  dd_set_short :: "'v \<Rightarrow> DDS_DynamicDataMemberId \<Rightarrow> DDS_Short \<Rightarrow> 'v option"
  dd_set_long :: "'v \<Rightarrow> DDS_DynamicDataMemberId \<Rightarrow> DDS_Long \<Rightarrow> 'v option"
  dd_set_longlong :: "'v \<Rightarrow> DDS_DynamicDataMemberId \<Rightarrow> DDS_LongLong \<Rightarrow> 'v option"
  dd_set_ushort :: "'v \<Rightarrow> DDS_DynamicDataMemberId \<Rightarrow> DDS_UnsignedShort \<Rightarrow> 'v option"
  dd_set_ulong :: "'v \<Rightarrow> DDS_DynamicDataMemberId \<Rightarrow> DDS_UnsignedLong \<Rightarrow> 'v option"
  dd_set_ulonglong :: "'v \<Rightarrow> DDS_DynamicDataMemberId \<Rightarrow> DDS_UnsignedLongLong \<Rightarrow> 'v option"
  dd_set_float :: "'v \<Rightarrow> DDS_DynamicDataMemberId \<Rightarrow> DDS_Float \<Rightarrow> 'v option"
  dd_set_double :: "'v \<Rightarrow> DDS_DynamicDataMemberId \<Rightarrow> DDS_Double \<Rightarrow> 'v option"
  dd_set_boolean :: "'v \<Rightarrow> DDS_DynamicDataMemberId \<Rightarrow> DDS_Boolean \<Rightarrow> 'v option"
  dd_set_char :: "'v \<Rightarrow> DDS_DynamicDataMemberId \<Rightarrow> DDS_Char \<Rightarrow> 'v option"
  dd_set_octet :: "'v \<Rightarrow> DDS_DynamicDataMemberId \<Rightarrow> DDS_Octet \<Rightarrow> 'v option"
  dd_set_string :: "'v \<Rightarrow> DDS_DynamicDataMemberId \<Rightarrow> byte list \<Rightarrow> 'v option"
  dd_set_char_array :: "'v \<Rightarrow> DDS_DynamicDataMemberId \<Rightarrow> byte list \<Rightarrow> 'v option"
  dd_set_octet_array :: "'v \<Rightarrow> DDS_DynamicDataMemberId \<Rightarrow> byte list \<Rightarrow> 'v option"
  dd_bind :: "'v \<Rightarrow> bool \<Rightarrow> DDS_DynamicDataMemberId \<Rightarrow> 'v option"
  dd_unbind :: "'v \<Rightarrow> DDS_DynamicDataMemberId \<Rightarrow> 'v \<Rightarrow> bool \<times> 'v"

section \<open>Members\<close>

definition get_member_info ::
  "'tc tc_ops \<Rightarrow> ('v, 'tc, 's) dd_ops \<Rightarrow> 'v \<Rightarrow> string \<Rightarrow>
   (DDS_DynamicDataMemberInfo \<times> 'tc \<times> DDS_TCKind) option option" where
  "get_member_info tcs dd data name =
     (case dd_get_member_info dd data name of
        None \<Rightarrow> Some None
      | Some info \<Rightarrow>
          (case dd_get_member_type dd data (member_id info) of
             None \<Rightarrow> Some None
           | Some tc \<Rightarrow>
               (case resolve_type_code tcs tc of
                  None \<Rightarrow> None
                | Some None \<Rightarrow> Some None
                | Some (Some (tc, kind)) \<Rightarrow> Some (Some (info, tc, kind)))))"

definition set_fuzzy_long ::
  "('v, 'tc, 's) dd_ops \<Rightarrow> 'v \<Rightarrow> DDS_DynamicDataMemberId \<Rightarrow> DDS_TCKind \<Rightarrow> 32 word \<Rightarrow> 'v option" where
  "set_fuzzy_long dd data i kind v =
     (case kind of
        DDS_TK_SHORT \<Rightarrow>
          if sint v < - (2 ^ 15) \<or> sint v > 2 ^ 15 - 1 then None else dd_set_short dd data i (scast v)
      | DDS_TK_CHAR \<Rightarrow>
          if sint v < - (2 ^ 7) \<or> sint v > 2 ^ 7 - 1 then None else dd_set_char dd data i (scast v)
      | _ \<Rightarrow> dd_set_long dd data i v)"

definition set_fuzzy_ulong ::
  "('v, 'tc, 's) dd_ops \<Rightarrow> 'v \<Rightarrow> DDS_DynamicDataMemberId \<Rightarrow> DDS_TCKind \<Rightarrow> 32 word \<Rightarrow> 'v option" where
  "set_fuzzy_ulong dd data i kind v =
     (case kind of
        DDS_TK_USHORT \<Rightarrow> if v > 65535 then None else dd_set_ushort dd data i (ucast v)
      | DDS_TK_OCTET \<Rightarrow> if v > 255 then None else dd_set_octet dd data i (ucast v)
      | _ \<Rightarrow> dd_set_ulong dd data i v)"

definition set_fuzzy_bytes ::
  "'tc tc_ops \<Rightarrow> ('v, 'tc, 's) dd_ops \<Rightarrow> 'v \<Rightarrow> DDS_DynamicDataMemberId \<Rightarrow> 'tc \<Rightarrow> byte list \<Rightarrow>
   'v option option" where
  "set_fuzzy_bytes tcs dd data i tc bytes =
     (case tc_content_type tcs tc of
        None \<Rightarrow> Some None
      | Some el_tc \<Rightarrow>
          (case resolve_type_code tcs el_tc of
             None \<Rightarrow> None
           | Some None \<Rightarrow> Some None
           | Some (Some (_, kind)) \<Rightarrow>
               Some (if kind = DDS_TK_CHAR then dd_set_char_array dd data i bytes
                     else dd_set_octet_array dd data i bytes)))"

section \<open>The setters that narrow\<close>

lemma fits_signed:
  fixes v :: "'a::len word"
  assumes "LENGTH('b::len) \<le> LENGTH('a)"
  shows "(\<exists>s :: 'b word. sint s = sint v) \<longleftrightarrow> - (2 ^ (LENGTH('b) - 1)) \<le> sint v \<and> sint v < 2 ^ (LENGTH('b) - 1)"
proof
  assume "\<exists>s :: 'b word. sint s = sint v"
  then obtain s :: "'b word" where "sint s = sint v" by blast
  then show "- (2 ^ (LENGTH('b) - 1)) \<le> sint v \<and> sint v < 2 ^ (LENGTH('b) - 1)"
    using sint_greater_eq [of s] sint_less [of s] by simp
next
  assume "- (2 ^ (LENGTH('b) - 1)) \<le> sint v \<and> sint v < 2 ^ (LENGTH('b) - 1)"
  then have "sint (scast v :: 'b word) = sint v"
    using narrow_signed [of v, where 'b = 'b] widen_signed [OF assms, of "scast v"] by simp
  then show "\<exists>s :: 'b word. sint s = sint v" by blast
qed

lemma scast_of_sint_eq: "sint s = sint v \<Longrightarrow> scast v = s" for s :: "'b::len word" and v :: "'a::len word"
  by (metis scast_eq scast_id)

lemma ucast_of_unat_eq: "unat s = unat v \<Longrightarrow> ucast v = s" for s :: "'b::len word" and v :: "'a::len word"
  by (metis ucast_eq uint_nat ucast_id)

lemma fits_unsigned:
  fixes v :: "'a::len word"
  assumes "LENGTH('b::len) \<le> LENGTH('a)"
  shows "(\<exists>s :: 'b word. unat s = unat v) \<longleftrightarrow> unat v < 2 ^ LENGTH('b)"
proof
  show "unat v < 2 ^ LENGTH('b)" if "\<exists>s :: 'b word. unat s = unat v"
    using that unsigned_less [where 'b = 'b and 'a = nat] by metis
  show "\<exists>s :: 'b word. unat s = unat v" if "unat v < 2 ^ LENGTH('b)"
    using narrow_unsigned [OF that] widen_unsigned [OF assms, of "ucast v"] by metis
qed

lemma set_fuzzy_long_iff:
  "set_fuzzy_long dd data i DDS_TK_SHORT v = Some data' \<longleftrightarrow> (\<exists>s. sint s = sint v \<and> dd_set_short dd data i s = Some data')"
  "set_fuzzy_long dd data i DDS_TK_CHAR v = Some data' \<longleftrightarrow> (\<exists>c. sint c = sint v \<and> dd_set_char dd data i c = Some data')"
  using fits_signed [of v, where 'b = 16] fits_signed [of v, where 'b = 8]
  by (auto simp: set_fuzzy_long_def dest: scast_of_sint_eq)

lemma set_fuzzy_ulong_iff:
  "set_fuzzy_ulong dd data i DDS_TK_USHORT u = Some data' \<longleftrightarrow> (\<exists>s. unat s = unat u \<and> dd_set_ushort dd data i s = Some data')"
  "set_fuzzy_ulong dd data i DDS_TK_OCTET u = Some data' \<longleftrightarrow> (\<exists>c. unat c = unat u \<and> dd_set_octet dd data i c = Some data')"
  using fits_unsigned [of u, where 'b = 16] fits_unsigned [of u, where 'b = 8]
  by (auto simp: set_fuzzy_ulong_def word_less_nat_alt dest: ucast_of_unat_eq)

lemma set_fuzzy_other:
  "kind \<notin> {DDS_TK_SHORT, DDS_TK_CHAR} \<Longrightarrow> set_fuzzy_long dd data i kind v = dd_set_long dd data i v"
  "kind \<notin> {DDS_TK_USHORT, DDS_TK_OCTET} \<Longrightarrow> set_fuzzy_ulong dd data i kind u = dd_set_ulong dd data i u"
  by (auto simp: set_fuzzy_long_def set_fuzzy_ulong_def split: DDS_TCKind.splits)

section \<open>Properties\<close>

text \<open>
  C26. The setters that narrow an integer to a member of 16 or 8 bits write exactly the number they
  are given, and refuse the numbers that the member cannot hold.
\<close>

theorem fuzzy_setters_exact:
  "(set_fuzzy_long dd data i DDS_TK_SHORT v = Some data' \<longleftrightarrow> (\<exists>s. sint s = sint v \<and> dd_set_short dd data i s = Some data'))
   \<and> (set_fuzzy_long dd data i DDS_TK_CHAR v = Some data' \<longleftrightarrow> (\<exists>c. sint c = sint v \<and> dd_set_char dd data i c = Some data'))
   \<and> (set_fuzzy_ulong dd data i DDS_TK_USHORT u = Some data' \<longleftrightarrow> (\<exists>s. unat s = unat u \<and> dd_set_ushort dd data i s = Some data'))
   \<and> (set_fuzzy_ulong dd data i DDS_TK_OCTET u = Some data' \<longleftrightarrow> (\<exists>c. unat c = unat u \<and> dd_set_octet dd data i c = Some data'))"
  by (intro conjI set_fuzzy_long_iff set_fuzzy_ulong_iff)

text \<open>
  The resolution of a type code yields exactly the type at the end of its chain of aliases.
\<close>

theorem resolve_type_code_iff:
  "resolve_type_code tcs tc = Some (Some (tc', kind)) \<longleftrightarrow> alias_end tcs tc tc' kind"
  by (rule iffI) (rule resolve_type_code_sound, assumption, rule resolve_alias_end)

end
