(* ===== verification/Protobuf_Reflection.thy ===== *)
theory Protobuf_Reflection
  imports Prelude
begin

text \<open>
  What the converters use of the reflection of protobuf messages: fields by name and type,
  and the values of singular and repeated fields. The library is a parameter; its laws are
  those of a message as a collection of named fields.
\<close>

section \<open>Fields and values\<close>

datatype pb_type =
    TYPE_DOUBLE | TYPE_FLOAT | TYPE_INT64 | TYPE_UINT64 | TYPE_INT32 | TYPE_FIXED64 | TYPE_FIXED32
  | TYPE_BOOL | TYPE_STRING | TYPE_GROUP | TYPE_MESSAGE | TYPE_BYTES | TYPE_UINT32 | TYPE_ENUM
  | TYPE_SFIXED32 | TYPE_SFIXED64 | TYPE_SINT32 | TYPE_SINT64

text \<open>
  \<open>f_oneof\<close> is the oneof that contains the field, if any. \<open>f_enum\<close> has the numbers of a closed
  enumeration, one of a proto2 file; \<open>None\<close> stands for an open enumeration, and for the other types.
\<close>

record pb_field =
  f_name :: string
  f_type :: pb_type
  f_repeated :: bool
  f_map :: bool
  f_oneof :: "string option"
  f_enum :: "32 word list option"

definition same_oneof :: "pb_field \<Rightarrow> pb_field \<Rightarrow> bool" where
  "same_oneof f g \<longleftrightarrow> f_oneof f \<noteq> None \<and> f_oneof g = f_oneof f \<and> f_name g \<noteq> f_name f"

text \<open>A value of each C++ type of a field; floating-point numbers are kept as their bits.\<close>

datatype 'm pb_value =
    PV_int32 "32 word" | PV_int64 "64 word" | PV_uint32 "32 word" | PV_uint64 "64 word"
  | PV_float "32 word" | PV_double "64 word" | PV_bool bool | PV_string "byte list"
  | PV_enum "32 word" | PV_message 'm

text \<open>A field of a closed enumeration cannot hold a number that the enumeration does not have.\<close>

fun storable :: "pb_field \<Rightarrow> 'm pb_value \<Rightarrow> bool" where
  "storable f (PV_enum n) = (case f_enum f of None \<Rightarrow> True | Some ns \<Rightarrow> n \<in> set ns)"
| "storable f _ = True"

text \<open>
  \<open>pb_set m f (PV_int32 x)\<close> is \<open>SetInt32\<close>, and so on; a setter for another C++ type than that
  of the field, or for a repeated field, ends the process (\<open>Assertion_Failed\<close>).
  \<open>pb_mutable\<close> and \<open>pb_new_element\<close> give the content of the sub-message that
  \<open>MutableMessage\<close> and \<open>AddMessage\<close> return (\<open>None\<close>: NULL); the sub-message is put back with
  \<open>pb_set\<close> and \<open>pb_add\<close> once it was changed. \<open>pb_enum_number f x\<close> is the number of the
  descriptor that \<open>GetEnum\<close> yields for the stored value \<open>x\<close>.
\<close>

record 'm pb_ops =
  pb_has_descriptor :: "'m \<Rightarrow> bool"
  pb_has_reflection :: "'m \<Rightarrow> bool"
  pb_find_field :: "'m \<Rightarrow> string \<Rightarrow> pb_field option"
  pb_list_fields :: "'m \<Rightarrow> pb_field list"
  pb_has_field :: "'m \<Rightarrow> pb_field \<Rightarrow> bool"
  pb_field_size :: "'m \<Rightarrow> pb_field \<Rightarrow> nat"
  pb_get :: "'m \<Rightarrow> pb_field \<Rightarrow> 'm pb_value"
  pb_get_repeated :: "'m \<Rightarrow> pb_field \<Rightarrow> nat \<Rightarrow> 'm pb_value"
  pb_set :: "'m \<Rightarrow> pb_field \<Rightarrow> 'm pb_value \<Rightarrow> fault + 'm"
  pb_add :: "'m \<Rightarrow> pb_field \<Rightarrow> 'm pb_value \<Rightarrow> fault + 'm"
  pb_mutable :: "'m \<Rightarrow> pb_field \<Rightarrow> fault + 'm option"
  pb_new_element :: "'m \<Rightarrow> pb_field \<Rightarrow> fault + 'm option"
  pb_enum_number :: "pb_field \<Rightarrow> 32 word \<Rightarrow> 32 word option"

text \<open>The values of a repeated field, in order.\<close>

definition pb_elements :: "'m pb_ops \<Rightarrow> 'm \<Rightarrow> pb_field \<Rightarrow> 'm pb_value list" where
  "pb_elements pb m f = map (pb_get_repeated pb m f) [0..<pb_field_size pb m f]"

text \<open>A message in which no field is set.\<close>

definition pb_fresh :: "'m pb_ops \<Rightarrow> 'm \<Rightarrow> bool" where
  "pb_fresh pb m \<longleftrightarrow> (\<forall>f. \<not> pb_has_field pb m f \<and> pb_elements pb m f = [])"

text \<open>What a message holds in a field.\<close>

definition same_field :: "'m pb_ops \<Rightarrow> pb_field \<Rightarrow> 'm \<Rightarrow> 'm \<Rightarrow> bool" where
  "same_field pb f m m' \<longleftrightarrow> pb_get pb m' f = pb_get pb m f \<and> pb_elements pb m' f = pb_elements pb m f
     \<and> pb_has_field pb m' f = pb_has_field pb m f"

text \<open>The C++ type that a field of each type has.\<close>

fun type_matches :: "pb_type \<Rightarrow> 'm pb_value \<Rightarrow> bool" where
  "type_matches t (PV_int32 _) \<longleftrightarrow> t \<in> {TYPE_INT32, TYPE_SINT32, TYPE_SFIXED32}"
| "type_matches t (PV_int64 _) \<longleftrightarrow> t \<in> {TYPE_INT64, TYPE_SINT64, TYPE_SFIXED64}"
| "type_matches t (PV_uint32 _) \<longleftrightarrow> t \<in> {TYPE_UINT32, TYPE_FIXED32}"
| "type_matches t (PV_uint64 _) \<longleftrightarrow> t \<in> {TYPE_UINT64, TYPE_FIXED64}"
| "type_matches t (PV_float _) \<longleftrightarrow> t = TYPE_FLOAT"
| "type_matches t (PV_double _) \<longleftrightarrow> t = TYPE_DOUBLE"
| "type_matches t (PV_bool _) \<longleftrightarrow> t = TYPE_BOOL"
| "type_matches t (PV_string _) \<longleftrightarrow> t \<in> {TYPE_STRING, TYPE_BYTES}"
| "type_matches t (PV_enum _) \<longleftrightarrow> t = TYPE_ENUM"
| "type_matches t (PV_message _) \<longleftrightarrow> t \<in> {TYPE_MESSAGE, TYPE_GROUP}"

section \<open>The contract of a message\<close>

text \<open>
  Setting a singular field and adding to a repeated one succeed exactly for the type of the
  field and leave the descriptor alone. A value that the field can hold is seen by the getters of
  that field. Setting a field clears the other fields of its oneof (\<open>ClearOneof\<close> in
  \<^verbatim>\<open>Reflection::SetField\<close> and \<^verbatim>\<open>Reflection::MutableMessage\<close>), and no other field changes. The
  unknown number of a closed enumeration goes to the unknown fields (\<^verbatim>\<open>message.h\<close>, 623-629), and
  every field stays as it was. A new element is an empty message.
\<close>

locale pb_message =
  fixes pb :: "'m pb_ops"
  assumes find_name: "pb_find_field pb m name = Some f \<Longrightarrow> f_name f = name"
    and set_ok: "type_matches (f_type f) x \<Longrightarrow> \<not> f_repeated f \<Longrightarrow> pb_find_field pb m (f_name f) = Some f \<Longrightarrow>
          \<exists>m'. pb_set pb m f x = Inr m'"
    and set_aborts: "\<not> type_matches (f_type f) x \<or> f_repeated f \<Longrightarrow> pb_set pb m f x = Inl Assertion_Failed"
    and set_get: "pb_set pb m f x = Inr m' \<Longrightarrow> storable f x \<Longrightarrow> pb_get pb m' f = x"
    and set_other: "pb_set pb m f x = Inr m' \<Longrightarrow> pb_find_field pb m (f_name g) = Some g \<Longrightarrow>
          f_name g \<noteq> f_name f \<Longrightarrow> \<not> same_oneof f g \<Longrightarrow> same_field pb g m m'"
    and set_oneof: "pb_set pb m f x = Inr m' \<Longrightarrow> pb_find_field pb m (f_name g) = Some g \<Longrightarrow>
          storable f x \<Longrightarrow> same_oneof f g \<Longrightarrow> \<not> pb_has_field pb m' g \<and> pb_elements pb m' g = []"
    and set_unknown: "pb_set pb m f x = Inr m' \<Longrightarrow> \<not> storable f x \<Longrightarrow> same_field pb g m m'"
    and set_descriptor: "pb_set pb m f x = Inr m' \<Longrightarrow> pb_find_field pb m' = pb_find_field pb m"
    and add_ok: "type_matches (f_type f) x \<Longrightarrow> f_repeated f \<Longrightarrow> pb_find_field pb m (f_name f) = Some f \<Longrightarrow>
          \<exists>m'. pb_add pb m f x = Inr m'"
    and add_aborts: "\<not> type_matches (f_type f) x \<or> \<not> f_repeated f \<Longrightarrow> pb_add pb m f x = Inl Assertion_Failed"
    and add_elements: "pb_add pb m f x = Inr m' \<Longrightarrow>
          pb_elements pb m' f = pb_elements pb m f @ (if storable f x then [x] else [])"
    and add_other: "pb_add pb m f x = Inr m' \<Longrightarrow> f_name g \<noteq> f_name f \<Longrightarrow> same_field pb g m m'"
    and add_descriptor: "pb_add pb m f x = Inr m' \<Longrightarrow> pb_find_field pb m' = pb_find_field pb m"
    and new_element_fresh: "pb_new_element pb m f = Inr (Some c) \<Longrightarrow> pb_fresh pb c"
    and mutable_fresh: "pb_mutable pb m f = Inr (Some c) \<Longrightarrow> \<not> pb_has_field pb m f \<Longrightarrow> pb_fresh pb c"
begin

lemma set_type: "pb_set pb m f x = Inr m' \<Longrightarrow> type_matches (f_type f) x \<and> \<not> f_repeated f"
  using set_aborts [of f x m] by fastforce

lemma add_type: "pb_add pb m f x = Inr m' \<Longrightarrow> type_matches (f_type f) x \<and> f_repeated f"
  using add_aborts [of f x m] by fastforce

end

section \<open>Messages as lists of fields\<close>

text \<open>
  A concrete message, with the presence of every field recorded as in proto2: its descriptor, a list of fields with the descriptors of their
  messages, and for every field name the list of its values.
\<close>

datatype pb_descriptor = Desc "(pb_field \<times> pb_descriptor option) list"

datatype pb_msg = Msg pb_descriptor "(string \<times> pb_msg pb_value list) list"

fun desc_fields :: "pb_descriptor \<Rightarrow> (pb_field \<times> pb_descriptor option) list" where
  "desc_fields (Desc fs) = fs"

fun msg_desc :: "pb_msg \<Rightarrow> pb_descriptor" where
  "msg_desc (Msg d vs) = d"

fun msg_values :: "pb_msg \<Rightarrow> string \<Rightarrow> pb_msg pb_value list" where
  "msg_values (Msg d vs) name = (case map_of vs name of None \<Rightarrow> [] | Some xs \<Rightarrow> xs)"

fun msg_put :: "pb_msg \<Rightarrow> string \<Rightarrow> pb_msg pb_value list \<Rightarrow> pb_msg" where
  "msg_put (Msg d vs) name xs = Msg d ((name, xs) # filter (\<lambda>(n, _). n \<noteq> name) vs)"

definition msg_find :: "pb_msg \<Rightarrow> string \<Rightarrow> pb_field option" where
  "msg_find m name = find (\<lambda>f. f_name f = name) (map fst (desc_fields (msg_desc m)))"

text \<open>The other fields of the oneof of a field lose their values.\<close>

definition oneof_sibling :: "pb_msg \<Rightarrow> pb_field \<Rightarrow> string \<Rightarrow> bool" where
  "oneof_sibling m f name = (case msg_find m name of None \<Rightarrow> False | Some g \<Rightarrow> same_oneof f g)"

definition msg_clear_oneof :: "pb_msg \<Rightarrow> pb_field \<Rightarrow> pb_msg" where
  "msg_clear_oneof m f = (case m of Msg d vs \<Rightarrow> Msg d (filter (\<lambda>(n, _). \<not> oneof_sibling m f n) vs))"

definition msg_set :: "pb_msg \<Rightarrow> pb_field \<Rightarrow> pb_msg pb_value \<Rightarrow> pb_msg" where
  "msg_set m f x = (if storable f x then msg_put (msg_clear_oneof m f) (f_name f) [x] else m)"

definition msg_add :: "pb_msg \<Rightarrow> pb_field \<Rightarrow> pb_msg pb_value \<Rightarrow> pb_msg" where
  "msg_add m f x = (if storable f x then msg_put m (f_name f) (msg_values m (f_name f) @ [x]) else m)"

definition msg_sub :: "pb_msg \<Rightarrow> pb_field \<Rightarrow> pb_msg" where
  "msg_sub m f = (case map_of (desc_fields (msg_desc m)) f of
     Some (Some d) \<Rightarrow> Msg d [] | _ \<Rightarrow> Msg (Desc []) [])"

fun pb_default :: "pb_type \<Rightarrow> 'm \<Rightarrow> 'm pb_value" where
  "pb_default TYPE_DOUBLE m = PV_double 0"
| "pb_default TYPE_FLOAT m = PV_float 0"
| "pb_default TYPE_INT64 m = PV_int64 0"
| "pb_default TYPE_SINT64 m = PV_int64 0"
| "pb_default TYPE_SFIXED64 m = PV_int64 0"
| "pb_default TYPE_UINT64 m = PV_uint64 0"
| "pb_default TYPE_FIXED64 m = PV_uint64 0"
| "pb_default TYPE_INT32 m = PV_int32 0"
| "pb_default TYPE_SINT32 m = PV_int32 0"
| "pb_default TYPE_SFIXED32 m = PV_int32 0"
| "pb_default TYPE_UINT32 m = PV_uint32 0"
| "pb_default TYPE_FIXED32 m = PV_uint32 0"
| "pb_default TYPE_BOOL m = PV_bool False"
| "pb_default TYPE_STRING m = PV_string []"
| "pb_default TYPE_BYTES m = PV_string []"
| "pb_default TYPE_ENUM m = PV_enum 0"
| "pb_default TYPE_MESSAGE m = PV_message m"
| "pb_default TYPE_GROUP m = PV_message m"

definition msg_listed :: "pb_msg \<Rightarrow> pb_field list" where
  "msg_listed m = remdups (filter (\<lambda>f. msg_find m (f_name f) = Some f \<and> msg_values m (f_name f) \<noteq> []
     \<and> int (length (msg_values m (f_name f))) < 2 ^ 31) (map fst (desc_fields (msg_desc m))))"

definition msg_ops :: "pb_msg pb_ops" where
  "msg_ops = \<lparr>
     pb_has_descriptor = (\<lambda>m. True), pb_has_reflection = (\<lambda>m. True),
     pb_find_field = msg_find,
     pb_list_fields = msg_listed,
     pb_has_field = (\<lambda>m f. msg_values m (f_name f) \<noteq> []),
     pb_field_size = (\<lambda>m f. length (msg_values m (f_name f))),
     pb_get = (\<lambda>m f. case msg_values m (f_name f) of [] \<Rightarrow> pb_default (f_type f) (msg_sub m f) | x # _ \<Rightarrow> x),
     pb_get_repeated = (\<lambda>m f i. msg_values m (f_name f) ! i),
     pb_set = (\<lambda>m f x. if type_matches (f_type f) x \<and> \<not> f_repeated f
                        then Inr (msg_set m f x) else Inl Assertion_Failed),
     pb_add = (\<lambda>m f x. if type_matches (f_type f) x \<and> f_repeated f
                        then Inr (msg_add m f x) else Inl Assertion_Failed),
     pb_mutable = (\<lambda>m f. Inr (Some (case msg_values m (f_name f) of PV_message c # _ \<Rightarrow> c | _ \<Rightarrow> msg_sub m f))),
     pb_new_element = (\<lambda>m f. Inr (Some (msg_sub m f))),
     pb_enum_number = (\<lambda>f x. Some x)\<rparr>"

lemma msg_values_put: "msg_values (msg_put m n xs) n' = (if n' = n then xs else msg_values m n')"
proof (cases m)
  case (Msg d vs)
  have "map_of (filter (\<lambda>(k, _). k \<noteq> n) vs) n' = map_of vs n'" if "n' \<noteq> n"
    using that by (induction vs) auto
  then show ?thesis by (simp add: Msg)
qed

lemma msg_desc_put [simp]: "msg_desc (msg_put m n xs) = msg_desc m"
  by (cases m) simp

lemma msg_values_clear:
  "msg_values (msg_clear_oneof m f) n = (if oneof_sibling m f n then [] else msg_values m n)"
proof (cases m)
  case (Msg d vs)
  have "map_of (filter (\<lambda>(k, _). \<not> P k) vs) n = (if P n then None else map_of vs n)" for P :: "string \<Rightarrow> bool"
    by (induction vs) auto
  then show ?thesis by (simp add: msg_clear_oneof_def Msg)
qed

lemma msg_desc_clear [simp]: "msg_desc (msg_clear_oneof m f) = msg_desc m"
  by (cases m) (simp add: msg_clear_oneof_def)

lemma msg_desc_set [simp]: "msg_desc (msg_set m f x) = msg_desc m" "msg_desc (msg_add m f x) = msg_desc m"
  by (simp_all add: msg_set_def msg_add_def)

lemma msg_values_set:
  "msg_values (msg_set m f x) n = (if \<not> storable f x then msg_values m n else if n = f_name f then [x]
     else if oneof_sibling m f n then [] else msg_values m n)"
  by (simp add: msg_set_def msg_values_put msg_values_clear)

lemma msg_values_add:
  "msg_values (msg_add m f x) n = (if n = f_name f \<and> storable f x then msg_values m n @ [x] else msg_values m n)"
  by (simp add: msg_add_def msg_values_put)

lemma msg_sub_keeps [simp]: "msg_sub (msg_set m f x) g = msg_sub m g" "msg_sub (msg_add m f x) g = msg_sub m g"
  by (simp_all add: msg_sub_def)

lemma msg_values_sub [simp]: "msg_values (msg_sub m f) n = []"
  by (simp add: msg_sub_def split: option.split)

lemma msg_elements: "pb_elements msg_ops m f = msg_values m (f_name f)"
  by (simp add: pb_elements_def msg_ops_def map_nth)

lemma msg_find_keeps [simp]: "msg_find (msg_set m f x) = msg_find m" "msg_find (msg_add m f x) = msg_find m"
  by (simp_all add: msg_find_def fun_eq_iff)

interpretation msg: pb_message msg_ops
proof (unfold_locales, goal_cases)
  case (1 m name f)
  then show ?case by (auto simp: msg_ops_def msg_find_def find_Some_iff)
qed (auto simp: msg_elements msg_values_set msg_values_add pb_fresh_def same_field_def,
     auto simp: msg_ops_def msg_values_set msg_values_add oneof_sibling_def same_oneof_def split: if_splits list.splits)

end
