(* ===== verification/Dds_To_Protobuf.thy ===== *)
theory Dds_To_Protobuf
  imports Dynamic_Data_Utils Protobuf_Reflection
begin

text \<open>
  \<^verbatim>\<open>common/protobuf2dds/srcCxx/DdsToProtobuf.cpp\<close> and the converter state of
  \<^verbatim>\<open>ProtobufConverterUtils.hpp\<close>: the members of a DynamicData object are copied, by name, into the
  fields of a protobuf message. The message and the state of the converter are passed
  through every function; a result is a fault or the C++ result with both.
\<close>

section \<open>The state of a converter\<close>

text \<open>
  The scratch buffer, and the cache of DynamicData objects by type code: \<open>Some b\<close> is a cached
  object, bound to a member of another object when \<open>b\<close>. \<open>new_ok\<close> holds the outcomes of the
  coming calls of \<open>DDS_DynamicData_new\<close> (all succeed when it is empty).
\<close>

record 'tc ProtobufConverterState =
  str_buffer :: "byte list"
  dds_data_cache :: "'tc \<rightharpoonup> bool"
  new_ok :: "bool list"

definition initial_state :: "'tc ProtobufConverterState" where
  "initial_state = \<lparr>str_buffer = [], dds_data_cache = Map.empty, new_ok = []\<rparr>"

definition get_cached_dds_data :: "'tc \<Rightarrow> 'tc ProtobufConverterState \<Rightarrow> bool \<times> 'tc ProtobufConverterState" where
  "get_cached_dds_data tc st =
     (case dds_data_cache st tc of
        Some _ \<Rightarrow> (True, st)
      | None \<Rightarrow>
          if new_ok st = [] \<or> hd (new_ok st)
          then (True, st\<lparr>dds_data_cache := (dds_data_cache st)(tc \<mapsto> False), new_ok := tl (new_ok st)\<rparr>)
          else (False, st\<lparr>new_ok := tl (new_ok st)\<rparr>))"

text \<open>\<open>std::string::resize\<close>.\<close>

definition resize :: "nat \<Rightarrow> byte list \<Rightarrow> byte list" where
  "resize n b = take n b @ replicate (n - length b) 0"

lemma length_resize [simp]: "length (resize n b) = n"
  by (simp add: resize_def)

text \<open>The libraries a converter is built on.\<close>

record ('v, 'tc, 's, 'm) converter_lib =
  lib_tc :: "'tc tc_ops"
  lib_dd :: "('v, 'tc, 's) dd_ops"
  lib_pb :: "'m pb_ops"
  lib_seq :: "('s, byte) seq_ops"
  lib_seq_init :: 's

type_synonym ('m, 'tc) conversion = "fault + bool \<times> 'm \<times> 'tc ProtobufConverterState"

text \<open>
  A complex member is read through the cached object of its type: the object is bound,
  \<open>body\<close> runs on the content, and the object is unbound whatever the result.
\<close>

definition with_bound_member ::
  "('v, 'tc, 's, 'm) converter_lib \<Rightarrow> 'tc \<Rightarrow> 'v \<Rightarrow> DDS_DynamicDataMemberId \<Rightarrow>
   ('v \<Rightarrow> 'm \<Rightarrow> 'tc ProtobufConverterState \<Rightarrow> ('m, 'tc) conversion) \<Rightarrow>
   'm \<Rightarrow> 'tc ProtobufConverterState \<Rightarrow> ('m, 'tc) conversion" where
  "with_bound_member lib tc data i body m st =
     (case dd_bind (lib_dd lib) data (dds_data_cache st tc = Some True) i of
        None \<Rightarrow> Inr (False, m, st)
      | Some c \<Rightarrow>
          bindF (body c m (st\<lparr>dds_data_cache := (dds_data_cache st)(tc \<mapsto> True)\<rparr>)) (\<lambda>(ok, m, st).
            let unbound = fst (dd_unbind (lib_dd lib) data i c) in
            Inr (ok, m, st\<lparr>dds_data_cache := (dds_data_cache st)(tc \<mapsto> \<not> unbound)\<rparr>)))"

text \<open>
  A sub-message, obtained from the message with \<open>new\<close>, is filled from the content of the
  bound member; \<open>put\<close> stores it, filled or not.
\<close>

definition fill_sub_message ::
  "('m \<Rightarrow> 'v \<Rightarrow> 'tc ProtobufConverterState \<Rightarrow> ('m, 'tc) conversion) \<Rightarrow> ('m \<Rightarrow> fault + 'm option) \<Rightarrow>
   ('m \<Rightarrow> 'm pb_value \<Rightarrow> fault + 'm) \<Rightarrow> 'v \<Rightarrow> 'm \<Rightarrow> 'tc ProtobufConverterState \<Rightarrow> ('m, 'tc) conversion" where
  "fill_sub_message conv new put c m st =
     bindF (new m) (\<lambda>sub. case sub of
       None \<Rightarrow> Inr (False, m, st)
     | Some sub \<Rightarrow> bindF (conv sub c st) (\<lambda>(ok, sub, st).
         bindF (put m (PV_message sub)) (\<lambda>m. Inr (ok, m, st))))"

section \<open>Scalars and byte strings\<close>

text \<open>
  The value that the protobuf field gets for a member of each kind, \<open>Some None\<close> when the
  member cannot be read and \<open>None\<close> for the kinds that are not scalars. Signed numbers are
  sign-extended, unsigned ones zero-extended, a boolean is true when it is not zero.
\<close>

fun dds_integer_value ::
  "('v, 'tc, 's) dd_ops \<Rightarrow> DDS_TCKind \<Rightarrow> 'v \<Rightarrow> DDS_DynamicDataMemberId \<Rightarrow> 'm pb_value option option" where
  "dds_integer_value dd DDS_TK_ENUM v i = Some (map_option PV_enum (dd_get_long dd v i))"
| "dds_integer_value dd DDS_TK_SHORT v i = Some (map_option (\<lambda>x. PV_int32 (scast x)) (dd_get_short dd v i))"
| "dds_integer_value dd DDS_TK_LONG v i = Some (map_option PV_int32 (dd_get_long dd v i))"
| "dds_integer_value dd DDS_TK_LONGLONG v i = Some (map_option PV_int64 (dd_get_longlong dd v i))"
| "dds_integer_value dd DDS_TK_USHORT v i = Some (map_option (\<lambda>x. PV_uint32 (ucast x)) (dd_get_ushort dd v i))"
| "dds_integer_value dd DDS_TK_ULONG v i = Some (map_option PV_uint32 (dd_get_ulong dd v i))"
| "dds_integer_value dd DDS_TK_ULONGLONG v i = Some (map_option PV_uint64 (dd_get_ulonglong dd v i))"
| "dds_integer_value dd _ v i = None"

fun dds_scalar_value ::
  "('v, 'tc, 's) dd_ops \<Rightarrow> DDS_TCKind \<Rightarrow> 'v \<Rightarrow> DDS_DynamicDataMemberId \<Rightarrow> 'm pb_value option option" where
  "dds_scalar_value dd DDS_TK_FLOAT v i = Some (map_option PV_float (dd_get_float dd v i))"
| "dds_scalar_value dd DDS_TK_DOUBLE v i = Some (map_option PV_double (dd_get_double dd v i))"
| "dds_scalar_value dd DDS_TK_BOOLEAN v i = Some (map_option (\<lambda>x. PV_bool (x \<noteq> 0)) (dd_get_boolean dd v i))"
| "dds_scalar_value dd DDS_TK_CHAR v i = Some (map_option (\<lambda>x. PV_int32 (scast x)) (dd_get_char dd v i))"
| "dds_scalar_value dd DDS_TK_OCTET v i = Some (map_option (\<lambda>x. PV_uint32 (ucast x)) (dd_get_octet dd v i))"
| "dds_scalar_value dd k v i = dds_integer_value dd k v i"

text \<open>
  Reading a string: the buffer is offered with the size \<open>n\<close>, grown when it is too small, and
  its first \<open>length - 1\<close> bytes are the value. \<open>Inr None\<close>: the getter failed.
\<close>

definition RTI_TSFM_STR_BUFFER_INITIAL_SIZE :: nat where
  "RTI_TSFM_STR_BUFFER_INITIAL_SIZE = 128"

definition store :: "byte list \<Rightarrow> byte list \<Rightarrow> byte list" where
  "store bytes b = bytes @ drop (length bytes) b"

definition get_string_retry ::
  "('v, 'tc, 's) dd_ops \<Rightarrow> 'v \<Rightarrow> DDS_DynamicDataMemberId \<Rightarrow> DDS_UnsignedLong \<Rightarrow> byte list \<Rightarrow>
   fault + (byte list option \<times> DDS_UnsignedLong \<times> byte list)" where
  "get_string_retry dd v i n b =
     (let (r, bytes, n) = dd_get_string dd v i n; b = store bytes b;
          (r, n, b) = (if r = DDS_RETCODE_PRECONDITION_NOT_MET
             then let b = resize (unat n) b; (r, bytes, n) = dd_get_string dd v i n in (r, n, store bytes b)
             else (r, n, b)) in
      if r \<noteq> DDS_RETCODE_OK then Inr (None, n, b)
      else if unat (n - 1) > length b then Inl Out_Of_Bounds
      else Inr (Some (take (unat (n - 1)) b), n, b))"

definition initial_buffer :: "byte list \<Rightarrow> byte list" where
  "initial_buffer b = (if b = [] then resize RTI_TSFM_STR_BUFFER_INITIAL_SIZE b else b)"

text \<open>Reading a sequence of octets into the buffer, through a sequence that borrows it.\<close>

definition get_octets ::
  "('v, 'tc, 's, 'm) converter_lib \<Rightarrow> 'v \<Rightarrow> DDS_DynamicDataMemberId \<Rightarrow> DDS_UnsignedLong \<Rightarrow> 's \<Rightarrow> byte list \<Rightarrow>
   bool \<times> 's \<times> byte list" where
  "get_octets lib v i n s b =
     (let b = resize (unat n) b; (ok, s) = seq_loan_contiguous (lib_seq lib) s b 0 n in
      if \<not> ok then (False, s, b)
      else let (ok, s) = dd_get_octet_seq (lib_dd lib) v i s in
           (ok, s, case seq_buffer (lib_seq lib) s of None \<Rightarrow> b | Some b \<Rightarrow> b))"

section \<open>Singular members\<close>

text \<open>\<open>conv\<close> is the conversion of nested messages.\<close>

definition set_or_fail ::
  "'m pb_ops \<Rightarrow> 'm \<Rightarrow> pb_field \<Rightarrow> 'm pb_value option \<Rightarrow> 'tc ProtobufConverterState \<Rightarrow> ('m, 'tc) conversion" where
  "set_or_fail pb m f x st =
     (case x of None \<Rightarrow> Inr (False, m, st) | Some x \<Rightarrow> bindF (pb_set pb m f x) (\<lambda>m. Inr (True, m, st)))"

definition dds_singular_member_to_pb ::
  "('v, 'tc, 's, 'm) converter_lib \<Rightarrow> ('m \<Rightarrow> 'v \<Rightarrow> 'tc ProtobufConverterState \<Rightarrow> ('m, 'tc) conversion) \<Rightarrow>
   'tc ProtobufConverterState \<Rightarrow> 'v \<Rightarrow> DDS_DynamicDataMemberInfo \<Rightarrow> 'tc \<Rightarrow> DDS_TCKind \<Rightarrow> 'm \<Rightarrow> pb_field \<Rightarrow>
   ('m, 'tc) conversion" where
  "dds_singular_member_to_pb lib conv st v info tc kind m f =
     (if kind \<in> {DDS_TK_STRUCT, DDS_TK_VALUE} then
        let (ok, st) = get_cached_dds_data tc st in
        if \<not> ok then Inr (False, m, st)
        else with_bound_member lib tc v (member_id info)
          (fill_sub_message conv (\<lambda>m. pb_mutable (lib_pb lib) m f) (\<lambda>m. pb_set (lib_pb lib) m f)) m st
      else if kind = DDS_TK_STRING then
        let b = initial_buffer (str_buffer st) in
        bindF (get_string_retry (lib_dd lib) v (member_id info) (word_of_nat (length b)) b) (\<lambda>(x, _, b).
          set_or_fail (lib_pb lib) m f (map_option PV_string x) (st\<lparr>str_buffer := b\<rparr>))
      else if kind = DDS_TK_SEQUENCE then
        let (ok, _, b) = get_octets lib v (member_id info) (element_count info) (lib_seq_init lib) (str_buffer st) in
        set_or_fail (lib_pb lib) m f (if ok then Some (PV_string b) else None) (st\<lparr>str_buffer := b\<rparr>)
      else
        (case dds_scalar_value (lib_dd lib) kind v (member_id info) of
           None \<Rightarrow> Inr (False, m, st)
         | Some x \<Rightarrow> set_or_fail (lib_pb lib) m f x st))"

section \<open>Collections\<close>

text \<open>
  A loop over the elements of a collection: element \<open>i\<close> is the member with id \<open>i + 1\<close>. A step
  that fails ends the loop.
\<close>

fun each_element ::
  "(nat \<Rightarrow> 'm \<Rightarrow> 'st \<Rightarrow> fault + bool \<times> 'm \<times> 'st) \<Rightarrow> nat \<Rightarrow> nat \<Rightarrow> 'm \<Rightarrow> 'st \<Rightarrow> fault + bool \<times> 'm \<times> 'st" where
  "each_element step i 0 m st = Inr (True, m, st)"
| "each_element step i (Suc n) m st =
     bindF (step i m st) (\<lambda>(ok, m, st). if ok then each_element step (Suc i) n m st else Inr (False, m, st))"

definition add_or_fail ::
  "'m pb_ops \<Rightarrow> 'm \<Rightarrow> pb_field \<Rightarrow> 'm pb_value option \<Rightarrow> 'st \<Rightarrow> fault + bool \<times> 'm \<times> 'st" where
  "add_or_fail pb m f x st =
     (case x of None \<Rightarrow> Inr (False, m, st) | Some x \<Rightarrow> bindF (pb_add pb m f x) (\<lambda>m. Inr (True, m, st)))"

definition element_id :: "nat \<Rightarrow> DDS_DynamicDataMemberId" where
  "element_id i = word_of_nat (i + 1)"

definition add_message ::
  "('v, 'tc, 's, 'm) converter_lib \<Rightarrow> ('m \<Rightarrow> 'v \<Rightarrow> 'tc ProtobufConverterState \<Rightarrow> ('m, 'tc) conversion) \<Rightarrow>
   'tc \<Rightarrow> 'v \<Rightarrow> pb_field \<Rightarrow> nat \<Rightarrow> 'm \<Rightarrow> 'tc ProtobufConverterState \<Rightarrow> ('m, 'tc) conversion" where
  "add_message lib conv el_tc c f i =
     with_bound_member lib el_tc c (element_id i)
       (fill_sub_message conv (\<lambda>m. pb_new_element (lib_pb lib) m f) (\<lambda>m. pb_add (lib_pb lib) m f))"

text \<open>The strings of a collection share the length variable, which every call overwrites.\<close>

definition add_string ::
  "('v, 'tc, 's, 'm) converter_lib \<Rightarrow> 'v \<Rightarrow> pb_field \<Rightarrow> nat \<Rightarrow> 'm \<Rightarrow> DDS_UnsignedLong \<times> byte list \<Rightarrow>
   fault + bool \<times> 'm \<times> (DDS_UnsignedLong \<times> byte list)" where
  "add_string lib c f i m = (\<lambda>(n, b).
     bindF (get_string_retry (lib_dd lib) c (element_id i) n b) (\<lambda>(x, n, b).
       add_or_fail (lib_pb lib) m f (map_option PV_string x) (n, b)))"

definition add_bytes ::
  "('v, 'tc, 's, 'm) converter_lib \<Rightarrow> 'v \<Rightarrow> pb_field \<Rightarrow> nat \<Rightarrow> 'm \<Rightarrow> 's \<times> byte list \<Rightarrow>
   fault + bool \<times> 'm \<times> ('s \<times> byte list)" where
  "add_bytes lib c f i m = (\<lambda>(s, b).
     case dd_get_member_info_by_index (lib_dd lib) c (word_of_nat i) of
       None \<Rightarrow> Inr (False, m, (s, b))
     | Some info \<Rightarrow>
         let b = resize (unat (element_count info)) b;
             (ok, s) = seq_loan_contiguous (lib_seq lib) s b 0 (element_count info) in
         if \<not> ok then Inr (False, m, (s, b))
         else
           let (ok, s) = dd_get_octet_seq (lib_dd lib) c (element_id i) s;
               b = (case seq_buffer (lib_seq lib) s of None \<Rightarrow> b | Some b \<Rightarrow> b) in
           bindF (add_or_fail (lib_pb lib) m f (if ok then Some (PV_string b) else None) ()) (\<lambda>(ok, m, _).
             Inr (ok, m, (snd (seq_unloan (lib_seq lib) s), b))))"

definition add_scalar ::
  "('v, 'tc, 's, 'm) converter_lib \<Rightarrow> DDS_TCKind \<Rightarrow> 'v \<Rightarrow> pb_field \<Rightarrow> nat \<Rightarrow> 'm \<Rightarrow> 'st \<Rightarrow> fault + bool \<times> 'm \<times> 'st" where
  "add_scalar lib el_kind c f i m st =
     (case dds_scalar_value (lib_dd lib) el_kind c (element_id i) of
        None \<Rightarrow> Inr (False, m, st) | Some x \<Rightarrow> add_or_fail (lib_pb lib) m f x st)"

definition dds_collection_elements ::
  "('v, 'tc, 's, 'm) converter_lib \<Rightarrow> ('m \<Rightarrow> 'v \<Rightarrow> 'tc ProtobufConverterState \<Rightarrow> ('m, 'tc) conversion) \<Rightarrow>
   nat \<Rightarrow> 'tc \<Rightarrow> DDS_TCKind \<Rightarrow> pb_field \<Rightarrow> 'v \<Rightarrow> 'm \<Rightarrow> 'tc ProtobufConverterState \<Rightarrow> ('m, 'tc) conversion" where
  "dds_collection_elements lib conv n el_tc el_kind f c m st =
     (if el_kind \<in> {DDS_TK_STRUCT, DDS_TK_VALUE} then
        let (ok, st) = get_cached_dds_data el_tc st in
        if \<not> ok then Inr (False, m, st) else each_element (add_message lib conv el_tc c f) 0 n m st
      else if el_kind = DDS_TK_STRING then
        let b = initial_buffer (str_buffer st) in
        bindF (each_element (add_string lib c f) 0 n m (word_of_nat (length b), b)) (\<lambda>(ok, m, (_, b)).
          Inr (ok, m, st\<lparr>str_buffer := b\<rparr>))
      else if el_kind = DDS_TK_SEQUENCE then
        bindF (each_element (add_bytes lib c f) 0 n m (lib_seq_init lib, str_buffer st)) (\<lambda>(ok, m, (_, b)).
          Inr (ok, m, st\<lparr>str_buffer := b\<rparr>))
      else each_element (add_scalar lib el_kind c f) 0 n m st)"

definition dds_collection_member_to_pb ::
  "('v, 'tc, 's, 'm) converter_lib \<Rightarrow> ('m \<Rightarrow> 'v \<Rightarrow> 'tc ProtobufConverterState \<Rightarrow> ('m, 'tc) conversion) \<Rightarrow>
   'tc ProtobufConverterState \<Rightarrow> 'v \<Rightarrow> DDS_DynamicDataMemberInfo \<Rightarrow> 'tc \<Rightarrow> 'm \<Rightarrow> pb_field \<Rightarrow> ('m, 'tc) conversion" where
  "dds_collection_member_to_pb lib conv st v info tc m f =
     (if element_count info = 0 then Inr (True, m, st)
      else
        let (ok, st) = get_cached_dds_data tc st in
        if \<not> ok then Inr (False, m, st)
        else with_bound_member lib tc v (member_id info) (\<lambda>c m st.
          case tc_content_type (lib_tc lib) tc of
            None \<Rightarrow> Inr (False, m, st)
          | Some el_tc \<Rightarrow>
              (case resolve_type_code (lib_tc lib) el_tc of
                 None \<Rightarrow> Inl Stack_Overflow
               | Some None \<Rightarrow> Inr (False, m, st)
               | Some (Some (el_tc, el_kind)) \<Rightarrow>
                   dds_collection_elements lib conv (unat (element_count info)) el_tc el_kind f c m st)) m st)"

section \<open>Messages\<close>

definition singular_kinds :: "DDS_TCKind set" where
  "singular_kinds = {DDS_TK_STRUCT, DDS_TK_VALUE, DDS_TK_ENUM, DDS_TK_SHORT, DDS_TK_LONG, DDS_TK_LONGLONG,
     DDS_TK_USHORT, DDS_TK_ULONG, DDS_TK_ULONGLONG, DDS_TK_FLOAT, DDS_TK_DOUBLE, DDS_TK_BOOLEAN, DDS_TK_CHAR,
     DDS_TK_OCTET, DDS_TK_STRING}"

definition dds_member_to_pb ::
  "('v, 'tc, 's, 'm) converter_lib \<Rightarrow> ('m \<Rightarrow> 'v \<Rightarrow> 'tc ProtobufConverterState \<Rightarrow> ('m, 'tc) conversion) \<Rightarrow>
   'v \<Rightarrow> nat \<Rightarrow> 'm \<Rightarrow> 'tc ProtobufConverterState \<Rightarrow> ('m, 'tc) conversion" where
  "dds_member_to_pb lib conv v i m st =
     (case dd_get_member_info_by_index (lib_dd lib) v (word_of_nat i) of
        None \<Rightarrow> Inr (False, m, st)
      | Some info \<Rightarrow>
          if \<not> dd_member_exists (lib_dd lib) v (member_id info) then Inr (True, m, st)
          else
            (case dd_get_member_type (lib_dd lib) v (member_id info) of
               None \<Rightarrow> Inr (False, m, st)
             | Some tc \<Rightarrow>
                 (case resolve_type_code (lib_tc lib) tc of
                    None \<Rightarrow> Inl Stack_Overflow
                  | Some None \<Rightarrow> Inr (False, m, st)
                  | Some (Some (tc, kind)) \<Rightarrow>
                      (case pb_find_field (lib_pb lib) m (member_name info) of
                         None \<Rightarrow> Inr (False, m, st)
                       | Some f \<Rightarrow>
                           if kind \<in> {DDS_TK_ARRAY, DDS_TK_SEQUENCE} then
                             if f_type f = TYPE_BYTES \<and> element_kind info = DDS_TK_OCTET
                             then dds_singular_member_to_pb lib conv st v info tc kind m f
                             else dds_collection_member_to_pb lib conv st v info tc m f
                           else if kind \<in> singular_kinds
                           then dds_singular_member_to_pb lib conv st v info tc kind m f
                           else Inr (False, m, st)))))"

text \<open>
  The conversion of a message. The nesting of messages is bounded by the depth \<open>n\<close>, the
  room on the stack of the process.
\<close>

fun dds_to_protobuf ::
  "('v, 'tc, 's, 'm) converter_lib \<Rightarrow> nat \<Rightarrow> 'm \<Rightarrow> 'v \<Rightarrow> 'tc ProtobufConverterState \<Rightarrow> ('m, 'tc) conversion" where
  "dds_to_protobuf lib 0 m v st = Inl Stack_Overflow"
| "dds_to_protobuf lib (Suc n) m v st =
     (if \<not> pb_has_descriptor (lib_pb lib) m \<or> \<not> pb_has_reflection (lib_pb lib) m then Inr (False, m, st)
      else
        (case dd_get_type (lib_dd lib) v of
           None \<Rightarrow> Inr (False, m, st)
         | Some tc \<Rightarrow>
             if tc_name (lib_tc lib) tc = None then Inr (False, m, st)
             else if dd_get_type_kind (lib_dd lib) v \<notin> {DDS_TK_STRUCT, DDS_TK_VALUE, DDS_TK_ALIAS}
             then Inr (False, m, st)
             else
               (case resolve_type_code (lib_tc lib) tc of
                  None \<Rightarrow> Inl Stack_Overflow
                | Some None \<Rightarrow> Inr (False, m, st)
                | Some (Some _) \<Rightarrow>
                    each_element (dds_member_to_pb lib (dds_to_protobuf lib n) v) 0
                      (unat (dd_get_member_count (lib_dd lib) v)) m st)))"

end
