(* ===== verification/Protobuf_To_Dds.thy ===== *)
theory Protobuf_To_Dds
  imports Dds_To_Protobuf
begin

text \<open>
  \<^verbatim>\<open>common/protobuf2dds/srcCxx/ProtobufToDds.cpp\<close>: the fields that are set in a protobuf message are
  copied, by name, into the members of a DynamicData object. The content of the object and
  the state of the converter are passed through every function.
\<close>

type_synonym ('v, 'tc) reading = "fault + bool \<times> 'v \<times> 'tc ProtobufConverterState"

section \<open>Values\<close>

text \<open>The result of a setter: the new content, or the old one when it failed.\<close>

definition set_result :: "'v \<Rightarrow> 'v option \<Rightarrow> fault + bool \<times> 'v" where
  "set_result v r = Inr (case r of None \<Rightarrow> (False, v) | Some v' \<Rightarrow> (True, v'))"

text \<open>The bytes of a C++ string as its nul-terminated \<open>c_str\<close>, and cut to a 32-bit length.\<close>

definition c_str_bytes :: "byte list \<Rightarrow> byte list" where
  "c_str_bytes s = takeWhile (\<lambda>c. c \<noteq> 0) s"

definition sized_bytes :: "byte list \<Rightarrow> byte list" where
  "sized_bytes s = take (unat (word_of_nat (length s) :: DDS_UnsignedLong)) s"

text \<open>
  The member \<open>i\<close>, whose type \<open>tc\<close> is of the given kind, gets the value of the field. The
  getter is the one for the type of the field, and the library yields a value of that type.
\<close>

definition pb_number_to_dds ::
  "('v, 'tc, 's) dd_ops \<Rightarrow> pb_field \<Rightarrow> 'v \<Rightarrow> DDS_DynamicDataMemberId \<Rightarrow> DDS_TCKind \<Rightarrow> 'm pb_value \<Rightarrow>
   fault + bool \<times> 'v" where
  "pb_number_to_dds dd f v i kind x =
     (if f_type f = TYPE_DOUBLE then
        (case x of PV_double d \<Rightarrow> set_result v (dd_set_double dd v i d) | _ \<Rightarrow> Inl Assertion_Failed)
      else if f_type f = TYPE_FLOAT then
        (case x of PV_float d \<Rightarrow> set_result v (dd_set_float dd v i d) | _ \<Rightarrow> Inl Assertion_Failed)
      else if f_type f \<in> {TYPE_INT64, TYPE_SFIXED64, TYPE_SINT64} then
        (case x of PV_int64 n \<Rightarrow> set_result v (dd_set_longlong dd v i n) | _ \<Rightarrow> Inl Assertion_Failed)
      else if f_type f \<in> {TYPE_UINT64, TYPE_FIXED64} then
        (case x of PV_uint64 n \<Rightarrow> set_result v (dd_set_ulonglong dd v i n) | _ \<Rightarrow> Inl Assertion_Failed)
      else if f_type f \<in> {TYPE_INT32, TYPE_SFIXED32, TYPE_SINT32} then
        (case x of PV_int32 n \<Rightarrow> set_result v (set_fuzzy_long dd v i kind n) | _ \<Rightarrow> Inl Assertion_Failed)
      else if f_type f \<in> {TYPE_UINT32, TYPE_FIXED32} then
        (case x of PV_uint32 n \<Rightarrow> set_result v (set_fuzzy_ulong dd v i kind n) | _ \<Rightarrow> Inl Assertion_Failed)
      else if f_type f = TYPE_BOOL then
        (case x of PV_bool b \<Rightarrow> set_result v (dd_set_boolean dd v i (if b then 1 else 0)) | _ \<Rightarrow> Inl Assertion_Failed)
      else Inr (False, v))"

definition pb_scalar_to_dds ::
  "('v, 'tc, 's, 'm) converter_lib \<Rightarrow> pb_field \<Rightarrow> 'v \<Rightarrow> DDS_DynamicDataMemberId \<Rightarrow> 'tc \<Rightarrow> DDS_TCKind \<Rightarrow> 'm pb_value \<Rightarrow>
   fault + bool \<times> 'v" where
  "pb_scalar_to_dds lib f v i tc kind x =
     (if f_type f = TYPE_STRING then
        (case x of PV_string s \<Rightarrow> set_result v (dd_set_string (lib_dd lib) v i (c_str_bytes s))
         | _ \<Rightarrow> Inl Assertion_Failed)
      else if f_type f = TYPE_BYTES then
        (case x of PV_string s \<Rightarrow>
           (case set_fuzzy_bytes (lib_tc lib) (lib_dd lib) v i tc (sized_bytes s) of
              None \<Rightarrow> Inl Stack_Overflow
            | Some r \<Rightarrow> set_result v r)
         | _ \<Rightarrow> Inl Assertion_Failed)
      else if f_type f = TYPE_ENUM then
        (case x of PV_enum e \<Rightarrow>
           (case pb_enum_number (lib_pb lib) f e of
              None \<Rightarrow> Inr (False, v)
            | Some n \<Rightarrow> set_result v (dd_set_long (lib_dd lib) v i n))
         | _ \<Rightarrow> Inl Assertion_Failed)
      else pb_number_to_dds (lib_dd lib) f v i kind x)"

section \<open>Nested messages\<close>

text \<open>
  A complex member is written through the cached object of its type; when the object is
  unbound, the member has its content, converted or not.
\<close>

definition write_bound_member ::
  "('v, 'tc, 's, 'm) converter_lib \<Rightarrow> 'tc \<Rightarrow> DDS_DynamicDataMemberId \<Rightarrow>
   ('v \<Rightarrow> 'tc ProtobufConverterState \<Rightarrow> ('v, 'tc) reading) \<Rightarrow>
   'v \<Rightarrow> 'tc ProtobufConverterState \<Rightarrow> ('v, 'tc) reading" where
  "write_bound_member lib tc i body v st =
     (case dd_bind (lib_dd lib) v (dds_data_cache st tc = Some True) i of
        None \<Rightarrow> Inr (False, v, st)
      | Some c \<Rightarrow>
          bindF (body c (st\<lparr>dds_data_cache := (dds_data_cache st)(tc \<mapsto> True)\<rparr>)) (\<lambda>(ok, c, st).
            let (unbound, v) = dd_unbind (lib_dd lib) v i c in
            Inr (ok, v, st\<lparr>dds_data_cache := (dds_data_cache st)(tc \<mapsto> \<not> unbound)\<rparr>)))"

definition pb_message_to_dds ::
  "('v \<Rightarrow> 'm \<Rightarrow> 'tc ProtobufConverterState \<Rightarrow> ('v, 'tc) reading) \<Rightarrow> 'm pb_value \<Rightarrow>
   'v \<Rightarrow> 'tc ProtobufConverterState \<Rightarrow> ('v, 'tc) reading" where
  "pb_message_to_dds conv x c st =
     (case x of PV_message sub \<Rightarrow> conv c sub st | _ \<Rightarrow> Inl Assertion_Failed)"

section \<open>Fields\<close>

definition pb_singular_field_to_dds ::
  "('v, 'tc, 's, 'm) converter_lib \<Rightarrow> ('v \<Rightarrow> 'm \<Rightarrow> 'tc ProtobufConverterState \<Rightarrow> ('v, 'tc) reading) \<Rightarrow>
   'tc ProtobufConverterState \<Rightarrow> 'v \<Rightarrow> DDS_DynamicDataMemberInfo \<Rightarrow> 'tc \<Rightarrow> DDS_TCKind \<Rightarrow> 'm \<Rightarrow> pb_field \<Rightarrow>
   ('v, 'tc) reading" where
  "pb_singular_field_to_dds lib conv st v info tc kind m f =
     (if \<not> pb_has_field (lib_pb lib) m f then Inr (True, v, st)
      else if f_type f \<in> {TYPE_GROUP, TYPE_MESSAGE} then
        let (ok, st) = get_cached_dds_data tc st in
        if \<not> ok then Inr (False, v, st)
        else write_bound_member lib tc (member_id info) (pb_message_to_dds conv (pb_get (lib_pb lib) m f)) v st
      else
        bindF (pb_scalar_to_dds lib f v (member_id info) tc kind (pb_get (lib_pb lib) m f)) (\<lambda>(ok, v). Inr (ok, v, st)))"

definition pb_element_to_dds ::
  "('v, 'tc, 's, 'm) converter_lib \<Rightarrow> 'tc \<Rightarrow> DDS_TCKind \<Rightarrow> 'm \<Rightarrow> pb_field \<Rightarrow> nat \<Rightarrow>
   'v \<Rightarrow> 'tc ProtobufConverterState \<Rightarrow> ('v, 'tc) reading" where
  "pb_element_to_dds lib el_tc el_kind m f j c st =
     bindF (pb_scalar_to_dds lib f c (element_id j) el_tc el_kind (pb_get_repeated (lib_pb lib) m f j))
       (\<lambda>(ok, c). Inr (ok, c, st))"

definition pb_repeated_elements ::
  "('v, 'tc, 's, 'm) converter_lib \<Rightarrow> ('v \<Rightarrow> 'm \<Rightarrow> 'tc ProtobufConverterState \<Rightarrow> ('v, 'tc) reading) \<Rightarrow>
   'tc \<Rightarrow> DDS_TCKind \<Rightarrow> 'm \<Rightarrow> pb_field \<Rightarrow> 'v \<Rightarrow> 'tc ProtobufConverterState \<Rightarrow> ('v, 'tc) reading" where
  "pb_repeated_elements lib conv el_tc el_kind m f c st =
     (if f_map f \<or> f_type f \<in> {TYPE_MESSAGE, TYPE_GROUP} then
        let (ok, st) = get_cached_dds_data el_tc st in
        if \<not> ok then Inr (False, c, st)
        else each_element (\<lambda>j. write_bound_member lib el_tc (element_id j)
               (pb_message_to_dds conv (pb_get_repeated (lib_pb lib) m f j))) 0 (pb_field_size (lib_pb lib) m f) c st
      else each_element (pb_element_to_dds lib el_tc el_kind m f) 0 (pb_field_size (lib_pb lib) m f) c st)"

definition pb_repeated_field_to_dds ::
  "('v, 'tc, 's, 'm) converter_lib \<Rightarrow> ('v \<Rightarrow> 'm \<Rightarrow> 'tc ProtobufConverterState \<Rightarrow> ('v, 'tc) reading) \<Rightarrow>
   'tc ProtobufConverterState \<Rightarrow> 'v \<Rightarrow> DDS_DynamicDataMemberInfo \<Rightarrow> 'tc \<Rightarrow> 'm \<Rightarrow> pb_field \<Rightarrow> ('v, 'tc) reading" where
  "pb_repeated_field_to_dds lib conv st v info tc m f =
     (if pb_field_size (lib_pb lib) m f = 0 then Inr (True, v, st)
      else
        let (ok, st) = get_cached_dds_data tc st in
        if \<not> ok then Inr (False, v, st)
        else write_bound_member lib tc (member_id info) (\<lambda>c st.
          case tc_content_type (lib_tc lib) tc of
            None \<Rightarrow> Inr (False, c, st)
          | Some el_tc \<Rightarrow>
              (case resolve_type_code (lib_tc lib) el_tc of
                 None \<Rightarrow> Inl Stack_Overflow
               | Some None \<Rightarrow> Inr (False, c, st)
               | Some (Some (el_tc, el_kind)) \<Rightarrow> pb_repeated_elements lib conv el_tc el_kind m f c st)) v st)"

section \<open>Messages\<close>

definition pb_field_to_dds ::
  "('v, 'tc, 's, 'm) converter_lib \<Rightarrow> ('v \<Rightarrow> 'm \<Rightarrow> 'tc ProtobufConverterState \<Rightarrow> ('v, 'tc) reading) \<Rightarrow>
   'm \<Rightarrow> pb_field list \<Rightarrow> nat \<Rightarrow> 'v \<Rightarrow> 'tc ProtobufConverterState \<Rightarrow> ('v, 'tc) reading" where
  "pb_field_to_dds lib conv m pb_fields i v st =
     (let f = pb_fields ! i in
      case get_member_info (lib_tc lib) (lib_dd lib) v (f_name f) of
        None \<Rightarrow> Inl Stack_Overflow
      | Some None \<Rightarrow> Inr (False, v, st)
      | Some (Some (info, tc, kind)) \<Rightarrow>
          if f_repeated f \<or> f_map f
          then pb_repeated_field_to_dds lib conv st v info tc m f
          else pb_singular_field_to_dds lib conv st v info tc kind m f)"

fun protobuf_to_dds ::
  "('v, 'tc, 's, 'm) converter_lib \<Rightarrow> nat \<Rightarrow> 'v \<Rightarrow> 'm \<Rightarrow> 'tc ProtobufConverterState \<Rightarrow> ('v, 'tc) reading" where
  "protobuf_to_dds lib 0 v m st = Inl Stack_Overflow"
| "protobuf_to_dds lib (Suc n) v m st =
     (if \<not> pb_has_descriptor (lib_pb lib) m \<or> \<not> pb_has_reflection (lib_pb lib) m then Inr (False, v, st)
      else
        let pb_fields = pb_list_fields (lib_pb lib) m in
        each_element (pb_field_to_dds lib (protobuf_to_dds lib n) m pb_fields) 0 (length pb_fields) v st)"

end
