(* ===== verification/Dds_To_Protobuf_Correct.thy ===== *)
theory Dds_To_Protobuf_Correct
  imports Dds_To_Protobuf
begin

text \<open>
  The correctness of the conversion to protobuf: a specification of when a message carries
  the data of a DynamicData object, the contract of the libraries, and the proof that a
  successful conversion yields such a message.
\<close>

section \<open>Loops over members and elements\<close>

lemma each_element_invariant:
  assumes "each_element step i n m st = Inr (True, m', st')" and "J i m st"
    and "\<And>k m st m1 st1. i \<le> k \<Longrightarrow> k < i + n \<Longrightarrow> J k m st \<Longrightarrow> step k m st = Inr (True, m1, st1) \<Longrightarrow> J (Suc k) m1 st1"
  shows "J (i + n) m' st'"
  using assms
proof (induction n arbitrary: i m st)
  case 0
  then show ?case by simp
next
  case (Suc n)
  from Suc.prems(1) obtain m1 st1 where s: "step i m st = Inr (True, m1, st1)"
    and r: "each_element step (Suc i) n m1 st1 = Inr (True, m', st')"
    by (auto simp: bindF_eq_Inr split: if_splits)
  have "J (Suc i) m1 st1" using Suc.prems(3) [OF _ _ Suc.prems(2) s] by simp
  then have "J (Suc i + n) m' st'" using Suc.prems(3) by (intro Suc.IH [OF r]) auto
  then show ?case by simp
qed

text \<open>What every step keeps of the state, the loop keeps, whatever its result.\<close>

lemma each_element_keeps:
  assumes "each_element step i n m st = Inr (ok, m', st')" and "\<And>st. rel st st"
    and "\<And>a b c. rel a b \<Longrightarrow> rel b c \<Longrightarrow> rel a c"
    and "\<And>k m st ok m1 st1. step k m st = Inr (ok, m1, st1) \<Longrightarrow> rel st st1"
  shows "rel st st'"
  using assms(1)
proof (induction n arbitrary: i m st)
  case 0
  then show ?case using assms(2) by simp
next
  case (Suc n)
  from Suc.prems obtain ok1 m1 st1 where s: "step i m st = Inr (ok1, m1, st1)"
    and r: "(if ok1 then each_element step (Suc i) n m1 st1 else Inr (False, m1, st1)) = Inr (ok, m', st')"
    by (auto simp: bindF_eq_Inr)
  have "rel st1 st'" using r Suc.IH assms(2) by (cases ok1) auto
  then show ?case using assms(3,4) s by blast
qed

section \<open>Bound objects\<close>

text \<open>
  The type codes whose cached object is bound. The DynamicData API refuses to bind an object
  that is bound, and unbinding succeeds.
\<close>

definition bound_types :: "'tc ProtobufConverterState \<Rightarrow> 'tc set" where
  "bound_types st = {tc. dds_data_cache st tc = Some True}"

definition bind_laws :: "('v, 'tc, 's) dd_ops \<Rightarrow> bool" where
  "bind_laws dd \<longleftrightarrow> (\<forall>v i. dd_bind dd v True i = None) \<and> (\<forall>v i c. fst (dd_unbind dd v i c))"

definition keeps_bound ::
  "('a \<Rightarrow> 'tc ProtobufConverterState \<Rightarrow> fault + bool \<times> 'm \<times> 'tc ProtobufConverterState) \<Rightarrow> bool" where
  "keeps_bound conv \<longleftrightarrow> (\<forall>a st ok m st'. conv a st = Inr (ok, m, st') \<longrightarrow> bound_types st' = bound_types st)"

lemma keeps_boundD: "keeps_bound conv \<Longrightarrow> conv a st = Inr (ok, m, st') \<Longrightarrow> bound_types st' = bound_types st"
  by (simp add: keeps_bound_def)

lemma bound_types_buffer [simp]: "bound_types (st\<lparr>str_buffer := b\<rparr>) = bound_types st"
  by (simp add: bound_types_def)

lemma get_cached_bound: "get_cached_dds_data tc st = (ok, st') \<Longrightarrow> bound_types st' = bound_types st"
  by (auto simp: get_cached_dds_data_def bound_types_def split: option.splits if_splits)

lemma with_bound_member_keeps:
  assumes "bind_laws (lib_dd lib)" and "\<And>c. keeps_bound (body c)"
    and "with_bound_member lib tc v i body m st = Inr (ok, m', st')"
  shows "bound_types st' = bound_types st"
proof (cases "dds_data_cache st tc = Some True")
  case True
  then show ?thesis using assms(1,3) by (simp add: with_bound_member_def bind_laws_def)
next
  case False
  show ?thesis
  proof (cases "dd_bind (lib_dd lib) v False i")
    case None
    then show ?thesis using assms(3) False by (simp add: with_bound_member_def)
  next
    case (Some c)
    obtain st1 where b: "body c m (st\<lparr>dds_data_cache := (dds_data_cache st)(tc \<mapsto> True)\<rparr>) = Inr (ok, m', st1)"
      and st': "st' = st1\<lparr>dds_data_cache := (dds_data_cache st1)(tc \<mapsto> False)\<rparr>"
      using assms(1,3) False Some by (auto simp: with_bound_member_def bindF_eq_Inr bind_laws_def Let_def)
    have "bound_types st1 = insert tc (bound_types st)"
      using keeps_boundD [OF assms(2) b] by (auto simp: bound_types_def)
    moreover have "tc \<notin> bound_types st" using False by (simp add: bound_types_def)
    ultimately show ?thesis unfolding st' by (auto simp: bound_types_def)
  qed
qed

lemma fill_sub_message_keeps:
  assumes "\<And>m. keeps_bound (conv m)"
  shows "keeps_bound (fill_sub_message conv new put c)"
  unfolding keeps_bound_def fill_sub_message_def
  by (auto simp: bindF_eq_Inr split: option.splits dest: keeps_boundD [OF assms])

lemma set_or_fail_state: "set_or_fail pb m f x st = Inr (ok, m', st') \<Longrightarrow> st' = st"
  by (auto simp: set_or_fail_def bindF_eq_Inr split: option.splits)

lemma add_or_fail_state: "add_or_fail pb m f x st = Inr (ok, m', st') \<Longrightarrow> st' = st"
  by (auto simp: add_or_fail_def bindF_eq_Inr split: option.splits)

lemma singular_keeps_bound:
  assumes "bind_laws (lib_dd lib)" and "\<And>m. keeps_bound (conv m)"
    and "dds_singular_member_to_pb lib conv st v info tc kind m f = Inr (ok, m', st')"
  shows "bound_types st' = bound_types st"
proof (cases "kind \<in> {DDS_TK_STRUCT, DDS_TK_VALUE}")
  case True
  obtain ok1 st1 where g: "get_cached_dds_data tc st = (ok1, st1)" by fastforce
  show ?thesis
    using assms(3) True g get_cached_bound [OF g]
      with_bound_member_keeps [OF assms(1) fill_sub_message_keeps [OF assms(2)]]
    by (auto simp: dds_singular_member_to_pb_def split: if_splits)
next
  case False
  then show ?thesis
    using assms(3)
    by (auto simp: dds_singular_member_to_pb_def bindF_eq_Inr Let_def dest!: set_or_fail_state
        split: if_splits option.splits prod.splits)
qed

lemma collection_elements_keeps:
  assumes "bind_laws (lib_dd lib)" and "\<And>m. keeps_bound (conv m)"
  shows "keeps_bound (dds_collection_elements lib conv n el_tc el_kind f c)"
  unfolding keeps_bound_def
proof (intro allI impI)
  fix m st ok m' st'
  assume run: "dds_collection_elements lib conv n el_tc el_kind f c m st = Inr (ok, m', st')"
  have msg: "bound_types st' = bound_types st"
    if "each_element (add_message lib conv el_tc c f) 0 n m st = Inr (ok, m', st')" for st
    using that
    by (rule each_element_keeps [where rel = "\<lambda>a b. bound_types b = bound_types a"])
      (auto simp: add_message_def
        dest: with_bound_member_keeps [OF assms(1) fill_sub_message_keeps [OF assms(2)]])
  have sc: "st' = st"
    if "each_element (add_scalar lib el_kind c f) 0 n m st = Inr (ok, m', st')"
    using that
    by (rule each_element_keeps [where rel = "\<lambda>a b. b = a"])
      (auto simp: add_scalar_def dest: add_or_fail_state split: option.splits)
  obtain ok1 st1 where g: "get_cached_dds_data el_tc st = (ok1, st1)" by fastforce
  show "bound_types st' = bound_types st"
    using run g get_cached_bound [OF g] msg sc
    by (auto simp: dds_collection_elements_def bindF_eq_Inr Let_def split: if_splits)
qed

lemma collection_keeps_bound:
  assumes "bind_laws (lib_dd lib)" and "\<And>m. keeps_bound (conv m)"
    and "dds_collection_member_to_pb lib conv st v info tc m f = Inr (ok, m', st')"
  shows "bound_types st' = bound_types st"
proof -
  obtain ok1 st1 where g: "get_cached_dds_data tc st = (ok1, st1)" by fastforce
  have body: "keeps_bound (\<lambda>m st. case tc_content_type (lib_tc lib) tc of
            None \<Rightarrow> Inr (False, m, st)
          | Some el_tc \<Rightarrow>
              (case resolve_type_code (lib_tc lib) el_tc of
                 None \<Rightarrow> Inl Stack_Overflow
               | Some None \<Rightarrow> Inr (False, m, st)
               | Some (Some (el_tc, el_kind)) \<Rightarrow>
                   dds_collection_elements lib conv (unat (element_count info)) el_tc el_kind f c m st))" for c
    unfolding keeps_bound_def
    by (auto split: option.splits dest: keeps_boundD [OF collection_elements_keeps [OF assms(1,2)]])
  show ?thesis
    using assms(3) g get_cached_bound [OF g] with_bound_member_keeps [OF assms(1) body]
    by (auto simp: dds_collection_member_to_pb_def split: if_splits)
qed

lemma member_keeps_bound:
  assumes "bind_laws (lib_dd lib)" and "\<And>m. keeps_bound (conv m)"
    and "dds_member_to_pb lib conv v i m st = Inr (ok, m', st')"
  shows "bound_types st' = bound_types st"
  using assms(3) singular_keeps_bound [OF assms(1,2)] collection_keeps_bound [OF assms(1,2)]
  by (auto simp: dds_member_to_pb_def split: option.splits if_splits)

lemma dds_to_protobuf_keeps_bound:
  assumes "bind_laws (lib_dd lib)"
  shows "keeps_bound (dds_to_protobuf lib n m)"
proof (induction n arbitrary: m)
  case 0
  then show ?case by (simp add: keeps_bound_def)
next
  case (Suc n)
  have "bound_types st' = bound_types st"
    if "each_element (dds_member_to_pb lib (dds_to_protobuf lib n) v) 0 k m st = Inr (ok, m', st')" for v k m st ok m' st'
    using that
    by (rule each_element_keeps [where rel = "\<lambda>a b. bound_types b = bound_types a"])
      (auto dest: member_keeps_bound [OF assms Suc.IH])
  then show ?case
    by (auto simp: keeps_bound_def split: option.splits if_splits)
qed

section \<open>When a message carries the data\<close>

text \<open>
  \<open>scalar_carried kind v i x\<close>: the member holds a value of the kind and \<open>x\<close> is the same number in
  the protobuf type of that kind. The short and char kinds have no protobuf type of their
  own and are held by a wider one with the same value; a boolean member is any non-zero
  octet for true.
\<close>

definition scalar_carried ::
  "('v, 'tc, 's) dd_ops \<Rightarrow> DDS_TCKind \<Rightarrow> 'v \<Rightarrow> DDS_DynamicDataMemberId \<Rightarrow> 'm pb_value \<Rightarrow> bool" where
  "scalar_carried dd kind v i x \<longleftrightarrow>
     (case x of
        PV_int32 n \<Rightarrow> kind = DDS_TK_LONG \<and> dd_get_long dd v i = Some n
          \<or> kind = DDS_TK_SHORT \<and> (\<exists>s. dd_get_short dd v i = Some s \<and> sint s = sint n)
          \<or> kind = DDS_TK_CHAR \<and> (\<exists>c. dd_get_char dd v i = Some c \<and> sint c = sint n)
      | PV_uint32 n \<Rightarrow> kind = DDS_TK_ULONG \<and> dd_get_ulong dd v i = Some n
          \<or> kind = DDS_TK_USHORT \<and> (\<exists>s. dd_get_ushort dd v i = Some s \<and> unat s = unat n)
          \<or> kind = DDS_TK_OCTET \<and> (\<exists>b. dd_get_octet dd v i = Some b \<and> unat b = unat n)
      | PV_int64 n \<Rightarrow> kind = DDS_TK_LONGLONG \<and> dd_get_longlong dd v i = Some n
      | PV_uint64 n \<Rightarrow> kind = DDS_TK_ULONGLONG \<and> dd_get_ulonglong dd v i = Some n
      | PV_float r \<Rightarrow> kind = DDS_TK_FLOAT \<and> dd_get_float dd v i = Some r
      | PV_double r \<Rightarrow> kind = DDS_TK_DOUBLE \<and> dd_get_double dd v i = Some r
      | PV_bool b \<Rightarrow> kind = DDS_TK_BOOLEAN \<and> (\<exists>c. dd_get_boolean dd v i = Some c \<and> b = (c \<noteq> 0))
      | PV_enum e \<Rightarrow> kind = DDS_TK_ENUM \<and> dd_get_long dd v i = Some e
      | _ \<Rightarrow> False)"

lemma scalar_carried_iff:
  "scalar_carried dd kind v i x \<longleftrightarrow> dds_scalar_value dd kind v i = Some (Some x)"
  by (cases kind; cases x) (auto simp: scalar_carried_def sext_eq_iff zext_eq_iff)

text \<open>
  \<open>carried rel kind v i x\<close>: the protobuf value \<open>x\<close> holds the member \<open>i\<close> of \<open>v\<close>, whose type is
  of the given kind; \<open>rel\<close> relates nested structures to their messages, \<open>text_of\<close> and
  \<open>octets_of\<close> are the contents of string and octet sequence members.
\<close>

type_synonym 'v content = "'v \<Rightarrow> DDS_DynamicDataMemberId \<Rightarrow> byte list option"

definition carried ::
  "('v, 'tc, 's, 'm) converter_lib \<Rightarrow> 'v content \<Rightarrow> 'v content \<Rightarrow> ('v \<Rightarrow> 'm \<Rightarrow> bool) \<Rightarrow> DDS_TCKind \<Rightarrow> 'v \<Rightarrow>
   DDS_DynamicDataMemberId \<Rightarrow> 'm pb_value \<Rightarrow> bool" where
  "carried lib text_of octets_of rel kind v i x \<longleftrightarrow>
     (if kind \<in> {DDS_TK_STRUCT, DDS_TK_VALUE}
      then \<exists>c sub. dd_bind (lib_dd lib) v False i = Some c \<and> x = PV_message sub \<and> rel c sub
      else if kind = DDS_TK_STRING then \<exists>s. text_of v i = Some s \<and> x = PV_string s
      else if kind = DDS_TK_SEQUENCE then \<exists>s. octets_of v i = Some s \<and> x = PV_string s
      else scalar_carried (lib_dd lib) kind v i x)"

text \<open>
  A repeated field carries the elements of a collection in order, without the numbers that its
  closed enumeration does not have: those are kept as unknown fields of the message.
\<close>

definition elements_carried ::
  "('v, 'tc, 's, 'm) converter_lib \<Rightarrow> 'v content \<Rightarrow> 'v content \<Rightarrow> ('v \<Rightarrow> 'm \<Rightarrow> bool) \<Rightarrow>
   DDS_DynamicDataMemberInfo \<Rightarrow> 'tc \<Rightarrow> 'v \<Rightarrow> pb_field \<Rightarrow> 'm pb_value list \<Rightarrow> bool" where
  "elements_carried lib text_of octets_of rel info tc v f xs \<longleftrightarrow>
     (\<exists>ys. length ys = unat (element_count info) \<and> xs = filter (storable f) ys
        \<and> (ys \<noteq> [] \<longrightarrow> (\<exists>c el_tc el_tc' el_kind. dd_bind (lib_dd lib) v False (member_id info) = Some c
             \<and> tc_content_type (lib_tc lib) tc = Some el_tc \<and> alias_end (lib_tc lib) el_tc el_tc' el_kind
             \<and> (\<forall>j < length ys. carried lib text_of octets_of rel el_kind c (element_id j) (ys ! j)))))"

definition field_carried ::
  "('v, 'tc, 's, 'm) converter_lib \<Rightarrow> 'v content \<Rightarrow> 'v content \<Rightarrow> ('v \<Rightarrow> 'm \<Rightarrow> bool) \<Rightarrow>
   DDS_DynamicDataMemberInfo \<Rightarrow> 'tc \<Rightarrow> DDS_TCKind \<Rightarrow> 'v \<Rightarrow> pb_field \<Rightarrow> 'm \<Rightarrow> bool" where
  "field_carried lib text_of octets_of rel info tc kind v f m \<longleftrightarrow>
     (if kind \<in> {DDS_TK_ARRAY, DDS_TK_SEQUENCE} \<and> \<not> (f_type f = TYPE_BYTES \<and> element_kind info = DDS_TK_OCTET)
      then elements_carried lib text_of octets_of rel info tc v f (pb_elements (lib_pb lib) m f)
      else carried lib text_of octets_of rel kind v (member_id info) (pb_get (lib_pb lib) m f))"

text \<open>
  There are two reasons for a field to stay unset although the member exists: a later member that
  exists has a field of the same oneof, which holds one value only, or the member has a number
  that the closed enumeration of the field does not have.
\<close>

definition superseded :: "('v, 'tc, 's, 'm) converter_lib \<Rightarrow> 'v \<Rightarrow> nat \<Rightarrow> pb_field \<Rightarrow> 'm \<Rightarrow> bool" where
  "superseded lib v i f m \<longleftrightarrow>
     (\<exists>k info g. i < k \<and> k < unat (dd_get_member_count (lib_dd lib) v)
        \<and> dd_get_member_info_by_index (lib_dd lib) v (word_of_nat k) = Some info
        \<and> dd_member_exists (lib_dd lib) v (member_id info)
        \<and> pb_find_field (lib_pb lib) m (member_name info) = Some g \<and> same_oneof g f)"

definition unknown_enum ::
  "('v, 'tc, 's) dd_ops \<Rightarrow> DDS_TCKind \<Rightarrow> 'v \<Rightarrow> DDS_DynamicDataMemberId \<Rightarrow> pb_field \<Rightarrow> bool" where
  "unknown_enum dd kind v i f \<longleftrightarrow>
     kind = DDS_TK_ENUM \<and> (\<exists>n ns. dd_get_long dd v i = Some n \<and> f_enum f = Some ns \<and> n \<notin> set ns)"

definition member_carried ::
  "('v, 'tc, 's, 'm) converter_lib \<Rightarrow> 'v content \<Rightarrow> 'v content \<Rightarrow> ('v \<Rightarrow> 'm \<Rightarrow> bool) \<Rightarrow> 'v \<Rightarrow> nat \<Rightarrow> 'm \<Rightarrow> bool" where
  "member_carried lib text_of octets_of rel v i m \<longleftrightarrow>
     (\<exists>info. dd_get_member_info_by_index (lib_dd lib) v (word_of_nat i) = Some info
        \<and> (dd_member_exists (lib_dd lib) v (member_id info) \<longrightarrow>
           (\<exists>tc0 tc kind f. dd_get_member_type (lib_dd lib) v (member_id info) = Some tc0
              \<and> alias_end (lib_tc lib) tc0 tc kind
              \<and> pb_find_field (lib_pb lib) m (member_name info) = Some f
              \<and> (field_carried lib text_of octets_of rel info tc kind v f m
                 \<or> \<not> pb_has_field (lib_pb lib) m f
                   \<and> (superseded lib v i f m \<or> unknown_enum (lib_dd lib) kind v (member_id info) f)))))"

lemma carried_mono [mono]:
  "rel \<le> rel' \<Longrightarrow> carried lib t oc rel kind v i x \<longrightarrow> carried lib t oc rel' kind v i x"
  by (auto simp: carried_def le_fun_def)

lemma elements_carried_mono [mono]:
  assumes "rel \<le> rel'"
  shows "elements_carried lib t oc rel info tc v f xs \<longrightarrow> elements_carried lib t oc rel' info tc v f xs"
proof -
  have "\<And>kind v i x. carried lib t oc rel kind v i x \<Longrightarrow> carried lib t oc rel' kind v i x"
    using carried_mono [OF assms] by blast
  then show ?thesis unfolding elements_carried_def by fast
qed

lemma field_carried_mono [mono]:
  assumes "rel \<le> rel'"
  shows "field_carried lib t oc rel info tc kind v f m \<longrightarrow> field_carried lib t oc rel' info tc kind v f m"
  by (auto simp: field_carried_def intro: mp [OF carried_mono [OF assms]] mp [OF elements_carried_mono [OF assms]]
      split: if_splits)

lemma member_carried_mono [mono]:
  assumes "rel \<le> rel'"
  shows "member_carried lib t oc rel v i m \<longrightarrow> member_carried lib t oc rel' v i m"
  unfolding member_carried_def using field_carried_mono [OF assms] by fast

text \<open>
  A message represents a structure when it carries every existing member, nested ones included,
  but for the members that a oneof or a closed enumeration excludes.
\<close>

inductive represents ::
  "('v, 'tc, 's, 'm) converter_lib \<Rightarrow> 'v content \<Rightarrow> 'v content \<Rightarrow> 'v \<Rightarrow> 'm \<Rightarrow> bool"
  for lib text_of octets_of where
  representsI: "\<forall>i < unat (dd_get_member_count (lib_dd lib) v).
      member_carried lib text_of octets_of (represents lib text_of octets_of) v i m \<Longrightarrow>
    represents lib text_of octets_of v m"

inductive_simps represents_iff: "represents lib text_of octets_of v m"

section \<open>The contract of the libraries\<close>

text \<open>
  Reading a string of \<open>DDS_DynamicData_get_string\<close> into a buffer that is large enough yields
  its bytes and a nul, and the length with the nul; into a smaller one it stores nothing.
  An octet sequence is copied into a sequence that can hold it. The members of a structure
  have distinct names, the elements of a collection are numbered from one, and the element
  count of an octet sequence is its length. \<open>collection\<close> tells which objects are
  collections.
\<close>

locale dds_reading = pb_message "lib_pb lib" + dds_seq "lib_seq lib" valid elems cap
  for lib :: "('v, 'tc, 's, 'm) converter_lib" and valid :: "'s \<Rightarrow> bool"
    and elems :: "'s \<Rightarrow> byte list" and cap :: "'s \<Rightarrow> nat" +
  fixes text_of :: "'v content" and octets_of :: "'v content" and collection :: "'v \<Rightarrow> bool"
  assumes bind_unbind: "bind_laws (lib_dd lib)"
    and get_string_ok: "dd_get_string (lib_dd lib) v i n = (DDS_RETCODE_OK, bytes, n') \<Longrightarrow>
          \<exists>txt. text_of v i = Some txt \<and> bytes = txt @ [0] \<and> unat n' = length txt + 1 \<and> length txt < unat n"
    and get_string_small: "dd_get_string (lib_dd lib) v i n = (DDS_RETCODE_PRECONDITION_NOT_MET, bytes, n') \<Longrightarrow> bytes = []"
    and seq_init: "valid (lib_seq_init lib) \<and> cap (lib_seq_init lib) = 0"
    and loan_max: "valid s \<Longrightarrow> seq_loan_contiguous (lib_seq lib) s buf 0 n = (True, s') \<Longrightarrow> length buf = unat n \<Longrightarrow>
          valid s' \<and> cap s' = unat n"
    and unloan_valid: "valid s \<Longrightarrow> valid (snd (seq_unloan (lib_seq lib) s))"
    and buffer_full: "valid s \<Longrightarrow> length (elems s) = cap s \<Longrightarrow> seq_buffer (lib_seq lib) s = Some buf \<Longrightarrow> buf = elems s"
    and buffer_none: "valid s \<Longrightarrow> seq_buffer (lib_seq lib) s = None \<Longrightarrow> elems s = []"
    and get_octet_seq_ok: "valid s \<Longrightarrow> dd_get_octet_seq (lib_dd lib) v i s = (True, s') \<Longrightarrow>
          valid s' \<and> cap s' = cap s \<and> octets_of v i = Some (elems s')"
    and octet_count: "dd_get_member_info_by_index (lib_dd lib) v idx = Some info \<Longrightarrow>
          octets_of v (member_id info) = Some bytes \<Longrightarrow> unat (element_count info) = length bytes"
    and member_collection: "dd_get_member_type (lib_dd lib) v i = Some tc \<Longrightarrow> alias_end (lib_tc lib) tc tc' kind \<Longrightarrow>
          kind \<in> {DDS_TK_SEQUENCE, DDS_TK_ARRAY} \<Longrightarrow> dd_bind (lib_dd lib) v b i = Some c \<Longrightarrow> collection c"
    and element_ids: "collection c \<Longrightarrow> dd_get_member_info_by_index (lib_dd lib) c (word_of_nat k) = Some info \<Longrightarrow>
          member_id info = element_id k"
    and distinct_names: "dd_get_type_kind (lib_dd lib) v \<in> {DDS_TK_STRUCT, DDS_TK_VALUE, DDS_TK_ALIAS} \<Longrightarrow>
          k < unat (dd_get_member_count (lib_dd lib) v) \<Longrightarrow> l < unat (dd_get_member_count (lib_dd lib) v) \<Longrightarrow> k \<noteq> l \<Longrightarrow>
          dd_get_member_info_by_index (lib_dd lib) v (word_of_nat k) = Some info \<Longrightarrow>
          dd_get_member_info_by_index (lib_dd lib) v (word_of_nat l) = Some info' \<Longrightarrow> member_name info \<noteq> member_name info'"
begin

abbreviation "rep \<equiv> represents lib text_of octets_of"

text \<open>A conversion is sound when its successes from a fresh message are representations.\<close>

definition sound :: "('m \<Rightarrow> 'v \<Rightarrow> 'tc ProtobufConverterState \<Rightarrow> ('m, 'tc) conversion) \<Rightarrow> bool" where
  "sound conv \<longleftrightarrow> (\<forall>m v st m' st'. conv m v st = Inr (True, m', st') \<longrightarrow> pb_fresh (lib_pb lib) m \<longrightarrow> rep v m')"

text \<open>Only the named field changes; the others of its oneof may become unset.\<close>

definition unset :: "pb_field \<Rightarrow> 'm \<Rightarrow> bool" where
  "unset f m \<longleftrightarrow> \<not> pb_has_field (lib_pb lib) m f \<and> pb_elements (lib_pb lib) m f = []"

definition only_field :: "pb_field \<Rightarrow> 'm \<Rightarrow> 'm \<Rightarrow> bool" where
  "only_field f m m' \<longleftrightarrow> pb_find_field (lib_pb lib) m' = pb_find_field (lib_pb lib) m
     \<and> (\<forall>g. pb_find_field (lib_pb lib) m (f_name g) = Some g \<longrightarrow> f_name g \<noteq> f_name f \<longrightarrow>
          same_field (lib_pb lib) g m m' \<or> same_oneof f g \<and> unset g m')"

lemma unset_same: "same_field (lib_pb lib) f m m' \<Longrightarrow> unset f m' \<longleftrightarrow> unset f m"
  by (simp add: unset_def same_field_def)

lemma only_field_refl: "only_field f m m"
  by (simp add: only_field_def same_field_def)

lemma only_field_trans:
  assumes "only_field f m m'" and "only_field f m' m''"
  shows "only_field f m m''"
  unfolding only_field_def
proof (intro conjI allI impI)
  show "pb_find_field (lib_pb lib) m'' = pb_find_field (lib_pb lib) m" using assms by (simp add: only_field_def)
next
  fix g
  assume "pb_find_field (lib_pb lib) m (f_name g) = Some g" "f_name g \<noteq> f_name f"
  then have "same_field (lib_pb lib) g m m' \<or> same_oneof f g \<and> unset g m'"
    "same_field (lib_pb lib) g m' m'' \<or> same_oneof f g \<and> unset g m''"
    using assms by (auto simp: only_field_def)
  then show "same_field (lib_pb lib) g m m'' \<or> same_oneof f g \<and> unset g m''"
    by (auto simp: same_field_def unset_def)
qed

lemma only_field_set: "pb_set (lib_pb lib) m f x = Inr m' \<Longrightarrow> only_field f m m'"
  using set_other set_oneof set_unknown set_descriptor unfolding only_field_def unset_def by metis

lemma only_field_add: "pb_add (lib_pb lib) m f x = Inr m' \<Longrightarrow> only_field f m m'"
  using add_other add_descriptor by (auto simp: only_field_def)

text \<open>The string that a read with retry yields.\<close>

lemma get_string_retry_ok:
  assumes "get_string_retry (lib_dd lib) v i n b = Inr (Some s, n', b')" and "unat n \<le> length b"
  shows "text_of v i = Some s \<and> unat n' \<le> length b'"
proof -
  obtain r bytes k where g: "dd_get_string (lib_dd lib) v i n = (r, bytes, k)" by (metis prod_cases3)
  obtain r2 bytes2 k2 where g2: "dd_get_string (lib_dd lib) v i k = (r2, bytes2, k2)" by (metis prod_cases3)
  have fin: "text_of v i = Some s \<and> unat n' \<le> length b'"
    if read: "dd_get_string (lib_dd lib) v i j = (DDS_RETCODE_OK, by1, n')" and room: "unat j \<le> length b1"
      and b': "b' = store by1 b1" and s: "s = take (unat (n' - 1)) b'" for j by1 b1
  proof -
    obtain t where t: "text_of v i = Some t" "by1 = t @ [0]" "unat n' = length t + 1" "length t < unat j"
      using get_string_ok [OF read] by blast
    then have "unat (n' - 1) = length t" by (simp add: unat_sub word_le_nat_alt)
    then have "s = t" using b' s t(2) by (simp add: store_def)
    moreover have "unat n' \<le> length b'" using t(2,3,4) room b' by (simp add: store_def)
    ultimately show ?thesis using t(1) by simp
  qed
  show ?thesis
  proof (cases "r = DDS_RETCODE_PRECONDITION_NOT_MET")
    case True
    then have "bytes = []" using get_string_small g by blast
    then have "r2 = DDS_RETCODE_OK" "n' = k2" "b' = store bytes2 (resize (unat k) b)" "s = take (unat (n' - 1)) b'"
      using assms(1) g g2 True by (auto simp: get_string_retry_def Let_def store_def split: if_splits)
    then show ?thesis using fin [of k bytes2 "resize (unat k) b"] g2 by simp
  next
    case False
    then have "r = DDS_RETCODE_OK" "n' = k" "b' = store bytes b" "s = take (unat (n' - 1)) b'"
      using assms(1) g by (auto simp: get_string_retry_def Let_def split: if_splits)
    then show ?thesis using fin [of n bytes b] g assms(2) by simp
  qed
qed

lemma initial_buffer_offer: "unat (word_of_nat (length b) :: 32 word) \<le> length b"
  by (simp add: unat_of_nat)

text \<open>The bytes read into the loaned buffer.\<close>

lemma loan_and_get:
  assumes "valid s" and "seq_loan_contiguous (lib_seq lib) s b 0 n = (True, s1)" and "length b = unat n"
    and "dd_get_octet_seq (lib_dd lib) v i s1 = (True, s2)" and "octets_of v i = Some bs" and "unat n = length bs"
  shows "valid s2 \<and> (case seq_buffer (lib_seq lib) s2 of None \<Rightarrow> b | Some b \<Rightarrow> b) = bs"
proof -
  have s1: "valid s1" "cap s1 = unat n" using loan_max [OF assms(1,2,3)] by simp_all
  have s2: "valid s2" "cap s2 = unat n" "elems s2 = bs"
    using get_octet_seq_ok [OF s1(1) assms(4)] s1(2) assms(5) by auto
  show ?thesis
  proof (cases "seq_buffer (lib_seq lib) s2")
    case None
    then have "bs = []" using buffer_none s2(1,3) by blast
    then show ?thesis using None assms(3,6) s2(1) by simp
  next
    case (Some x)
    then show ?thesis using buffer_full s2 assms(6) by auto
  qed
qed

text \<open>What a successful visit of a complex member did.\<close>

lemma with_bound_memberD:
  assumes "with_bound_member lib tc v i body m st = Inr (True, m', st')"
  obtains c st0 st1 where "dd_bind (lib_dd lib) v False i = Some c" "body c m st0 = Inr (True, m', st1)"
  using assms bind_unbind
  by (cases "dds_data_cache st tc = Some True")
    (auto simp: with_bound_member_def bind_laws_def bindF_eq_Inr Let_def split: option.splits)

lemma fill_sub_messageD:
  assumes "fill_sub_message conv new put c m st = Inr (True, m', st')"
  obtains sub sub' where "new m = Inr (Some sub)" "conv sub c st = Inr (True, sub', st')"
    "put m (PV_message sub') = Inr m'"
  using assms by (auto simp: fill_sub_message_def bindF_eq_Inr split: option.splits)

text \<open>The octets that the single read yields.\<close>

lemma get_octets_ok:
  assumes "get_octets lib v (member_id info) (element_count info) s b = (True, s', b')"
    and "valid s" and "dd_get_member_info_by_index (lib_dd lib) v idx = Some info"
  shows "valid s' \<and> octets_of v (member_id info) = Some b'"
proof -
  let ?n = "element_count info" and ?b = "resize (unat (element_count info)) b"
  obtain s1 where l: "seq_loan_contiguous (lib_seq lib) s ?b 0 ?n = (True, s1)"
    using assms(1) by (auto simp: get_octets_def Let_def split: prod.splits if_splits)
  have g: "dd_get_octet_seq (lib_dd lib) v (member_id info) s1 = (True, s')"
    and b': "b' = (case seq_buffer (lib_seq lib) s' of None \<Rightarrow> ?b | Some b \<Rightarrow> b)"
    using assms(1) l by (auto simp: get_octets_def Let_def split: prod.splits)
  have "valid s1" using loan_max [OF assms(2) l] by simp
  then obtain bs where bs: "octets_of v (member_id info) = Some bs"
    using get_octet_seq_ok g by blast
  then have "unat ?n = length bs" using octet_count assms(3) by blast
  then show ?thesis using loan_and_get [OF assms(2) l _ g bs] bs b' by simp
qed

lemma singular_sound:
  assumes "sound conv" and "dds_singular_member_to_pb lib conv st v info tc kind m f = Inr (True, m', st')"
    and "\<not> pb_has_field (lib_pb lib) m f" and "dd_get_member_info_by_index (lib_dd lib) v idx = Some info"
  shows "(carried lib text_of octets_of rep kind v (member_id info) (pb_get (lib_pb lib) m' f)
      \<or> \<not> pb_has_field (lib_pb lib) m' f \<and> unknown_enum (lib_dd lib) kind v (member_id info) f) \<and> only_field f m m'"
proof -
  consider (struct) "kind \<in> {DDS_TK_STRUCT, DDS_TK_VALUE}" | (string) "kind = DDS_TK_STRING"
    | (octets) "kind = DDS_TK_SEQUENCE"
    | (scalar) "kind \<notin> {DDS_TK_STRUCT, DDS_TK_VALUE, DDS_TK_STRING, DDS_TK_SEQUENCE}" by blast
  then show ?thesis
  proof cases
    case struct
    obtain st0 where "with_bound_member lib tc v (member_id info)
        (fill_sub_message conv (\<lambda>m. pb_mutable (lib_pb lib) m f) (\<lambda>m. pb_set (lib_pb lib) m f)) m st0 = Inr (True, m', st')"
      using assms(2) struct by (auto simp: dds_singular_member_to_pb_def split: prod.splits if_splits)
    then obtain c st1 st2 where c: "dd_bind (lib_dd lib) v False (member_id info) = Some c"
      and b: "fill_sub_message conv (\<lambda>m. pb_mutable (lib_pb lib) m f) (\<lambda>m. pb_set (lib_pb lib) m f) c m st1 = Inr (True, m', st2)"
      by (rule with_bound_memberD)
    from b obtain sub sub' where sub: "pb_mutable (lib_pb lib) m f = Inr (Some sub)"
      "conv sub c st1 = Inr (True, sub', st2)" "pb_set (lib_pb lib) m f (PV_message sub') = Inr m'"
      by (rule fill_sub_messageD)
    have "rep c sub'" using assms(1) sub(2) mutable_fresh [OF sub(1) assms(3)] unfolding sound_def by blast
    then show ?thesis using struct c set_get [OF sub(3), simplified] only_field_set [OF sub(3)] by (auto simp: carried_def)
  next
    case string
    let ?b = "initial_buffer (str_buffer st)"
    obtain x n b where g: "get_string_retry (lib_dd lib) v (member_id info) (word_of_nat (length ?b)) ?b = Inr (Some x, n, b)"
      and w: "pb_set (lib_pb lib) m f (PV_string x) = Inr m'"
      using assms(2) string
      by (auto simp: dds_singular_member_to_pb_def Let_def bindF_eq_Inr set_or_fail_def split: option.splits)
    have "text_of v (member_id info) = Some x" using get_string_retry_ok [OF g initial_buffer_offer] by simp
    then show ?thesis using string set_get [OF w, simplified] only_field_set [OF w] by (simp add: carried_def)
  next
    case octets
    obtain s b where g: "get_octets lib v (member_id info) (element_count info) (lib_seq_init lib) (str_buffer st) = (True, s, b)"
      and w: "pb_set (lib_pb lib) m f (PV_string b) = Inr m'"
      using assms(2) octets
      by (auto simp: dds_singular_member_to_pb_def Let_def bindF_eq_Inr set_or_fail_def
          split: option.splits prod.splits if_splits)
    have "octets_of v (member_id info) = Some b" using get_octets_ok [OF g _ assms(4)] seq_init by simp
    then show ?thesis using octets set_get [OF w, simplified] only_field_set [OF w] by (simp add: carried_def)
  next
    case scalar
    then obtain x where x: "dds_scalar_value (lib_dd lib) kind v (member_id info) = Some (Some x)"
      and w: "pb_set (lib_pb lib) m f x = Inr m'"
      using assms(2)
      by (auto simp: dds_singular_member_to_pb_def bindF_eq_Inr set_or_fail_def split: option.splits)
    show ?thesis
    proof (cases "storable f x")
      case True
      then show ?thesis
        using x scalar set_get [OF w True] only_field_set [OF w] by (simp add: carried_def scalar_carried_iff)
    next
      case False
      then have "\<not> pb_has_field (lib_pb lib) m' f"
        using set_unknown [OF w False, of f] assms(3) by (simp add: same_field_def)
      moreover have "unknown_enum (lib_dd lib) kind v (member_id info) f"
        using x False by (cases kind; cases x) (auto simp: unknown_enum_def split: option.splits)
      ultimately show ?thesis using only_field_set [OF w] by blast
    qed
  qed
qed

section \<open>Collections are carried\<close>

lemma elements_loop:
  assumes "each_element step 0 n m st = Inr (True, m', st')" and "pb_elements (lib_pb lib) m f = []" and "E st"
    and step: "\<And>i m st m1 st1. E st \<Longrightarrow> step i m st = Inr (True, m1, st1) \<Longrightarrow>
      E st1 \<and> (\<exists>x. pb_add (lib_pb lib) m f x = Inr m1 \<and> P i x)"
  shows "(\<exists>ys. length ys = n \<and> pb_elements (lib_pb lib) m' f = filter (storable f) ys \<and> (\<forall>j<n. P j (ys ! j)))
    \<and> only_field f m m'"
proof -
  let ?J = "\<lambda>i m1 st1. E st1 \<and> only_field f m m1 \<and>
      (\<exists>ys. length ys = i \<and> pb_elements (lib_pb lib) m1 f = filter (storable f) ys \<and> (\<forall>j<i. P j (ys ! j)))"
  have "?J (0 + n) m' st'"
  proof (rule each_element_invariant [where J = ?J, OF assms(1)])
    show "?J 0 m st" using assms(2,3) by (simp add: only_field_refl)
  next
    fix k m1 st1 m2 st2
    assume J: "?J k m1 st1" and s: "step k m1 st1 = Inr (True, m2, st2)"
    obtain x where x: "E st2" "pb_add (lib_pb lib) m1 f x = Inr m2" "P k x" using step [OF _ s] J by blast
    obtain ys where ys: "length ys = k" "pb_elements (lib_pb lib) m1 f = filter (storable f) ys" "\<forall>j<k. P j (ys ! j)"
      using J by blast
    have "length (ys @ [x]) = Suc k \<and> pb_elements (lib_pb lib) m2 f = filter (storable f) (ys @ [x])
        \<and> (\<forall>j<Suc k. P j ((ys @ [x]) ! j))"
      using ys x(3) by (auto simp: add_elements [OF x(2)] nth_append less_Suc_eq)
    then show "?J (Suc k) m2 st2"
      using J x(1) only_field_trans [OF _ only_field_add [OF x(2)]] by blast
  qed
  then show ?thesis by simp
qed

lemma add_or_failD:
  "add_or_fail pb m f x st = Inr (True, m', st') \<Longrightarrow> \<exists>y. x = Some y \<and> pb_add pb m f y = Inr m' \<and> st' = st"
  by (auto simp: add_or_fail_def bindF_eq_Inr split: option.splits)

text \<open>The content of one element.\<close>

abbreviation "element kind c i \<equiv> carried lib text_of octets_of rep kind c (element_id i)"

lemma add_message_step:
  assumes "sound conv" and "add_message lib conv el_tc c f i m st = Inr (True, m', st')"
    and "kind \<in> {DDS_TK_STRUCT, DDS_TK_VALUE}"
  shows "\<exists>x. pb_add (lib_pb lib) m f x = Inr m' \<and> element kind c i x"
proof -
  obtain d st0 st1 where d: "dd_bind (lib_dd lib) c False (element_id i) = Some d"
    and b: "fill_sub_message conv (\<lambda>m. pb_new_element (lib_pb lib) m f) (\<lambda>m. pb_add (lib_pb lib) m f) d m st0 = Inr (True, m', st1)"
    using assms(2) unfolding add_message_def by (rule with_bound_memberD)
  from b obtain sub sub' where sub: "pb_new_element (lib_pb lib) m f = Inr (Some sub)"
    "conv sub d st0 = Inr (True, sub', st1)" "pb_add (lib_pb lib) m f (PV_message sub') = Inr m'"
    by (rule fill_sub_messageD)
  have "rep d sub'" using assms(1) sub(2) new_element_fresh [OF sub(1)] unfolding sound_def by blast
  then show ?thesis using assms(3) d sub(3) by (auto simp: carried_def)
qed

lemma add_string_step:
  assumes "unat (fst st) \<le> length (snd st)" and "add_string lib c f i m st = Inr (True, m', st')"
  shows "unat (fst st') \<le> length (snd st') \<and> (\<exists>x. pb_add (lib_pb lib) m f x = Inr m' \<and> element DDS_TK_STRING c i x)"
proof -
  obtain x n b where g: "get_string_retry (lib_dd lib) c (element_id i) (fst st) (snd st) = Inr (Some x, n, b)"
    and w: "pb_add (lib_pb lib) m f (PV_string x) = Inr m'" and st': "st' = (n, b)"
    using assms(2) by (auto simp: add_string_def bindF_eq_Inr split: prod.splits dest!: add_or_failD)
  show ?thesis using get_string_retry_ok [OF g assms(1)] w st' by (auto simp: carried_def)
qed

lemma add_bytes_step:
  assumes "collection c" and "valid (fst st)" and "add_bytes lib c f i m st = Inr (True, m', st')"
  shows "valid (fst st') \<and> (\<exists>x. pb_add (lib_pb lib) m f x = Inr m' \<and> element DDS_TK_SEQUENCE c i x)"
proof -
  obtain info where info: "dd_get_member_info_by_index (lib_dd lib) c (word_of_nat i) = Some info"
    using assms(3) by (auto simp: add_bytes_def split: prod.splits option.splits)
  have id: "member_id info = element_id i" using element_ids assms(1) info by blast
  obtain s0 b0 where st: "st = (s0, b0)" by fastforce
  obtain ok s b where g: "get_octets lib c (element_id i) (element_count info) s0 b0 = (ok, s, b)"
    by (metis prod_cases3)
  then have "ok = True" and w: "pb_add (lib_pb lib) m f (PV_string b) = Inr m'" and st': "fst st' = snd (seq_unloan (lib_seq lib) s)"
    using assms(3) info unfolding st
    by (auto simp: add_bytes_def get_octets_def Let_def bindF_eq_Inr split: prod.splits if_splits dest!: add_or_failD)
  then have "valid s \<and> octets_of c (element_id i) = Some b"
    using get_octets_ok [OF _ _ info] g assms(2) unfolding id st by simp
  then show ?thesis using w st' unloan_valid by (auto simp: carried_def)
qed

lemma collection_elements_sound:
  assumes "sound conv" and "collection c" and "pb_elements (lib_pb lib) m f = []"
    and "dds_collection_elements lib conv n el_tc kind f c m st = Inr (True, m', st')"
  shows "(\<exists>ys. length ys = n \<and> pb_elements (lib_pb lib) m' f = filter (storable f) ys \<and> (\<forall>j<n. element kind c j (ys ! j)))
    \<and> only_field f m m'"
proof -
  consider (struct) "kind \<in> {DDS_TK_STRUCT, DDS_TK_VALUE}" | (string) "kind = DDS_TK_STRING"
    | (octets) "kind = DDS_TK_SEQUENCE"
    | (scalar) "kind \<notin> {DDS_TK_STRUCT, DDS_TK_VALUE, DDS_TK_STRING, DDS_TK_SEQUENCE}" by blast
  then show ?thesis
  proof cases
    case struct
    then obtain st0 where "each_element (add_message lib conv el_tc c f) 0 n m st0 = Inr (True, m', st')"
      using assms(4) by (auto simp: dds_collection_elements_def split: prod.splits if_splits)
    then show ?thesis
      by (rule elements_loop [where E = "\<lambda>_. True", OF _ assms(3)])
        (auto dest: add_message_step [OF assms(1) _ struct])
  next
    case string
    let ?b = "initial_buffer (str_buffer st)"
    obtain st1 where "each_element (add_string lib c f) 0 n m (word_of_nat (length ?b), ?b) = Inr (True, m', st1)"
      using assms(4) string by (auto simp: dds_collection_elements_def Let_def bindF_eq_Inr)
    then show ?thesis unfolding string
      by (rule elements_loop [where E = "\<lambda>st. unat (fst st) \<le> length (snd st)", OF _ assms(3)])
        (simp only: fst_conv snd_conv initial_buffer_offer, erule (1) add_string_step)
  next
    case octets
    obtain st1 where "each_element (add_bytes lib c f) 0 n m (lib_seq_init lib, str_buffer st) = Inr (True, m', st1)"
      using assms(4) octets by (auto simp: dds_collection_elements_def Let_def bindF_eq_Inr)
    then show ?thesis unfolding octets
      by (rule elements_loop [where E = "\<lambda>st. valid (fst st)", OF _ assms(3)])
        (use seq_init in simp, erule (1) add_bytes_step [OF assms(2)])
  next
    case scalar
    then have "each_element (add_scalar lib kind c f) 0 n m st = Inr (True, m', st')"
      using assms(4) by (simp add: dds_collection_elements_def)
    then show ?thesis
      by (rule elements_loop [where E = "\<lambda>_. True", OF _ assms(3)])
        (use scalar in \<open>auto simp: carried_def scalar_carried_iff add_scalar_def split: option.splits dest!: add_or_failD\<close>)
  qed
qed

lemma collection_sound:
  assumes "sound conv" and "pb_elements (lib_pb lib) m f = []"
    and "dd_get_member_type (lib_dd lib) v (member_id info) = Some tc0" and "alias_end (lib_tc lib) tc0 tc kind"
    and "kind \<in> {DDS_TK_SEQUENCE, DDS_TK_ARRAY}"
    and "dds_collection_member_to_pb lib conv st v info tc m f = Inr (True, m', st')"
  shows "elements_carried lib text_of octets_of rep info tc v f (pb_elements (lib_pb lib) m' f) \<and> only_field f m m'"
proof (cases "element_count info = 0")
  case True
  then show ?thesis
    using assms(2,6) by (simp add: dds_collection_member_to_pb_def elements_carried_def only_field_refl)
next
  case False
  let ?body = "\<lambda>c m st. case tc_content_type (lib_tc lib) tc of
            None \<Rightarrow> Inr (False, m, st)
          | Some el_tc \<Rightarrow>
              (case resolve_type_code (lib_tc lib) el_tc of
                 None \<Rightarrow> Inl Stack_Overflow
               | Some None \<Rightarrow> Inr (False, m, st)
               | Some (Some (el_tc, el_kind)) \<Rightarrow>
                   dds_collection_elements lib conv (unat (element_count info)) el_tc el_kind f c m st)"
  obtain st0 where "with_bound_member lib tc v (member_id info) ?body m st0 = Inr (True, m', st')"
    using assms(6) False by (auto simp: dds_collection_member_to_pb_def split: prod.splits if_splits)
  then obtain c st1 st2 where c: "dd_bind (lib_dd lib) v False (member_id info) = Some c"
    and b: "?body c m st1 = Inr (True, m', st2)"
    by (rule with_bound_memberD)
  from b obtain el_tc0 el_tc el_kind where el: "tc_content_type (lib_tc lib) tc = Some el_tc0"
    "resolve_type_code (lib_tc lib) el_tc0 = Some (Some (el_tc, el_kind))"
    "dds_collection_elements lib conv (unat (element_count info)) el_tc el_kind f c m st1 = Inr (True, m', st2)"
    by (auto split: option.splits)
  have "collection c" using member_collection assms(3,4,5) c by blast
  note xs = collection_elements_sound [OF assms(1) this assms(2) el(3)]
  show ?thesis unfolding elements_carried_def
    using c el(1) resolve_type_code_sound [OF el(2)] xs by metis
qed

section \<open>The message represents the data\<close>

lemma member_sound:
  assumes "sound conv" and "dd_get_member_info_by_index (lib_dd lib) v (word_of_nat i) = Some info"
    and "\<And>f. pb_find_field (lib_pb lib) m (member_name info) = Some f \<Longrightarrow> unset f m"
    and "dds_member_to_pb lib conv v i m st = Inr (True, m', st')"
  shows "member_carried lib text_of octets_of rep v i m'"
    and "\<And>f. pb_find_field (lib_pb lib) m (member_name info) = Some f \<Longrightarrow> only_field f m m'"
    and "m' = m \<or> dd_member_exists (lib_dd lib) v (member_id info)
      \<and> (\<exists>f. pb_find_field (lib_pb lib) m (member_name info) = Some f)"
proof -
  have "member_carried lib text_of octets_of rep v i m' \<and> m' = m"
    if "\<not> dd_member_exists (lib_dd lib) v (member_id info)"
    using that assms(2,4) by (auto simp: dds_member_to_pb_def member_carried_def)
  moreover have "\<exists>f. pb_find_field (lib_pb lib) m (member_name info) = Some f \<and> only_field f m m'
      \<and> member_carried lib text_of octets_of rep v i m'"
    if ex: "dd_member_exists (lib_dd lib) v (member_id info)"
  proof -
    from ex assms(2,4) obtain tc0 tc kind f where t: "dd_get_member_type (lib_dd lib) v (member_id info) = Some tc0"
      "resolve_type_code (lib_tc lib) tc0 = Some (Some (tc, kind))"
      "pb_find_field (lib_pb lib) m (member_name info) = Some f"
      by (auto simp: dds_member_to_pb_def split: option.splits)
    have end_: "alias_end (lib_tc lib) tc0 tc kind" using t(2) by (rule resolve_type_code_sound)
    have un: "\<not> pb_has_field (lib_pb lib) m f" "pb_elements (lib_pb lib) m f = []"
      using assms(3) [OF t(3)] by (auto simp: unset_def)
    let ?coll = "kind \<in> {DDS_TK_ARRAY, DDS_TK_SEQUENCE} \<and> \<not> (f_type f = TYPE_BYTES \<and> element_kind info = DDS_TK_OCTET)"
    have f: "(field_carried lib text_of octets_of rep info tc kind v f m'
        \<or> \<not> pb_has_field (lib_pb lib) m' f \<and> unknown_enum (lib_dd lib) kind v (member_id info) f) \<and> only_field f m m'"
    proof (cases ?coll)
      case True
      then have run: "dds_collection_member_to_pb lib conv st v info tc m f = Inr (True, m', st')"
        using assms(2,4) ex t by (auto simp: dds_member_to_pb_def)
      show ?thesis
        using collection_sound [OF assms(1) un(2) t(1) end_ _ run] True by (auto simp: field_carried_def)
    next
      case False
      then have "dds_singular_member_to_pb lib conv st v info tc kind m f = Inr (True, m', st')"
        using assms(2,4) ex t by (auto simp: dds_member_to_pb_def split: if_splits)
      from singular_sound [OF assms(1) this un(1) assms(2)] False show ?thesis
        by (auto simp: field_carried_def)
    qed
    then have "pb_find_field (lib_pb lib) m' (member_name info) = Some f" using t(3) by (simp add: only_field_def)
    then have "member_carried lib text_of octets_of rep v i m'"
      using assms(2) t(1) end_ f unfolding member_carried_def by blast
    with f t(3) show ?thesis by blast
  qed
  ultimately show "member_carried lib text_of octets_of rep v i m'"
    and "\<And>f. pb_find_field (lib_pb lib) m (member_name info) = Some f \<Longrightarrow> only_field f m m'"
    and "m' = m \<or> dd_member_exists (lib_dd lib) v (member_id info)
      \<and> (\<exists>f. pb_find_field (lib_pb lib) m (member_name info) = Some f)"
    using only_field_refl by fastforce+
qed

text \<open>
  A member stays carried when another member \<open>k\<close> is converted after it, unless the field of \<open>k\<close> is
  of the same oneof: then the field of the member is unset.
\<close>

lemma member_carried_step:
  assumes "member_carried lib text_of octets_of rep v j m" and "j < k" and "k < unat (dd_get_member_count (lib_dd lib) v)"
    and "dd_get_member_info_by_index (lib_dd lib) v (word_of_nat k) = Some info"
    and "dd_member_exists (lib_dd lib) v (member_id info)"
    and "pb_find_field (lib_pb lib) m (member_name info) = Some g" and "only_field g m m'"
    and "\<And>info'. dd_get_member_info_by_index (lib_dd lib) v (word_of_nat j) = Some info' \<Longrightarrow> member_name info' \<noteq> member_name info"
  shows "member_carried lib text_of octets_of rep v j m'"
proof -
  obtain info' where i: "dd_get_member_info_by_index (lib_dd lib) v (word_of_nat j) = Some info'"
    and ex: "dd_member_exists (lib_dd lib) v (member_id info') \<Longrightarrow>
        \<exists>tc0 tc kind f. dd_get_member_type (lib_dd lib) v (member_id info') = Some tc0
              \<and> alias_end (lib_tc lib) tc0 tc kind
              \<and> pb_find_field (lib_pb lib) m (member_name info') = Some f
              \<and> (field_carried lib text_of octets_of rep info' tc kind v f m
                 \<or> \<not> pb_has_field (lib_pb lib) m f
                   \<and> (superseded lib v j f m \<or> unknown_enum (lib_dd lib) kind v (member_id info') f))"
    using assms(1) unfolding member_carried_def by blast
  have find: "pb_find_field (lib_pb lib) m' = pb_find_field (lib_pb lib) m" using assms(7) by (simp add: only_field_def)
  have "field_carried lib text_of octets_of rep info' tc kind v f m'
      \<or> \<not> pb_has_field (lib_pb lib) m' f
        \<and> (superseded lib v j f m' \<or> unknown_enum (lib_dd lib) kind v (member_id info') f)"
    if f: "pb_find_field (lib_pb lib) m (member_name info') = Some f"
      and c: "field_carried lib text_of octets_of rep info' tc kind v f m
                 \<or> \<not> pb_has_field (lib_pb lib) m f
                   \<and> (superseded lib v j f m \<or> unknown_enum (lib_dd lib) kind v (member_id info') f)" for tc kind f
  proof -
    have "f_name f = member_name info'" "f_name g = member_name info" using f assms(6) find_name by blast+
    then have "same_field (lib_pb lib) f m m' \<or> same_oneof g f \<and> unset f m'"
      using assms(7,8) i f by (auto simp: only_field_def)
    then show ?thesis
    proof
      assume "same_field (lib_pb lib) f m m'"
      with c find show ?thesis by (auto simp: field_carried_def same_field_def superseded_def)
    next
      assume "same_oneof g f \<and> unset f m'"
      moreover from this have "superseded lib v j f m'"
        using assms(2-6) find unfolding superseded_def by auto
      ultimately show ?thesis by (auto simp: unset_def)
    qed
  qed
  then show ?thesis using i ex find unfolding member_carried_def by metis
qed

definition still_unset :: "'v \<Rightarrow> nat \<Rightarrow> 'm \<Rightarrow> bool" where
  "still_unset v i m \<longleftrightarrow> (\<forall>g. pb_find_field (lib_pb lib) m (f_name g) = Some g \<longrightarrow>
     (\<forall>j<i. \<forall>info. dd_get_member_info_by_index (lib_dd lib) v (word_of_nat j) = Some info \<longrightarrow>
       member_name info \<noteq> f_name g) \<longrightarrow> unset g m)"

lemma still_unset_Suc: "still_unset v i m \<Longrightarrow> still_unset v (Suc i) m"
  unfolding still_unset_def using less_SucI by meson

lemma members_sound:
  assumes "sound conv" and "pb_fresh (lib_pb lib) m"
    and "dd_get_type_kind (lib_dd lib) v \<in> {DDS_TK_STRUCT, DDS_TK_VALUE, DDS_TK_ALIAS}"
    and "each_element (dds_member_to_pb lib conv v) 0 (unat (dd_get_member_count (lib_dd lib) v)) m st = Inr (True, m', st')"
  shows "rep v m'"
proof -
  let ?n = "unat (dd_get_member_count (lib_dd lib) v)"
  let ?J = "\<lambda>i m (st :: 'b ProtobufConverterState). still_unset v i m \<and> (\<forall>j<i. member_carried lib text_of octets_of rep v j m)"
  have "?J (0 + ?n) m' st'"
  proof (rule each_element_invariant [where J = ?J, OF assms(4)])
    show "?J 0 m st" using assms(2) by (simp add: still_unset_def pb_fresh_def unset_def)
  next
    fix k m1 st1 m2 st2
    assume k: "k < 0 + ?n" and J: "?J k m1 st1" and s: "dds_member_to_pb lib conv v k m1 st1 = Inr (True, m2, st2)"
    from s obtain info where info: "dd_get_member_info_by_index (lib_dd lib) v (word_of_nat k) = Some info"
      by (auto simp: dds_member_to_pb_def split: option.splits)
    have other: "member_name info' \<noteq> member_name info"
      if "j < k" "dd_get_member_info_by_index (lib_dd lib) v (word_of_nat j) = Some info'" for j info'
      using distinct_names [OF assms(3) _ _ _ that(2) info] that(1) k by simp
    have un: "unset f m1" if "pb_find_field (lib_pb lib) m1 (member_name info) = Some f" for f
      using J other that find_name [OF that] unfolding still_unset_def by metis
    have here: "member_carried lib text_of octets_of rep v k m2"
      by (rule member_sound(1) [OF assms(1) info _ s]) (rule un)
    have changed: "m2 = m1 \<or> dd_member_exists (lib_dd lib) v (member_id info)
        \<and> (\<exists>f. pb_find_field (lib_pb lib) m1 (member_name info) = Some f)"
      by (rule member_sound(3) [OF assms(1) info _ s]) (rule un)
    show "?J (Suc k) m2 st2"
    proof (cases "m2 = m1")
      case True
      then show ?thesis using J here still_unset_Suc less_Suc_eq by metis
    next
      case False
      then obtain g where g: "pb_find_field (lib_pb lib) m1 (member_name info) = Some g"
        and ex: "dd_member_exists (lib_dd lib) v (member_id info)" using changed by blast
      have only: "only_field g m1 m2"
        by (rule member_sound(2) [OF assms(1) info _ s g]) (rule un)
      have "f_name g = member_name info" using g by (rule find_name)
      have "still_unset v (Suc k) m2" unfolding still_unset_def
      proof (intro allI impI)
        fix h
        assume h: "pb_find_field (lib_pb lib) m2 (f_name h) = Some h"
          and names: "\<forall>j<Suc k. \<forall>info. dd_get_member_info_by_index (lib_dd lib) v (word_of_nat j) = Some info \<longrightarrow> member_name info \<noteq> f_name h"
        have find: "pb_find_field (lib_pb lib) m1 (f_name h) = Some h" using h only by (simp add: only_field_def)
        moreover have "still_unset v (Suc k) m1" using J still_unset_Suc by blast
        ultimately have "unset h m1" using names unfolding still_unset_def by blast
        moreover have "f_name h \<noteq> f_name g" using names info \<open>f_name g = _\<close> by auto
        ultimately show "unset h m2" using only find unset_same unfolding only_field_def by blast
      qed
      moreover have "member_carried lib text_of octets_of rep v j m2" if "j < Suc k" for j
      proof (cases "j = k")
        case False
        then have "j < k" using that by simp
        then show ?thesis using J k by (intro member_carried_step [OF _ _ _ info ex g only other]) auto
      qed (use here in simp)
      ultimately show ?thesis by blast
    qed
  qed
  then show ?thesis by (simp add: representsI)
qed

lemma dds_to_protobuf_sound: "sound (dds_to_protobuf lib n)"
proof (induction n)
  case 0
  show ?case by (simp add: sound_def)
next
  case (Suc n)
  show ?case unfolding sound_def
    by (auto split: option.splits if_splits intro: members_sound [OF Suc.IH])
qed

end

end
