(* ===== verification/Protobuf_To_Dds_Correct.thy ===== *)
theory Protobuf_To_Dds_Correct
  imports Protobuf_To_Dds Dds_To_Protobuf_Correct
begin

text \<open>
  The correctness of the conversion to DynamicData: the objects it binds are unbound again,
  and after a success every field of the message is stored in the member of its name.
\<close>

section \<open>Bound objects\<close>

lemma write_bound_member_keeps:
  assumes "bind_laws (lib_dd lib)" and "keeps_bound body"
    and "write_bound_member lib tc i body v st = Inr (ok, v', st')"
  shows "bound_types st' = bound_types st"
proof (cases "dds_data_cache st tc = Some True")
  case True
  then show ?thesis using assms(1,3) by (simp add: write_bound_member_def bind_laws_def)
next
  case False
  show ?thesis
  proof (cases "dd_bind (lib_dd lib) v False i")
    case None
    then show ?thesis using assms(3) False by (simp add: write_bound_member_def)
  next
    case (Some c)
    obtain c' st1 where b: "body c (st\<lparr>dds_data_cache := (dds_data_cache st)(tc \<mapsto> True)\<rparr>) = Inr (ok, c', st1)"
      and st': "st' = st1\<lparr>dds_data_cache := (dds_data_cache st1)(tc \<mapsto> \<not> fst (dd_unbind (lib_dd lib) v i c'))\<rparr>"
      using assms(3) False Some
      by (auto simp: write_bound_member_def bindF_eq_Inr Let_def case_prod_beta)
    have "bound_types st1 = insert tc (bound_types st)"
      using keeps_boundD [OF assms(2) b] by (auto simp: bound_types_def)
    moreover have "tc \<notin> bound_types st" using False by (simp add: bound_types_def)
    ultimately show ?thesis using assms(1) unfolding st' by (auto simp: bound_types_def bind_laws_def)
  qed
qed

lemma message_to_dds_keeps: "(\<And>m. keeps_bound (\<lambda>c. conv c m)) \<Longrightarrow> keeps_bound (pb_message_to_dds conv x)"
  by (cases x) (auto simp: keeps_bound_def pb_message_to_dds_def)

lemma singular_field_keeps:
  assumes "bind_laws (lib_dd lib)" and "\<And>m. keeps_bound (\<lambda>c. conv c m)"
    and "pb_singular_field_to_dds lib conv st v info tc kind m f = Inr (ok, v', st')"
  shows "bound_types st' = bound_types st"
proof -
  obtain ok1 st1 where g: "get_cached_dds_data tc st = (ok1, st1)" by fastforce
  show ?thesis
    using assms(3) g get_cached_bound [OF g]
      write_bound_member_keeps [OF assms(1) message_to_dds_keeps [where conv = conv, OF assms(2)]]
    by (auto simp: pb_singular_field_to_dds_def bindF_eq_Inr split: if_splits)
qed

lemma repeated_elements_keeps:
  assumes "bind_laws (lib_dd lib)" and "\<And>m. keeps_bound (\<lambda>c. conv c m)"
  shows "keeps_bound (pb_repeated_elements lib conv el_tc el_kind m f)"
  unfolding keeps_bound_def
proof (intro allI impI)
  fix c st ok c' st'
  assume run: "pb_repeated_elements lib conv el_tc el_kind m f c st = Inr (ok, c', st')"
  let ?n = "pb_field_size (lib_pb lib) m f"
  have msg: "bound_types st' = bound_types st"
    if "each_element (\<lambda>j. write_bound_member lib el_tc (element_id j)
          (pb_message_to_dds conv (pb_get_repeated (lib_pb lib) m f j))) 0 ?n c st = Inr (ok, c', st')" for st
    using that
    by (rule each_element_keeps [where rel = "\<lambda>a b. bound_types b = bound_types a"])
      (auto dest: write_bound_member_keeps [OF assms(1) message_to_dds_keeps [where conv = conv, OF assms(2)]])
  have sc: "st' = st"
    if "each_element (pb_element_to_dds lib el_tc el_kind m f) 0 ?n c st = Inr (ok, c', st')"
    using that by (rule each_element_keeps [where rel = "\<lambda>a b. b = a"]) (auto simp: pb_element_to_dds_def bindF_eq_Inr)
  obtain ok1 st1 where g: "get_cached_dds_data el_tc st = (ok1, st1)" by fastforce
  show "bound_types st' = bound_types st"
    using run g get_cached_bound [OF g] msg sc by (auto simp: pb_repeated_elements_def split: if_splits)
qed

lemma repeated_field_keeps:
  assumes "bind_laws (lib_dd lib)" and "\<And>m. keeps_bound (\<lambda>c. conv c m)"
    and "pb_repeated_field_to_dds lib conv st v info tc m f = Inr (ok, v', st')"
  shows "bound_types st' = bound_types st"
proof -
  obtain ok1 st1 where g: "get_cached_dds_data tc st = (ok1, st1)" by fastforce
  have body: "keeps_bound (\<lambda>c st. case tc_content_type (lib_tc lib) tc of
            None \<Rightarrow> Inr (False, c, st)
          | Some el_tc \<Rightarrow>
              (case resolve_type_code (lib_tc lib) el_tc of
                 None \<Rightarrow> Inl Stack_Overflow
               | Some None \<Rightarrow> Inr (False, c, st)
               | Some (Some (el_tc, el_kind)) \<Rightarrow> pb_repeated_elements lib conv el_tc el_kind m f c st))"
    unfolding keeps_bound_def
    by (auto split: option.splits dest: keeps_boundD [OF repeated_elements_keeps [OF assms(1,2)]])
  show ?thesis
    using assms(3) g get_cached_bound [OF g] write_bound_member_keeps [OF assms(1) body]
    by (auto simp: pb_repeated_field_to_dds_def split: if_splits)
qed

lemma field_to_dds_keeps:
  assumes "bind_laws (lib_dd lib)" and "\<And>m. keeps_bound (\<lambda>c. conv c m)"
    and "pb_field_to_dds lib conv m fs i v st = Inr (ok, v', st')"
  shows "bound_types st' = bound_types st"
proof -
  consider "st' = st" | info tc where "pb_repeated_field_to_dds lib conv st v info tc m (fs ! i) = Inr (ok, v', st')"
    | info tc kind where "pb_singular_field_to_dds lib conv st v info tc kind m (fs ! i) = Inr (ok, v', st')"
    using assms(3) by (auto simp: pb_field_to_dds_def Let_def split: option.splits if_splits)
  then show ?thesis
    by cases (simp, erule repeated_field_keeps [OF assms(1,2)], erule singular_field_keeps [OF assms(1,2)])
qed

lemma protobuf_to_dds_keeps_bound:
  assumes "bind_laws (lib_dd lib)"
  shows "keeps_bound (\<lambda>v. protobuf_to_dds lib n v m)"
proof (induction n arbitrary: m)
  case 0
  then show ?case by (simp add: keeps_bound_def)
next
  case (Suc n)
  have "bound_types st' = bound_types st"
    if "each_element (pb_field_to_dds lib (protobuf_to_dds lib n) m fs) 0 k v st = Inr (ok, v', st')" for fs k v st ok v' st'
    using that
    by (rule each_element_keeps [where rel = "\<lambda>a b. bound_types b = bound_types a"])
      (simp_all add: field_to_dds_keeps [OF assms Suc.IH])
  then show ?case
    by (auto simp: keeps_bound_def Let_def split: if_splits)
qed

section \<open>When a message is stored\<close>

text \<open>
  \<open>value_stored rel f kind v i x\<close>: the member \<open>i\<close> of \<open>v\<close>, of the given kind, holds the value \<open>x\<close>
  of the field \<open>f\<close>. A number that is narrowed keeps its value, a string is cut at its first
  nul, an enumerator is known by its number.
\<close>

definition value_stored ::
  "('v, 'tc, 's, 'm) converter_lib \<Rightarrow> 'v content \<Rightarrow> 'v content \<Rightarrow> ('v \<Rightarrow> 'm \<Rightarrow> bool) \<Rightarrow> pb_field \<Rightarrow> DDS_TCKind \<Rightarrow> 'v \<Rightarrow>
   DDS_DynamicDataMemberId \<Rightarrow> 'm pb_value \<Rightarrow> bool" where
  "value_stored lib text_of octets_of rel f kind v i x \<longleftrightarrow>
     (case x of
        PV_double d \<Rightarrow> dd_get_double (lib_dd lib) v i = Some d
      | PV_float d \<Rightarrow> dd_get_float (lib_dd lib) v i = Some d
      | PV_int64 n \<Rightarrow> dd_get_longlong (lib_dd lib) v i = Some n
      | PV_uint64 n \<Rightarrow> dd_get_ulonglong (lib_dd lib) v i = Some n
      | PV_int32 n \<Rightarrow>
          if kind = DDS_TK_SHORT then \<exists>s. dd_get_short (lib_dd lib) v i = Some s \<and> sint s = sint n
          else if kind = DDS_TK_CHAR then \<exists>c. dd_get_char (lib_dd lib) v i = Some c \<and> sint c = sint n
          else dd_get_long (lib_dd lib) v i = Some n
      | PV_uint32 n \<Rightarrow>
          if kind = DDS_TK_USHORT then \<exists>s. dd_get_ushort (lib_dd lib) v i = Some s \<and> unat s = unat n
          else if kind = DDS_TK_OCTET then \<exists>c. dd_get_octet (lib_dd lib) v i = Some c \<and> unat c = unat n
          else dd_get_ulong (lib_dd lib) v i = Some n
      | PV_bool b \<Rightarrow> dd_get_boolean (lib_dd lib) v i = Some (if b then 1 else 0)
      | PV_string s \<Rightarrow>
          if f_type f = TYPE_BYTES then octets_of v i = Some (sized_bytes s)
          else text_of v i = Some (c_str_bytes s)
      | PV_enum e \<Rightarrow> \<exists>n. pb_enum_number (lib_pb lib) f e = Some n \<and> dd_get_long (lib_dd lib) v i = Some n
      | PV_message sub \<Rightarrow> \<exists>c. dd_bind (lib_dd lib) v False i = Some c \<and> rel c sub)"

text \<open>
  The elements of the field are the first ones of the collection. The conversion writes one after
  the other and does not shorten a collection that was longer before, so that nothing is said of the
  elements behind them; the base transformation clears its samples when their loan is returned.
\<close>

definition elements_stored ::
  "('v, 'tc, 's, 'm) converter_lib \<Rightarrow> 'v content \<Rightarrow> 'v content \<Rightarrow> ('v \<Rightarrow> 'm \<Rightarrow> bool) \<Rightarrow> pb_field \<Rightarrow> 'tc \<Rightarrow> 'v \<Rightarrow>
   DDS_DynamicDataMemberId \<Rightarrow> 'm pb_value list \<Rightarrow> bool" where
  "elements_stored lib text_of octets_of rel f tc v i xs \<longleftrightarrow> (xs \<noteq> [] \<longrightarrow>
     (\<exists>c el_tc el_tc' el_kind. dd_bind (lib_dd lib) v False i = Some c
        \<and> tc_content_type (lib_tc lib) tc = Some el_tc \<and> alias_end (lib_tc lib) el_tc el_tc' el_kind
        \<and> (\<forall>j < length xs. value_stored lib text_of octets_of rel f el_kind c (element_id j) (xs ! j))))"

text \<open>The member with the name of the field, found through the type of the object.\<close>

definition field_stored ::
  "('v, 'tc, 's, 'm) converter_lib \<Rightarrow> 'v content \<Rightarrow> 'v content \<Rightarrow> ('v \<Rightarrow> 'm \<Rightarrow> bool) \<Rightarrow> 'm \<Rightarrow> pb_field \<Rightarrow> 'v \<Rightarrow> bool" where
  "field_stored lib text_of octets_of rel m f v \<longleftrightarrow>
     (\<exists>info tc0 tc kind. dd_get_member_info (lib_dd lib) v (f_name f) = Some info
        \<and> dd_get_member_type (lib_dd lib) v (member_id info) = Some tc0 \<and> alias_end (lib_tc lib) tc0 tc kind
        \<and> (if f_repeated f \<or> f_map f
           then elements_stored lib text_of octets_of rel f tc v (member_id info) (pb_elements (lib_pb lib) m f)
           else pb_has_field (lib_pb lib) m f \<longrightarrow>
                value_stored lib text_of octets_of rel f kind v (member_id info) (pb_get (lib_pb lib) m f)))"

lemma value_stored_mono [mono]:
  "rel \<le> rel' \<Longrightarrow> value_stored lib t oc rel f kind v i x \<longrightarrow> value_stored lib t oc rel' f kind v i x"
  by (cases x) (auto simp: value_stored_def le_fun_def)

lemma elements_stored_mono [mono]:
  assumes "rel \<le> rel'"
  shows "elements_stored lib t oc rel f tc v i xs \<longrightarrow> elements_stored lib t oc rel' f tc v i xs"
proof -
  have "\<And>kind v i x. value_stored lib t oc rel f kind v i x \<Longrightarrow> value_stored lib t oc rel' f kind v i x"
    using value_stored_mono [OF assms] by blast
  then show ?thesis unfolding elements_stored_def by fast
qed

lemma field_stored_mono [mono]:
  assumes "rel \<le> rel'"
  shows "field_stored lib t oc rel m f v \<longrightarrow> field_stored lib t oc rel' m f v"
proof -
  have "\<And>kind v i x. value_stored lib t oc rel f kind v i x \<Longrightarrow> value_stored lib t oc rel' f kind v i x"
    "\<And>tc v i xs. elements_stored lib t oc rel f tc v i xs \<Longrightarrow> elements_stored lib t oc rel' f tc v i xs"
    by (erule mp [OF value_stored_mono [OF assms]], erule mp [OF elements_stored_mono [OF assms]])
  then show ?thesis unfolding field_stored_def by metis
qed

inductive stored ::
  "('v, 'tc, 's, 'm) converter_lib \<Rightarrow> 'v content \<Rightarrow> 'v content \<Rightarrow> 'v \<Rightarrow> 'm \<Rightarrow> bool"
  for lib text_of octets_of where
  storedI: "\<forall>f \<in> set (pb_list_fields (lib_pb lib) m).
      field_stored lib text_of octets_of (stored lib text_of octets_of) m f v \<Longrightarrow>
    stored lib text_of octets_of v m"

inductive_simps stored_iff: "stored lib text_of octets_of v m"

section \<open>The contract of the libraries\<close>

text \<open>
  \<open>keeps_member j v v'\<close>: what could be read of the member \<open>j\<close> of \<open>v\<close> can be read of \<open>v'\<close>.
\<close>

definition keeps_member ::
  "('v, 'tc, 's, 'm) converter_lib \<Rightarrow> 'v content \<Rightarrow> 'v content \<Rightarrow> DDS_DynamicDataMemberId \<Rightarrow> 'v \<Rightarrow> 'v \<Rightarrow> bool" where
  "keeps_member lib text_of octets_of j v v' \<longleftrightarrow>
     (\<forall>f kind x rel. value_stored lib text_of octets_of rel f kind v j x \<longrightarrow>
        value_stored lib text_of octets_of rel f kind v' j x)
     \<and> (\<forall>c. dd_bind (lib_dd lib) v False j = Some c \<longrightarrow> dd_bind (lib_dd lib) v' False j = Some c)"

text \<open>An object of the same type: its members have the same names, ids and types.\<close>

definition same_shape :: "('v, 'tc, 's) dd_ops \<Rightarrow> 'v \<Rightarrow> 'v \<Rightarrow> bool" where
  "same_shape dd v v' \<longleftrightarrow>
     (\<forall>name. map_option member_id (dd_get_member_info dd v' name) = map_option member_id (dd_get_member_info dd v name))
     \<and> (\<forall>i tc. dd_get_member_type dd v i = Some tc \<longrightarrow> dd_get_member_type dd v' i = Some tc)
     \<and> dd_get_type dd v' = dd_get_type dd v"

text \<open>A write of the member \<open>i\<close>.\<close>

definition writes ::
  "('v, 'tc, 's, 'm) converter_lib \<Rightarrow> 'v content \<Rightarrow> 'v content \<Rightarrow> DDS_DynamicDataMemberId \<Rightarrow> 'v \<Rightarrow> 'v \<Rightarrow> bool" where
  "writes lib text_of octets_of i v v' \<longleftrightarrow>
     same_shape (lib_dd lib) v v' \<and> (\<forall>j. j \<noteq> i \<longrightarrow> keeps_member lib text_of octets_of j v v')"

lemma writes_refl: "writes lib t oc i v v"
  by (simp add: writes_def same_shape_def keeps_member_def)

lemma writes_trans: "writes lib t oc i v v' \<Longrightarrow> writes lib t oc i v' v'' \<Longrightarrow> writes lib t oc i v v''"
  by (simp add: writes_def same_shape_def keeps_member_def)

lemma writes_keeps_stored:
  "writes lib t oc i v v' \<Longrightarrow> j \<noteq> i \<Longrightarrow> value_stored lib t oc rel f kind v j x \<Longrightarrow> value_stored lib t oc rel f kind v' j x"
  by (simp add: writes_def keeps_member_def)

lemma element_id_inj: "j < 2 ^ 31 \<Longrightarrow> k < 2 ^ 31 \<Longrightarrow> element_id j = element_id k \<longleftrightarrow> j = k"
  by (simp add: element_id_def word_of_nat_eq_iff take_bit_nat_eq_self del: of_nat_add of_nat_Suc)

text \<open>
  Every setter writes the member it names and only that one; so does the content that an
  unbound object leaves, which has the type it was bound with. The names of the members are
  distinct, as are the names of the listed fields, whose sizes are C \<open>int\<close>s.
\<close>

locale dds_writing =
  fixes lib :: "('v, 'tc, 's, 'm) converter_lib" and text_of :: "'v content" and octets_of :: "'v content"
  assumes bind_unbind: "bind_laws (lib_dd lib)"
    and set_double: "dd_set_double (lib_dd lib) v i d64 = Some v' \<Longrightarrow>
          writes lib text_of octets_of i v v' \<and> dd_get_double (lib_dd lib) v' i = Some d64"
    and set_float: "dd_set_float (lib_dd lib) v i d32 = Some v' \<Longrightarrow>
          writes lib text_of octets_of i v v' \<and> dd_get_float (lib_dd lib) v' i = Some d32"
    and set_longlong: "dd_set_longlong (lib_dd lib) v i n64 = Some v' \<Longrightarrow>
          writes lib text_of octets_of i v v' \<and> dd_get_longlong (lib_dd lib) v' i = Some n64"
    and set_ulonglong: "dd_set_ulonglong (lib_dd lib) v i n64 = Some v' \<Longrightarrow>
          writes lib text_of octets_of i v v' \<and> dd_get_ulonglong (lib_dd lib) v' i = Some n64"
    and set_long: "dd_set_long (lib_dd lib) v i n32 = Some v' \<Longrightarrow>
          writes lib text_of octets_of i v v' \<and> dd_get_long (lib_dd lib) v' i = Some n32"
    and set_ulong: "dd_set_ulong (lib_dd lib) v i n32 = Some v' \<Longrightarrow>
          writes lib text_of octets_of i v v' \<and> dd_get_ulong (lib_dd lib) v' i = Some n32"
    and set_short: "dd_set_short (lib_dd lib) v i n16 = Some v' \<Longrightarrow>
          writes lib text_of octets_of i v v' \<and> dd_get_short (lib_dd lib) v' i = Some n16"
    and set_ushort: "dd_set_ushort (lib_dd lib) v i n16 = Some v' \<Longrightarrow>
          writes lib text_of octets_of i v v' \<and> dd_get_ushort (lib_dd lib) v' i = Some n16"
    and set_char: "dd_set_char (lib_dd lib) v i n8 = Some v' \<Longrightarrow>
          writes lib text_of octets_of i v v' \<and> dd_get_char (lib_dd lib) v' i = Some n8"
    and set_octet: "dd_set_octet (lib_dd lib) v i n8 = Some v' \<Longrightarrow>
          writes lib text_of octets_of i v v' \<and> dd_get_octet (lib_dd lib) v' i = Some n8"
    and set_boolean: "dd_set_boolean (lib_dd lib) v i n8 = Some v' \<Longrightarrow>
          writes lib text_of octets_of i v v' \<and> dd_get_boolean (lib_dd lib) v' i = Some n8"
    and set_string: "dd_set_string (lib_dd lib) v i bytes = Some v' \<Longrightarrow>
          writes lib text_of octets_of i v v' \<and> text_of v' i = Some bytes"
    and set_char_array: "dd_set_char_array (lib_dd lib) v i bytes = Some v' \<Longrightarrow>
          writes lib text_of octets_of i v v' \<and> octets_of v' i = Some bytes"
    and set_octet_array: "dd_set_octet_array (lib_dd lib) v i bytes = Some v' \<Longrightarrow>
          writes lib text_of octets_of i v v' \<and> octets_of v' i = Some bytes"
    and unbind_writes: "dd_bind (lib_dd lib) v False i = Some c \<Longrightarrow> dd_get_type (lib_dd lib) c' = dd_get_type (lib_dd lib) c \<Longrightarrow>
          dd_unbind (lib_dd lib) v i c' = (True, v') \<Longrightarrow>
          writes lib text_of octets_of i v v' \<and> dd_bind (lib_dd lib) v' False i = Some c'"
    and distinct_ids: "dd_get_member_info (lib_dd lib) v name = Some info \<Longrightarrow>
          dd_get_member_info (lib_dd lib) v name' = Some info' \<Longrightarrow> member_id info = member_id info' \<Longrightarrow> name = name'"
    and listed_once: "distinct (map f_name (pb_list_fields (lib_pb lib) m))"
    and size_bound: "f \<in> set (pb_list_fields (lib_pb lib) m) \<Longrightarrow> pb_field_size (lib_pb lib) m f < 2 ^ 31"
begin

abbreviation "write \<equiv> writes lib text_of octets_of"
abbreviation "holds \<equiv> value_stored lib text_of octets_of (stored lib text_of octets_of)"

definition sound :: "('v \<Rightarrow> 'm \<Rightarrow> 'tc ProtobufConverterState \<Rightarrow> ('v, 'tc) reading) \<Rightarrow> bool" where
  "sound conv \<longleftrightarrow> (\<forall>v m st v' st'. conv v m st = Inr (True, v', st') \<longrightarrow>
     stored lib text_of octets_of v' m \<and> dd_get_type (lib_dd lib) v' = dd_get_type (lib_dd lib) v)"

lemma set_resultD: "set_result v r = Inr (True, v') \<Longrightarrow> r = Some v'"
  by (auto simp: set_result_def split: option.splits)

lemma fuzzy_long_stored:
  assumes "set_fuzzy_long (lib_dd lib) v i kind n = Some v'"
  shows "write i v v' \<and> holds f kind v' i (PV_int32 n)"
proof -
  consider "kind = DDS_TK_SHORT" | "kind = DDS_TK_CHAR" | "kind \<notin> {DDS_TK_SHORT, DDS_TK_CHAR}" by blast
  then show ?thesis
    using assms set_short set_char set_long
    by cases (auto simp: set_fuzzy_long_iff set_fuzzy_other value_stored_def)
qed

lemma fuzzy_ulong_stored:
  assumes "set_fuzzy_ulong (lib_dd lib) v i kind n = Some v'"
  shows "write i v v' \<and> holds f kind v' i (PV_uint32 n)"
proof -
  consider "kind = DDS_TK_USHORT" | "kind = DDS_TK_OCTET" | "kind \<notin> {DDS_TK_USHORT, DDS_TK_OCTET}" by blast
  then show ?thesis
    using assms set_ushort set_octet set_ulong
    by cases (auto simp: set_fuzzy_ulong_iff set_fuzzy_other value_stored_def)
qed

lemma number_stored:
  assumes "pb_number_to_dds (lib_dd lib) f v i kind x = Inr (True, v')"
  shows "write i v v' \<and> holds f kind v' i x"
proof (cases x)
  case (PV_int32 n)
  then show ?thesis
    using assms fuzzy_long_stored by (auto simp: pb_number_to_dds_def dest!: set_resultD split: if_splits)
next
  case (PV_uint32 n)
  then show ?thesis
    using assms fuzzy_ulong_stored by (auto simp: pb_number_to_dds_def dest!: set_resultD split: if_splits)
qed (use assms set_double set_float set_longlong set_ulonglong set_boolean in
  \<open>auto simp: pb_number_to_dds_def value_stored_def dest!: set_resultD split: if_splits\<close>)

lemma scalar_stored:
  assumes "pb_scalar_to_dds lib f v i tc kind x = Inr (True, v')"
  shows "write i v v' \<and> holds f kind v' i x"
proof -
  consider (string) "f_type f = TYPE_STRING" | (bytes) "f_type f = TYPE_BYTES" | (enum) "f_type f = TYPE_ENUM"
    | (number) "f_type f \<notin> {TYPE_STRING, TYPE_BYTES, TYPE_ENUM}" by blast
  then show ?thesis
  proof cases
    case string
    then show ?thesis using assms set_string
      by (auto simp: pb_scalar_to_dds_def value_stored_def dest!: set_resultD split: pb_value.splits)
  next
    case bytes
    then show ?thesis using assms set_char_array set_octet_array
      by (auto simp: pb_scalar_to_dds_def set_fuzzy_bytes_def value_stored_def dest!: set_resultD
          split: pb_value.splits option.splits if_splits)
  next
    case enum
    then show ?thesis using assms set_long
      by (auto simp: pb_scalar_to_dds_def value_stored_def dest!: set_resultD split: pb_value.splits option.splits)
  next
    case number
    then show ?thesis using assms number_stored by (simp add: pb_scalar_to_dds_def)
  qed
qed

section \<open>Nested messages are stored\<close>

lemma write_bound_memberD:
  assumes "write_bound_member lib tc i body v st = Inr (True, v', st')"
  obtains c c' st0 st1 where "dd_bind (lib_dd lib) v False i = Some c" "body c st0 = Inr (True, c', st1)"
    "dd_unbind (lib_dd lib) v i c' = (True, v')"
proof -
  have "\<And>c. fst (dd_unbind (lib_dd lib) v i c)" "dd_bind (lib_dd lib) v True i = None"
    using bind_unbind by (auto simp: bind_laws_def)
  then show thesis
    using assms that
    by (cases "dds_data_cache st tc = Some True")
      (auto simp: write_bound_member_def bindF_eq_Inr Let_def case_prod_beta split: option.splits, metis prod.collapse)
qed

lemma message_member_stored:
  assumes "sound conv" and "write_bound_member lib tc i (pb_message_to_dds conv x) v st = Inr (True, v', st')"
  shows "write i v v' \<and> holds f kind v' i x"
proof -
  obtain c c' st0 st1 where c: "dd_bind (lib_dd lib) v False i = Some c"
    "pb_message_to_dds conv x c st0 = Inr (True, c', st1)" "dd_unbind (lib_dd lib) v i c' = (True, v')"
    using assms(2) by (rule write_bound_memberD)
  then obtain sub where sub: "x = PV_message sub" "conv c sub st0 = Inr (True, c', st1)"
    by (auto simp: pb_message_to_dds_def split: pb_value.splits)
  have "stored lib text_of octets_of c' sub" "dd_get_type (lib_dd lib) c' = dd_get_type (lib_dd lib) c"
    using assms(1) sub(2) unfolding sound_def by blast+
  then show ?thesis using unbind_writes [OF c(1) _ c(3)] sub(1) by (simp add: value_stored_def)
qed

lemma singular_field_stored:
  assumes "sound conv" and "pb_singular_field_to_dds lib conv st v info tc kind m f = Inr (True, v', st')"
  shows "write (member_id info) v v' \<and>
    (pb_has_field (lib_pb lib) m f \<longrightarrow> holds f kind v' (member_id info) (pb_get (lib_pb lib) m f))"
  using assms(2) message_member_stored [OF assms(1)] scalar_stored writes_refl
  by (auto simp: pb_singular_field_to_dds_def bindF_eq_Inr split: if_splits prod.splits)

lemma elements_stored_loop:
  assumes "each_element step 0 n c st = Inr (True, c', st')" and "n < 2 ^ 31"
    and step: "\<And>k c st c1 st1. k < n \<Longrightarrow> step k c st = Inr (True, c1, st1) \<Longrightarrow> write (element_id k) c c1 \<and> holds f kind c1 (element_id k) (xs ! k)"
  shows "(\<forall>j<n. holds f kind c' (element_id j) (xs ! j)) \<and> dd_get_type (lib_dd lib) c' = dd_get_type (lib_dd lib) c"
proof -
  let ?J = "\<lambda>k c1 st1. (\<forall>j<k. holds f kind c1 (element_id j) (xs ! j)) \<and> dd_get_type (lib_dd lib) c1 = dd_get_type (lib_dd lib) c"
  have "?J (0 + n) c' st'"
  proof (rule each_element_invariant [where J = ?J, OF assms(1)])
    fix k c1 st1 c2 st2
    assume k: "k < 0 + n" and J: "?J k c1 st1" and s: "step k c1 st1 = Inr (True, c2, st2)"
    have w: "write (element_id k) c1 c2" "holds f kind c2 (element_id k) (xs ! k)" using step [OF _ s] k by auto
    have "holds f kind c2 (element_id j) (xs ! j)" if "j < k" for j
      using writes_keeps_stored [OF w(1)] J that element_id_inj [of j k] k assms(2) by auto
    then show "?J (Suc k) c2 st2" using w J by (auto simp: less_Suc_eq writes_def same_shape_def)
  qed simp
  then show ?thesis by simp
qed

lemma nth_pb_elements: "j < pb_field_size (lib_pb lib) m f \<Longrightarrow> pb_elements (lib_pb lib) m f ! j = pb_get_repeated (lib_pb lib) m f j"
  by (simp add: pb_elements_def)

lemma repeated_elements_stored:
  assumes "sound conv" and "f \<in> set (pb_list_fields (lib_pb lib) m)" and "pb_repeated_elements lib conv el_tc el_kind m f c st = Inr (True, c', st')"
  shows "(\<forall>j < length (pb_elements (lib_pb lib) m f). holds f el_kind c' (element_id j) (pb_elements (lib_pb lib) m f ! j))
    \<and> dd_get_type (lib_dd lib) c' = dd_get_type (lib_dd lib) c"
proof -
  let ?n = "pb_field_size (lib_pb lib) m f" and ?xs = "pb_elements (lib_pb lib) m f"
  have len: "length ?xs = ?n" by (simp add: pb_elements_def)
  show ?thesis
  proof (cases "f_map f \<or> f_type f \<in> {TYPE_MESSAGE, TYPE_GROUP}")
    case True
    then obtain st0 where "each_element (\<lambda>j. write_bound_member lib el_tc (element_id j)
        (pb_message_to_dds conv (pb_get_repeated (lib_pb lib) m f j))) 0 ?n c st0 = Inr (True, c', st')"
      using assms(3) by (auto simp: pb_repeated_elements_def split: prod.splits if_splits)
    then show ?thesis unfolding len
      by (rule elements_stored_loop [OF _ size_bound [OF assms(2)]])
        (use message_member_stored [OF assms(1)] in \<open>simp add: nth_pb_elements\<close>)
  next
    case False
    then have "each_element (pb_element_to_dds lib el_tc el_kind m f) 0 ?n c st = Inr (True, c', st')"
      using assms(3) by (auto simp: pb_repeated_elements_def)
    then show ?thesis unfolding len
      by (rule elements_stored_loop [OF _ size_bound [OF assms(2)]])
        (use scalar_stored in \<open>auto simp: nth_pb_elements pb_element_to_dds_def bindF_eq_Inr\<close>)
  qed
qed

lemma repeated_field_stored:
  assumes "sound conv" and "f \<in> set (pb_list_fields (lib_pb lib) m)" and "pb_repeated_field_to_dds lib conv st v info tc m f = Inr (True, v', st')"
  shows "write (member_id info) v v' \<and>
    elements_stored lib text_of octets_of (stored lib text_of octets_of) f tc v' (member_id info) (pb_elements (lib_pb lib) m f)"
proof (cases "pb_field_size (lib_pb lib) m f = 0")
  case True
  then show ?thesis using assms(3)
    by (simp add: pb_repeated_field_to_dds_def writes_refl elements_stored_def pb_elements_def)
next
  case False
  let ?body = "\<lambda>c st. case tc_content_type (lib_tc lib) tc of
            None \<Rightarrow> Inr (False, c, st)
          | Some el_tc \<Rightarrow>
              (case resolve_type_code (lib_tc lib) el_tc of
                 None \<Rightarrow> Inl Stack_Overflow
               | Some None \<Rightarrow> Inr (False, c, st)
               | Some (Some (el_tc, el_kind)) \<Rightarrow> pb_repeated_elements lib conv el_tc el_kind m f c st)"
  obtain st0 where "write_bound_member lib tc (member_id info) ?body v st0 = Inr (True, v', st')"
    using assms(3) False by (auto simp: pb_repeated_field_to_dds_def split: prod.splits if_splits)
  then obtain c c' st1 st2 where c: "dd_bind (lib_dd lib) v False (member_id info) = Some c"
    and b: "?body c st1 = Inr (True, c', st2)" and u: "dd_unbind (lib_dd lib) v (member_id info) c' = (True, v')"
    by (rule write_bound_memberD)
  from b obtain el_tc0 el_tc el_kind where el: "tc_content_type (lib_tc lib) tc = Some el_tc0"
    "resolve_type_code (lib_tc lib) el_tc0 = Some (Some (el_tc, el_kind))"
    "pb_repeated_elements lib conv el_tc el_kind m f c st1 = Inr (True, c', st2)"
    by (auto split: option.splits)
  note xs = repeated_elements_stored [OF assms(1,2) el(3)]
  show ?thesis unfolding elements_stored_def
    using unbind_writes [OF c _ u] xs el(1) resolve_type_code_sound [OF el(2)] by blast
qed

section \<open>The message is stored\<close>

abbreviation "in_place \<equiv> field_stored lib text_of octets_of (stored lib text_of octets_of)"

text \<open>A write gives the member of the field the id and the type it had.\<close>

lemma write_member_info:
  assumes "write i v v'" and "dd_get_member_info (lib_dd lib) v name = Some info"
  obtains info' where "dd_get_member_info (lib_dd lib) v' name = Some info'" "member_id info' = member_id info"
  using assms by (auto simp: writes_def same_shape_def map_option_case dest!: spec [of _ name] split: option.splits)

lemma write_member_type:
  "write i v v' \<Longrightarrow> dd_get_member_type (lib_dd lib) v j = Some tc \<Longrightarrow> dd_get_member_type (lib_dd lib) v' j = Some tc"
  by (simp add: writes_def same_shape_def)

lemma field_to_dds_stored:
  assumes "sound conv" and "fs ! k \<in> set (pb_list_fields (lib_pb lib) m)"
    and "pb_field_to_dds lib conv m fs k v st = Inr (True, v', st')"
  obtains info where "dd_get_member_info (lib_dd lib) v (f_name (fs ! k)) = Some info"
    "write (member_id info) v v'" "in_place m (fs ! k) v'"
proof -
  let ?f = "fs ! k"
  obtain info tc0 tc kind where g: "dd_get_member_info (lib_dd lib) v (f_name ?f) = Some info"
    "dd_get_member_type (lib_dd lib) v (member_id info) = Some tc0"
    "resolve_type_code (lib_tc lib) tc0 = Some (Some (tc, kind))"
    and run: "(if f_repeated ?f \<or> f_map ?f then pb_repeated_field_to_dds lib conv st v info tc m ?f
      else pb_singular_field_to_dds lib conv st v info tc kind m ?f) = Inr (True, v', st')"
    using assms(3) by (auto simp: pb_field_to_dds_def get_member_info_def Let_def split: option.splits)
  have w: "write (member_id info) v v'"
    using run repeated_field_stored [OF assms(1,2)] singular_field_stored [OF assms(1)] by (auto split: if_splits)
  obtain info' where i': "dd_get_member_info (lib_dd lib) v' (f_name ?f) = Some info'" "member_id info' = member_id info"
    using w g(1) by (rule write_member_info)
  have "in_place m ?f v'"
    unfolding field_stored_def
    using i' write_member_type [OF w g(2)] resolve_type_code_sound [OF g(3)] run
      repeated_field_stored [OF assms(1,2)] singular_field_stored [OF assms(1)]
    by (metis (no_types, lifting))
  then show thesis using that g(1) w by blast
qed

lemma in_place_kept:
  assumes "in_place m f v" and "write i v v'" and "dd_get_member_info (lib_dd lib) v (f_name f) = Some info" and "member_id info \<noteq> i"
  shows "in_place m f v'"
proof -
  let ?j = "member_id info"
  obtain tc0 tc kind where s: "dd_get_member_type (lib_dd lib) v ?j = Some tc0" "alias_end (lib_tc lib) tc0 tc kind"
    "if f_repeated f \<or> f_map f
     then elements_stored lib text_of octets_of (stored lib text_of octets_of) f tc v ?j (pb_elements (lib_pb lib) m f)
     else pb_has_field (lib_pb lib) m f \<longrightarrow> holds f kind v ?j (pb_get (lib_pb lib) m f)"
    using assms(1,3) unfolding field_stored_def by auto
  have keeps: "keeps_member lib text_of octets_of ?j v v'" using assms(2,4) by (simp add: writes_def)
  have s': "if f_repeated f \<or> f_map f
     then elements_stored lib text_of octets_of (stored lib text_of octets_of) f tc v' ?j (pb_elements (lib_pb lib) m f)
     else pb_has_field (lib_pb lib) m f \<longrightarrow> holds f kind v' ?j (pb_get (lib_pb lib) m f)"
    using s(3) keeps unfolding elements_stored_def keeps_member_def by metis
  obtain info' where "dd_get_member_info (lib_dd lib) v' (f_name f) = Some info'" "member_id info' = ?j"
    using assms(2,3) by (rule write_member_info)
  then show ?thesis unfolding field_stored_def using write_member_type [OF assms(2) s(1)] s(2) s' by metis
qed

lemma fields_stored:
  assumes "sound conv" and fs: "fs = pb_list_fields (lib_pb lib) m"
    and "each_element (pb_field_to_dds lib conv m fs) 0 (length fs) v st = Inr (True, v', st')"
  shows "stored lib text_of octets_of v' m \<and> dd_get_type (lib_dd lib) v' = dd_get_type (lib_dd lib) v"
proof -
  let ?J = "\<lambda>k v1 st1. (\<forall>j<k. in_place m (fs ! j) v1) \<and> dd_get_type (lib_dd lib) v1 = dd_get_type (lib_dd lib) v"
  have "?J (0 + length fs) v' st'"
  proof (rule each_element_invariant [where J = ?J, OF assms(3)])
    fix k v1 st1 v2 st2
    assume k: "k < 0 + length fs" and J: "?J k v1 st1" and s: "pb_field_to_dds lib conv m fs k v1 st1 = Inr (True, v2, st2)"
    obtain info where w: "dd_get_member_info (lib_dd lib) v1 (f_name (fs ! k)) = Some info"
      "write (member_id info) v1 v2" "in_place m (fs ! k) v2"
      using assms(1) _ s by (rule field_to_dds_stored) (use k fs in auto)
    have "in_place m (fs ! j) v2" if "j < k" for j
    proof -
      have j: "in_place m (fs ! j) v1" using J that by blast
      then obtain info' where i': "dd_get_member_info (lib_dd lib) v1 (f_name (fs ! j)) = Some info'"
        by (auto simp: field_stored_def)
      have "f_name (fs ! j) \<noteq> f_name (fs ! k)"
        using listed_once [of m] that k unfolding fs [symmetric] distinct_conv_nth by fastforce
      then have "member_id info' \<noteq> member_id info" using distinct_ids [OF i' w(1)] by blast
      then show ?thesis by (rule in_place_kept [OF j w(2) i'])
    qed
    then show "?J (Suc k) v2 st2" using J w by (auto simp: less_Suc_eq writes_def same_shape_def)
  qed simp
  then show ?thesis by (auto simp: fs in_set_conv_nth intro!: storedI)
qed

lemma protobuf_to_dds_sound: "sound (protobuf_to_dds lib n)"
proof (induction n)
  case 0
  show ?case by (simp add: sound_def)
next
  case (Suc n)
  show ?case unfolding sound_def using fields_stored [OF Suc.IH refl] by (auto simp: Let_def)
qed

end

end
