(* ===== verification/Dynamic_Data_Tree.thy ===== *)
theory Dynamic_Data_Tree
  imports Protobuf_To_Dds_Correct
begin

text \<open>
  A DynamicData object as a tree, with the documented behaviour of the functions that the
  converters call. It satisfies the contracts of both directions, so their laws can hold
  together, and serves to evaluate the converters on concrete data.
\<close>

section \<open>Trees\<close>

text \<open>
  A scalar with its kind and its bits, a string, a sequence of octets, a structure with the
  name of its type and its members (name, whether the member exists, value), and a
  collection with the value that new elements have.
\<close>

datatype dval =
    DScalar DDS_TCKind "64 word"
  | DString "byte list"
  | DBytes "byte list"
  | DStruct string "(string \<times> bool \<times> dval) list"
  | DColl dval "dval list"

datatype dtc = TScalar DDS_TCKind | TString | TStruct string | TColl dtc

fun dtype :: "dval \<Rightarrow> dtc" where
  "dtype (DScalar k w) = TScalar k"
| "dtype (DString s) = TString"
| "dtype (DBytes s) = TColl (TScalar DDS_TK_OCTET)"
| "dtype (DStruct n ms) = TStruct n"
| "dtype (DColl p es) = TColl (dtype p)"

fun dtc_kind :: "dtc \<Rightarrow> DDS_TCKind" where
  "dtc_kind (TScalar k) = k"
| "dtc_kind TString = DDS_TK_STRING"
| "dtc_kind (TStruct n) = DDS_TK_STRUCT"
| "dtc_kind (TColl t) = DDS_TK_SEQUENCE"

definition dtc_ops :: "dtc tc_ops" where
  "dtc_ops = \<lparr>
     tc_kind = (\<lambda>t. Some (dtc_kind t)),
     tc_content_type = (\<lambda>t. case t of TColl t \<Rightarrow> Some t | _ \<Rightarrow> None),
     tc_name = (\<lambda>t. case t of TStruct n \<Rightarrow> Some n | _ \<Rightarrow> Some '''')\<rparr>"

section \<open>Members\<close>

text \<open>
  Members and elements are numbered from one. An element can be written one past the end of
  its collection.
\<close>

fun dget :: "dval \<Rightarrow> nat \<Rightarrow> dval option" where
  "dget (DStruct n ms) i = (if 0 < i \<and> i \<le> length ms then Some (snd (snd (ms ! (i - 1)))) else None)"
| "dget (DColl p es) i = (if 0 < i \<and> i \<le> length es then Some (es ! (i - 1))
     else if i = length es + 1 then Some p else None)"
| "dget _ i = None"

fun dput :: "dval \<Rightarrow> nat \<Rightarrow> dval \<Rightarrow> dval" where
  "dput (DStruct n ms) i x = DStruct n (ms[i - 1 := (fst (ms ! (i - 1)), True, x)])"
| "dput (DColl p es) i x = DColl p (if i \<le> length es then es[i - 1 := x] else es @ [x])"
| "dput v i x = v"

fun dcount :: "dval \<Rightarrow> nat" where
  "dcount (DStruct n ms) = length ms"
| "dcount (DColl p es) = length es"
| "dcount (DBytes s) = length s"
| "dcount _ = 0"

definition dinfo :: "nat \<Rightarrow> string \<Rightarrow> dval \<Rightarrow> DDS_DynamicDataMemberInfo" where
  "dinfo i name x = \<lparr>member_id = word_of_nat i, member_name = name, member_kind = dtc_kind (dtype x),
     element_count = word_of_nat (dcount x),
     element_kind = (case dtype x of TColl t \<Rightarrow> dtc_kind t | _ \<Rightarrow> DDS_TK_NULL)\<rparr>"

fun dnames :: "dval \<Rightarrow> string list" where
  "dnames (DStruct n ms) = map fst ms"
| "dnames _ = []"

definition dinfo_at :: "dval \<Rightarrow> nat \<Rightarrow> DDS_DynamicDataMemberInfo option" where
  "dinfo_at v k =
     (case v of
        DStruct n ms \<Rightarrow> if k < length ms \<and> distinct (map fst ms) then Some (dinfo (k + 1) (fst (ms ! k)) (snd (snd (ms ! k)))) else None
      | DColl p es \<Rightarrow> if k < length es then Some (dinfo (k + 1) '''' (es ! k)) else None
      | _ \<Rightarrow> None)"

definition dindex :: "dval \<Rightarrow> string \<Rightarrow> nat option" where
  "dindex v name = find (\<lambda>k. dnames v ! k = name \<and> int k < 2 ^ 31) [0..<length (dnames v)]"

fun dexists :: "dval \<Rightarrow> nat \<Rightarrow> bool" where
  "dexists (DStruct n ms) i = (0 < i \<and> i \<le> length ms \<and> fst (snd (ms ! (i - 1))))"
| "dexists _ i = True"

definition get_scalar :: "DDS_TCKind set \<Rightarrow> dval \<Rightarrow> 32 word \<Rightarrow> 64 word option" where
  "get_scalar ks v i = (case dget v (unat i) of Some (DScalar k w) \<Rightarrow> if k \<in> ks then Some w else None | _ \<Rightarrow> None)"

definition set_scalar :: "DDS_TCKind set \<Rightarrow> dval \<Rightarrow> 32 word \<Rightarrow> 64 word \<Rightarrow> dval option" where
  "set_scalar ks v i w = (case dget v (unat i) of
     Some (DScalar k _) \<Rightarrow> if k \<in> ks then Some (dput v (unat i) (DScalar k w)) else None | _ \<Rightarrow> None)"

definition dtext :: "dval content" where
  "dtext v i = (case dget v (unat i) of Some (DString s) \<Rightarrow> Some s | _ \<Rightarrow> None)"

definition doctets :: "dval content" where
  "doctets v i = (case dget v (unat i) of Some (DBytes s) \<Rightarrow> if int (length s) < 2 ^ 31 then Some s else None | _ \<Rightarrow> None)"

definition dget_string :: "dval \<Rightarrow> 32 word \<Rightarrow> 32 word \<Rightarrow> retcode \<times> byte list \<times> 32 word" where
  "dget_string v i n = (case dtext v i of
     None \<Rightarrow> (DDS_RETCODE_ERROR, [], n)
   | Some s \<Rightarrow> if length s + 1 \<le> unat n then (DDS_RETCODE_OK, s @ [0], word_of_nat (length s + 1))
               else (DDS_RETCODE_PRECONDITION_NOT_MET, [], word_of_nat (length s + 1)))"

definition dget_octet_seq :: "dval \<Rightarrow> 32 word \<Rightarrow> byte lseq \<Rightarrow> bool \<times> byte lseq" where
  "dget_octet_seq v i s = (case doctets v i of
     None \<Rightarrow> (False, s)
   | Some bs \<Rightarrow> if length bs \<le> length (l_mem s)
       then (True, s\<lparr>l_mem := bs @ drop (length bs) (l_mem s), l_len := length bs\<rparr>) else (False, s))"

definition dval_ops :: "(dval, dtc, byte lseq) dd_ops" where
  "dval_ops = \<lparr>
     dd_get_type = (\<lambda>v. Some (dtype v)),
     dd_get_type_kind = (\<lambda>v. dtc_kind (dtype v)),
     dd_get_member_count = (\<lambda>v. word_of_nat (dcount v)),
     dd_get_member_info_by_index = (\<lambda>v k. dinfo_at v (unat k)),
     dd_get_member_info = (\<lambda>v name. case dindex v name of None \<Rightarrow> None
       | Some k \<Rightarrow> (case dget v (k + 1) of None \<Rightarrow> None | Some x \<Rightarrow> Some (dinfo (k + 1) name x))),
     dd_member_exists = (\<lambda>v i. dexists v (unat i)),
     dd_get_member_type = (\<lambda>v i. map_option dtype (dget v (unat i))),
     dd_get_short = (\<lambda>v i. map_option ucast (get_scalar {DDS_TK_SHORT} v i)),
     dd_get_long = (\<lambda>v i. map_option ucast (get_scalar {DDS_TK_LONG, DDS_TK_ENUM} v i)),
     dd_get_longlong = get_scalar {DDS_TK_LONGLONG},
     dd_get_ushort = (\<lambda>v i. map_option ucast (get_scalar {DDS_TK_USHORT} v i)),
     dd_get_ulong = (\<lambda>v i. map_option ucast (get_scalar {DDS_TK_ULONG} v i)),
     dd_get_ulonglong = get_scalar {DDS_TK_ULONGLONG},
     dd_get_float = (\<lambda>v i. map_option ucast (get_scalar {DDS_TK_FLOAT} v i)),
     dd_get_double = get_scalar {DDS_TK_DOUBLE},
     dd_get_boolean = (\<lambda>v i. map_option ucast (get_scalar {DDS_TK_BOOLEAN} v i)),
     dd_get_char = (\<lambda>v i. map_option ucast (get_scalar {DDS_TK_CHAR} v i)),
     dd_get_octet = (\<lambda>v i. map_option ucast (get_scalar {DDS_TK_OCTET} v i)),
     dd_get_string = dget_string,
     dd_get_octet_seq = dget_octet_seq,
     dd_set_short = (\<lambda>v i x. set_scalar {DDS_TK_SHORT} v i (ucast x)),
     dd_set_long = (\<lambda>v i x. set_scalar {DDS_TK_LONG, DDS_TK_ENUM} v i (ucast x)),
     dd_set_longlong = set_scalar {DDS_TK_LONGLONG},
     dd_set_ushort = (\<lambda>v i x. set_scalar {DDS_TK_USHORT} v i (ucast x)),
     dd_set_ulong = (\<lambda>v i x. set_scalar {DDS_TK_ULONG} v i (ucast x)),
     dd_set_ulonglong = set_scalar {DDS_TK_ULONGLONG},
     dd_set_float = (\<lambda>v i x. set_scalar {DDS_TK_FLOAT} v i (ucast x)),
     dd_set_double = set_scalar {DDS_TK_DOUBLE},
     dd_set_boolean = (\<lambda>v i x. set_scalar {DDS_TK_BOOLEAN} v i (ucast x)),
     dd_set_char = (\<lambda>v i x. set_scalar {DDS_TK_CHAR} v i (ucast x)),
     dd_set_octet = (\<lambda>v i x. set_scalar {DDS_TK_OCTET} v i (ucast x)),
     dd_set_string = (\<lambda>v i s. case dget v (unat i) of Some (DString _) \<Rightarrow> Some (dput v (unat i) (DString s)) | _ \<Rightarrow> None),
     dd_set_char_array = (\<lambda>v i s. None),
     dd_set_octet_array = (\<lambda>v i s. case dget v (unat i) of
       Some (DBytes _) \<Rightarrow> if int (length s) < 2 ^ 31 then Some (dput v (unat i) (DBytes s)) else None | _ \<Rightarrow> None),
     dd_bind = (\<lambda>v bound i. if bound then None else dget v (unat i)),
     dd_unbind = (\<lambda>v i c. (True, dput v (unat i) c))\<rparr>"

definition tree_lib :: "(dval, dtc, byte lseq, pb_msg) converter_lib" where
  "tree_lib = \<lparr>lib_tc = dtc_ops, lib_dd = dval_ops, lib_pb = msg_ops, lib_seq = lseq_ops 0, lib_seq_init = empty_lseq\<rparr>"

lemma tree_lib_simps [simp]:
  "lib_tc tree_lib = dtc_ops" "lib_dd tree_lib = dval_ops" "lib_pb tree_lib = msg_ops"
  "lib_seq tree_lib = lseq_ops 0" "lib_seq_init tree_lib = empty_lseq"
  by (simp_all add: tree_lib_def)

section \<open>Writing a member\<close>

lemma dput_facts:
  assumes "dget v i = Some x"
  shows "dget (dput v i y) i = Some y" "j \<noteq> i \<Longrightarrow> dget v j = Some z \<Longrightarrow> dget (dput v i y) j = Some z"
    "dtype (dput v i y) = dtype v" "dnames (dput v i y) = dnames v"
proof -
  show "dget (dput v i y) i = Some y"
    using assms by (cases v) (auto simp: nth_append split: if_splits)
  show "dget (dput v i y) j = Some z" if "j \<noteq> i" "dget v j = Some z"
    using assms that by (cases v) (auto simp: nth_append nth_list_update split: if_splits)
  show "dtype (dput v i y) = dtype v" by (cases v) auto
  show "dnames (dput v i y) = dnames v"
    using assms by (cases v) (auto simp: map_update list_update_same_conv split: if_splits)
qed

lemma tree_value_stored:
  assumes "value_stored tree_lib dtext doctets rel f kind v j x"
    and "\<And>z. dget v (unat j) = Some z \<Longrightarrow> dget v' (unat j) = Some z"
  shows "value_stored tree_lib dtext doctets rel f kind v' j x"
proof (cases "dget v (unat j)")
  case None
  then show ?thesis
    using assms(1)
    by (cases x) (auto simp: value_stored_def dval_ops_def get_scalar_def dtext_def doctets_def split: if_splits)
next
  case (Some z)
  then have "dget v' (unat j) = dget v (unat j)" using assms(2) by simp
  then show ?thesis
    using assms(1) by (cases x) (auto simp: value_stored_def dval_ops_def get_scalar_def dtext_def doctets_def split: if_splits)
qed

lemma tree_writes:
  assumes "dget v (unat i) = Some x" and "dtype y = dtype x"
  shows "writes tree_lib dtext doctets i v (dput v (unat i) y)"
proof -
  let ?v = "dput v (unat i) y"
  have keep: "dget ?v (unat j) = Some z" if "j \<noteq> i" "dget v (unat j) = Some z" for j z
    using dput_facts(2) [OF assms(1)] that by (simp add: word_unat_eq_iff)
  have has: "dget ?v k = None \<longleftrightarrow> dget v k = None" if "k < length (dnames v)" for k
    using assms(1) that by (cases v) auto
  have "same_shape dval_ops v ?v"
    unfolding same_shape_def
  proof (intro conjI allI impI)
    fix name
    show "map_option member_id (dd_get_member_info dval_ops ?v name) = map_option member_id (dd_get_member_info dval_ops v name)"
    proof (cases "dindex v name")
      case None
      then show ?thesis using dput_facts(4) [OF assms(1)] by (simp add: dval_ops_def dindex_def)
    next
      case (Some k)
      then have "\<exists>n ms. v = DStruct n ms \<and> k < length ms" by (cases v) (auto simp: dindex_def find_Some_iff)
      then show ?thesis
        using Some dput_facts(4) [OF assms(1)] by (auto simp: dval_ops_def dindex_def dinfo_def)
    qed
  next
    fix j tc
    assume "dd_get_member_type dval_ops v j = Some tc"
    then show "dd_get_member_type dval_ops ?v j = Some tc"
      using assms keep dput_facts(1) [OF assms(1)] by (cases "j = i") (auto simp: dval_ops_def)
  next
    show "dd_get_type dval_ops ?v = dd_get_type dval_ops v" using dput_facts(3) [OF assms(1)] by (simp add: dval_ops_def)
  qed
  moreover have "keeps_member tree_lib dtext doctets j v ?v" if "j \<noteq> i" for j
    using keep [OF that] tree_value_stored unfolding keeps_member_def by (auto simp: dval_ops_def)
  ultimately show ?thesis by (simp add: writes_def)
qed

lemma tree_set_scalar:
  assumes "set_scalar ks v i w = Some v'"
  shows "writes tree_lib dtext doctets i v v' \<and> get_scalar ks v' i = Some w"
proof -
  obtain k w0 where d: "dget v (unat i) = Some (DScalar k w0)" "k \<in> ks" "v' = dput v (unat i) (DScalar k w)"
    using assms by (auto simp: set_scalar_def split: option.splits dval.splits if_splits)
  then show ?thesis using tree_writes [OF d(1)] dput_facts(1) [OF d(1)] by (simp add: get_scalar_def)
qed

lemma dindexD: "dindex v name = Some k \<Longrightarrow> dnames v ! k = name \<and> k < 2 ^ 31"
  by (auto simp: dindex_def find_Some_iff)

lemma msg_listed_once: "distinct (map f_name (msg_listed m))"
proof -
  have "inj_on f_name (set (msg_listed m))"
  proof (rule inj_onI)
    fix f g
    assume "f \<in> set (msg_listed m)" "g \<in> set (msg_listed m)" and "f_name f = f_name g"
    then have "Some f = msg_find m (f_name f)" "Some g = msg_find m (f_name f)" by (simp_all add: msg_listed_def)
    then show "f = g" by (metis option.inject)
  qed
  then show ?thesis by (simp add: distinct_map) (simp add: msg_listed_def)
qed

lemma ucast_up_down: "LENGTH('a) \<le> LENGTH('b) \<Longrightarrow> ucast (ucast x :: 'b::len word) = x" for x :: "'a::len word"
  by (rule ucast_of_unat_eq) (simp add: widen_unsigned)

interpretation tree_writing: dds_writing tree_lib dtext doctets
proof (unfold_locales, goal_cases)
  case 1
  show ?case by (simp add: bind_laws_def dval_ops_def)
next
  case (13 v i bytes v')
  then show ?case
    using tree_writes dput_facts(1) by (fastforce simp: dval_ops_def dtext_def split: option.splits dval.splits)
next
  case (14 v i bytes v')
  then show ?case by (simp add: dval_ops_def)
next
  case (15 v i bytes v')
  then show ?case
    using tree_writes dput_facts(1)
    by (fastforce simp: dval_ops_def doctets_def split: option.splits dval.splits if_splits)
next
  case (16 v i c c' v')
  then show ?case using tree_writes dput_facts(1) by (auto simp: dval_ops_def)
next
  case (17 v name info name' info')
  then show ?case
    using element_id_inj
    by (auto simp: dval_ops_def dinfo_def element_id_def split: option.splits dest!: dindexD)
next
  case (18 m)
  show ?case using msg_listed_once by (simp add: msg_ops_def)
next
  case (19 f m)
  then show ?case by (simp add: msg_ops_def msg_listed_def)
qed (auto simp: dval_ops_def ucast_up_down dest!: tree_set_scalar)

section \<open>Reading a tree\<close>

definition dcollection :: "dval \<Rightarrow> bool" where
  "dcollection v \<longleftrightarrow> dtc_kind (dtype v) \<noteq> DDS_TK_STRUCT"

lemma dtc_alias_end_struct: "alias_end dtc_ops t t' k \<Longrightarrow> dtc_kind t \<noteq> DDS_TK_ALIAS \<Longrightarrow> t' = t \<and> k = dtc_kind t"
  by (erule alias_endE) (auto simp: dtc_ops_def)

lemma dinfo_atD: "dinfo_at v k = Some info \<Longrightarrow> \<exists>x name. dget v (k + 1) = Some x \<and> info = dinfo (k + 1) name x"
  by (cases v) (auto simp: dinfo_at_def split: if_splits)

lemma dget_0: "dget v 0 = None"
  by (cases v) auto

lemma unat_Suc_cases: "unat (word_of_nat (unat w + 1) :: 32 word) \<in> {0, unat w + 1}" for w :: "32 word"
proof (cases "unat w + 1 < 2 ^ 32")
  case True
  then show ?thesis by (simp add: unat_of_nat del: of_nat_add of_nat_Suc)
next
  case False
  then have "unat w + 1 = 2 ^ 32" using unsigned_less [of w, where 'a = nat] by simp
  then show ?thesis by (simp only: unat_of_nat) simp
qed

lemma unat_of_nat_below: "k < unat (w :: 32 word) \<Longrightarrow> unat (word_of_nat k :: 32 word) = k"
  using unsigned_less [of w, where 'a = nat] by (simp add: unat_of_nat)

interpretation tree_reading: dds_reading tree_lib lseq_wf lseq_elems lseq_cap dtext doctets dcollection
proof (intro dds_reading.intro dds_reading_axioms.intro, goal_cases)
  case 1
  show ?case by (simp add: msg.pb_message_axioms)
next
  case 2
  show ?case by (simp add: lseq.dds_seq_axioms)
next
  case 3
  show ?case by (simp add: bind_laws_def dval_ops_def)
next
  case (4 v i n bytes n')
  then obtain s where s: "dtext v i = Some s" "length s + 1 \<le> unat n" "bytes = s @ [0]" "n' = word_of_nat (length s + 1)"
    by (auto simp: dval_ops_def dget_string_def split: option.splits if_splits)
  have "unat n' = length s + 1" using s(2,4) unsigned_less [of n, where 'a = nat] by (simp add: unat_of_nat del: of_nat_add of_nat_Suc)
  then show ?case using s by auto
next
  case (5 v i n bytes n')
  then show ?case by (auto simp: dval_ops_def dget_string_def split: option.splits if_splits)
next
  case 6
  show ?case by (simp add: lseq_wf_def lseq_cap_def empty_lseq_def)
next
  case (7 s buf n s')
  then show ?case by (auto simp: lseq_ops_def lseq_loan_def lseq_wf_def lseq_cap_def split: if_splits)
next
  case (8 s)
  then show ?case by (auto simp: lseq_ops_def lseq_wf_def empty_lseq_def)
next
  case (9 s buf)
  then show ?case by (auto simp: lseq_ops_def lseq_elems_def lseq_cap_def lseq_wf_def split: if_splits)
next
  case (10 s)
  then show ?case by (auto simp: lseq_ops_def lseq_elems_def split: if_splits)
next
  case (11 s v i s')
  then show ?case
    by (auto simp: dval_ops_def dget_octet_seq_def lseq_wf_def lseq_cap_def lseq_elems_def split: option.splits if_splits)
next
  case (12 v idx info bytes)
  then have "dinfo_at v (unat idx) = Some info" by (simp add: dval_ops_def)
  from dinfo_atD [OF this] obtain x name where x: "dget v (unat idx + 1) = Some x" "info = dinfo (unat idx + 1) name x"
    by blast
  have id: "unat (member_id info) = unat idx + 1"
    using 12(2) x(2) unat_Suc_cases [of idx] by (auto simp: dinfo_def doctets_def dget_0)
  then have "x = DBytes bytes \<and> length bytes < 2 ^ 31"
    using 12(2) x(1) by (auto simp: doctets_def split: dval.splits if_splits)
  then show ?case using x(2) by (simp add: dinfo_def unat_of_nat)
next
  case (13 v i tc tc' kind b c)
  then have "dtype c = tc" by (auto simp: dval_ops_def split: if_splits)
  then show ?case using 13(2,3) dtc_alias_end_struct by (fastforce simp: dcollection_def)
next
  case (14 c k info)
  then show ?case using dinfo_atD by (fastforce simp: dval_ops_def dinfo_def element_id_def)
next
  case (15 v k l info info')
  then obtain n ms where v: "v = DStruct n ms" by (cases v) (auto simp: dval_ops_def)
  have "unat (word_of_nat k :: 32 word) = k" "unat (word_of_nat l :: 32 word) = l"
    using 15(2,3) by (simp_all add: unat_of_nat_below)
  then show ?case
    using 15(4-6) unfolding v
    by (auto simp: dval_ops_def dinfo_at_def dinfo_def distinct_conv_nth split: if_splits)
qed

end
