(* ===== verification/Protobuf_Conversion.thy ===== *)
theory Protobuf_Conversion
  imports Dynamic_Data_Tree
begin

text \<open>
  The two conversions together: round trips of values, termination, and the properties of
  \<^verbatim>\<open>common/protobuf2dds/srcCxx\<close> with their evaluation on trees.
\<close>

section \<open>Round trips of values\<close>

text \<open>
  The kinds whose values the two conversions treat as bytes, and the others: a stored scalar
  is carried by the value it was stored from.
\<close>

lemma scalar_stored_carried:
  assumes "dds_scalar_value dd kind v i = Some (Some x)" and "dd = lib_dd lib"
    and "value_stored lib t oc rel f kind w j x"
    and "\<And>e. pb_enum_number (lib_pb lib) f e = Some e"
  shows "dds_scalar_value dd kind w j = Some (Some x)"
proof (cases kind)
  case DDS_TK_SHORT
  then show ?thesis using assms by (auto simp: value_stored_def widen_signed dest!: sint_eqI)
next
  case DDS_TK_CHAR
  then show ?thesis using assms by (auto simp: value_stored_def widen_signed dest!: sint_eqI)
next
  case DDS_TK_USHORT
  then show ?thesis using assms by (auto simp: value_stored_def widen_unsigned dest!: unat_eqI)
next
  case DDS_TK_OCTET
  then show ?thesis using assms by (auto simp: value_stored_def widen_unsigned dest!: unat_eqI)
qed (use assms in \<open>auto simp: value_stored_def split: if_splits\<close>)

section \<open>Termination\<close>

text \<open>
  The recursion follows the nesting of the data: a rank that decreases from an object to its
  complex members, and from a message to its sub-messages, bounds the depth. The chains of
  aliases end and the libraries do not overflow the stack.
\<close>

definition overflow_free :: "(fault + 'a) \<Rightarrow> bool" where
  "overflow_free r \<longleftrightarrow> r \<noteq> Inl Stack_Overflow"

lemma overflow_free_simps [simp]:
  "overflow_free (Inr x)" "overflow_free (Inl e) \<longleftrightarrow> e \<noteq> Stack_Overflow"
  "overflow_free (bindF r f) \<longleftrightarrow> overflow_free r \<and> (\<forall>x. r = Inr x \<longrightarrow> overflow_free (f x))"
  by (auto simp: overflow_free_def bindF_def split: sum.splits)

definition overflow_free_lib :: "('v, 'tc, 's, 'm) converter_lib \<Rightarrow> bool" where
  "overflow_free_lib lib \<longleftrightarrow> (\<forall>tc. resolve_type_code (lib_tc lib) tc \<noteq> None)
     \<and> (\<forall>m f x. overflow_free (pb_set (lib_pb lib) m f x) \<and> overflow_free (pb_add (lib_pb lib) m f x))
     \<and> (\<forall>m f. overflow_free (pb_mutable (lib_pb lib) m f) \<and> overflow_free (pb_new_element (lib_pb lib) m f))"

lemma each_element_overflow_free:
  "(\<And>k m st. k < i + n \<Longrightarrow> overflow_free (step k m st)) \<Longrightarrow> overflow_free (each_element step i n m st)"
  by (induction n arbitrary: i m st) auto

lemma with_bound_member_overflow_free:
  "(\<And>c b m st. dd_bind (lib_dd lib) v b i = Some c \<Longrightarrow> overflow_free (body c m st)) \<Longrightarrow>
   overflow_free (with_bound_member lib tc v i body m st)"
  by (auto simp: with_bound_member_def Let_def split: option.splits)

lemma write_bound_member_overflow_free:
  "(\<And>c b st. overflow_free (body c st)) \<Longrightarrow> overflow_free (write_bound_member lib tc i body v st)"
  by (auto simp: write_bound_member_def Let_def case_prod_beta split: option.splits)

locale nested_data =
  fixes lib :: "('v, 'tc, 's, 'm) converter_lib" and rank :: "'v \<Rightarrow> nat" and message_rank :: "'m \<Rightarrow> nat"
  assumes lib: "overflow_free_lib lib"
    and nested: "dd_bind (lib_dd lib) v b i = Some c \<Longrightarrow> rank c < rank v"
    and nested_message: "pb_has_field (lib_pb lib) m f \<Longrightarrow> pb_get (lib_pb lib) m f = PV_message sub \<Longrightarrow> message_rank sub < message_rank m"
    and nested_element: "k < pb_field_size (lib_pb lib) m f \<Longrightarrow> pb_get_repeated (lib_pb lib) m f k = PV_message sub \<Longrightarrow>
          message_rank sub < message_rank m"
begin

lemma resolve_ends: "resolve_type_code (lib_tc lib) tc \<noteq> None"
  using lib by (simp add: overflow_free_lib_def)

lemma sub_message_free:
  assumes "\<And>m st. overflow_free (conv m c st)"
  shows "overflow_free (fill_sub_message conv (\<lambda>m. pb_mutable (lib_pb lib) m f) (\<lambda>m. pb_set (lib_pb lib) m f) c m st)"
    "overflow_free (fill_sub_message conv (\<lambda>m. pb_new_element (lib_pb lib) m f) (\<lambda>m. pb_add (lib_pb lib) m f) c m st)"
  using lib assms by (auto simp: fill_sub_message_def overflow_free_lib_def split: option.splits)

lemma set_add_free:
  "overflow_free (set_or_fail (lib_pb lib) m f x st)" "overflow_free (add_or_fail (lib_pb lib) m f x st')"
  using lib by (auto simp: set_or_fail_def add_or_fail_def overflow_free_lib_def split: option.splits)

lemma string_free: "overflow_free (get_string_retry dd v i n b)"
  by (auto simp: get_string_retry_def Let_def split: prod.splits if_splits)

lemma singular_free:
  assumes "\<And>m c st. rank c < rank v \<Longrightarrow> overflow_free (conv m c st)"
  shows "overflow_free (dds_singular_member_to_pb lib conv st v info tc kind m f)"
proof -
  have "overflow_free (with_bound_member lib tc v (member_id info)
      (fill_sub_message conv (\<lambda>m. pb_mutable (lib_pb lib) m f) (\<lambda>m. pb_set (lib_pb lib) m f)) m st)" for st
    by (intro with_bound_member_overflow_free sub_message_free(1) assms) (rule nested)
  then show ?thesis using string_free set_add_free(1)
    by (auto simp: dds_singular_member_to_pb_def Let_def split: option.splits prod.splits)
qed

lemma collection_elements_free:
  assumes "\<And>m d st. rank d < rank c \<Longrightarrow> overflow_free (conv m d st)"
  shows "overflow_free (dds_collection_elements lib conv n el_tc kind f c m st)"
proof -
  have "overflow_free (add_message lib conv el_tc c f k m st)" for k m st
    unfolding add_message_def
    by (intro with_bound_member_overflow_free sub_message_free(2) assms) (rule nested)
  moreover have "overflow_free (add_string lib c f k m st)" for k m st
    using string_free set_add_free(2) by (auto simp: add_string_def split: prod.splits)
  moreover have "overflow_free (add_bytes lib c f k m st)" for k m st
    using set_add_free(2) by (auto simp: add_bytes_def Let_def split: prod.splits option.splits)
  moreover have "overflow_free (add_scalar lib kind c f k m st)"
    for k m and st :: "'tc ProtobufConverterState"
    using set_add_free(2) by (auto simp: add_scalar_def split: option.splits)
  ultimately show ?thesis
    by (auto simp: dds_collection_elements_def Let_def each_element_overflow_free split: prod.splits)
qed

lemma collection_free:
  assumes "\<And>m d st. rank d < rank v \<Longrightarrow> overflow_free (conv m d st)"
  shows "overflow_free (dds_collection_member_to_pb lib conv st v info tc m f)"
proof -
  have "overflow_free (with_bound_member lib tc v (member_id info) (\<lambda>c m st.
          case tc_content_type (lib_tc lib) tc of
            None \<Rightarrow> Inr (False, m, st)
          | Some el_tc \<Rightarrow>
              (case resolve_type_code (lib_tc lib) el_tc of
                 None \<Rightarrow> Inl Stack_Overflow
               | Some None \<Rightarrow> Inr (False, m, st)
               | Some (Some (el_tc, el_kind)) \<Rightarrow>
                   dds_collection_elements lib conv (unat (element_count info)) el_tc el_kind f c m st)) m st)" for st
  proof (rule with_bound_member_overflow_free)
    fix c b m st
    assume "dd_bind (lib_dd lib) v b (member_id info) = Some c"
    then have "overflow_free (conv m d st)" if "rank d < rank c" for d m st
      using nested assms that by (meson less_trans)
    then have "overflow_free (dds_collection_elements lib conv n el_tc el_kind f c m st)" for n el_tc el_kind
      by (rule collection_elements_free)
    then show "overflow_free (case tc_content_type (lib_tc lib) tc of
            None \<Rightarrow> Inr (False, m, st)
          | Some el_tc \<Rightarrow>
              (case resolve_type_code (lib_tc lib) el_tc of
                 None \<Rightarrow> Inl Stack_Overflow
               | Some None \<Rightarrow> Inr (False, m, st)
               | Some (Some (el_tc, el_kind)) \<Rightarrow>
                   dds_collection_elements lib conv (unat (element_count info)) el_tc el_kind f c m st))"
      by (auto simp: resolve_ends split: option.splits)
  qed
  then show ?thesis by (auto simp: dds_collection_member_to_pb_def split: prod.splits)
qed

lemma member_free:
  assumes "\<And>m d st. rank d < rank v \<Longrightarrow> overflow_free (conv m d st)"
  shows "overflow_free (dds_member_to_pb lib conv v i m st)"
  using singular_free [where conv = conv, OF assms] collection_free [where conv = conv, OF assms]
  by (auto simp: dds_member_to_pb_def resolve_ends split: option.splits)

lemma dds_to_protobuf_free: "rank v < n \<Longrightarrow> overflow_free (dds_to_protobuf lib n m v st)"
proof (induction n arbitrary: m v st)
  case (Suc n)
  have "overflow_free (dds_member_to_pb lib (dds_to_protobuf lib n) v i m st)" for i m st
    using Suc by (intro member_free) auto
  then show ?case
    by (auto simp: each_element_overflow_free resolve_ends split: option.splits)
qed simp

lemma scalar_free: "overflow_free (pb_scalar_to_dds lib f v i tc kind x)"
proof -
  have bytes: "set_fuzzy_bytes (lib_tc lib) (lib_dd lib) v i tc s \<noteq> None" for s
    by (auto simp: set_fuzzy_bytes_def resolve_ends split: option.splits)
  show ?thesis
    by (auto simp: pb_scalar_to_dds_def pb_number_to_dds_def set_result_def bytes split: pb_value.splits option.splits)
qed

lemma message_free:
  "(\<And>sub. x = PV_message sub \<Longrightarrow> overflow_free (conv c sub st)) \<Longrightarrow> overflow_free (pb_message_to_dds conv x c st)"
  by (auto simp: pb_message_to_dds_def split: pb_value.splits)

lemma singular_field_free:
  assumes "\<And>v sub st. message_rank sub < message_rank m \<Longrightarrow> overflow_free (conv v sub st)"
  shows "overflow_free (pb_singular_field_to_dds lib conv st v info tc kind m f)"
proof -
  have "overflow_free (pb_message_to_dds conv (pb_get (lib_pb lib) m f) c st)" if "pb_has_field (lib_pb lib) m f" for c st
    using assms nested_message [OF that] by (intro message_free) blast
  then show ?thesis using scalar_free
    by (auto simp: pb_singular_field_to_dds_def write_bound_member_overflow_free split: prod.splits)
qed

lemma repeated_elements_free:
  assumes "\<And>v sub st. message_rank sub < message_rank m \<Longrightarrow> overflow_free (conv v sub st)"
  shows "overflow_free (pb_repeated_elements lib conv el_tc el_kind m f c st)"
proof -
  have "overflow_free (write_bound_member lib el_tc (element_id k) (pb_message_to_dds conv (pb_get_repeated (lib_pb lib) m f k)) c st)"
    if "k < pb_field_size (lib_pb lib) m f" for k c st
    using assms nested_element [OF that] by (intro write_bound_member_overflow_free message_free) blast
  then show ?thesis using scalar_free
    by (auto simp: pb_repeated_elements_def pb_element_to_dds_def intro!: each_element_overflow_free split: prod.splits)
qed

lemma repeated_field_free:
  assumes "\<And>v sub st. message_rank sub < message_rank m \<Longrightarrow> overflow_free (conv v sub st)"
  shows "overflow_free (pb_repeated_field_to_dds lib conv st v info tc m f)"
  using repeated_elements_free [where conv = conv, OF assms]
  by (auto simp: pb_repeated_field_to_dds_def resolve_ends intro!: write_bound_member_overflow_free
      split: prod.splits option.splits)

lemma field_free:
  assumes "\<And>v sub st. message_rank sub < message_rank m \<Longrightarrow> overflow_free (conv v sub st)"
  shows "overflow_free (pb_field_to_dds lib conv m fs i v st)"
proof -
  have "get_member_info (lib_tc lib) (lib_dd lib) v name \<noteq> None" for name
    by (auto simp: get_member_info_def resolve_ends split: option.splits)
  then show ?thesis
    using singular_field_free [where conv = conv, OF assms] repeated_field_free [where conv = conv, OF assms]
    by (auto simp: pb_field_to_dds_def Let_def split: option.split)
qed

lemma protobuf_to_dds_free: "message_rank m < n \<Longrightarrow> overflow_free (protobuf_to_dds lib n v m st)"
proof (induction n arbitrary: m v st)
  case (Suc n)
  have "overflow_free (pb_field_to_dds lib (protobuf_to_dds lib n) m fs i v st)" for fs i v st
    using Suc by (intro field_free) auto
  then show ?case by (auto simp: Let_def each_element_overflow_free)
qed simp

end


section \<open>Evaluation on trees\<close>

lemma dget_size: "dget v i = Some c \<Longrightarrow> size c < size v"
proof (cases v)
  case (DStruct n ms)
  assume "dget v i = Some c"
  then have m: "i - 1 < length ms" "c = snd (snd (ms ! (i - 1)))" using DStruct by (auto split: if_splits)
  then obtain a b where "(a, b, c) \<in> set ms" using nth_mem [OF m(1)] by (metis prod.collapse)
  then have "size c \<le> size_list (size_prod (\<lambda>_. 0) (size_prod (\<lambda>_. 0) size)) ms"
    by (rule size_list_estimation') simp
  then show ?thesis using DStruct by simp
next
  case (DColl p es)
  assume "dget v i = Some c"
  then have "c \<in> set es \<or> c = p" using DColl by (auto split: if_splits)
  then have "size c \<le> size_list size es \<or> c = p" using size_list_estimation' [of c es "size c" size] by auto
  then show ?thesis using DColl by auto
qed simp_all

lemma msg_size: "PV_message sub \<in> set (msg_values m name) \<Longrightarrow> size sub < size m"
proof (cases m)
  case (Msg d vs)
  assume "PV_message sub \<in> set (msg_values m name)"
  then obtain xs where xs: "(name, xs) \<in> set vs" "PV_message sub \<in> set xs"
    using Msg by (auto split: option.splits dest: map_of_SomeD [OF sym])
  have "size sub \<le> size_list (size_pb_value size) xs"
    using xs(2) by (rule size_list_estimation') simp
  also have "\<dots> \<le> size_list (size_prod (\<lambda>_. 0) (size_list (size_pb_value size))) vs"
    using xs(1) by (rule size_list_estimation') simp
  finally show ?thesis using Msg by simp
qed

lemma dtc_resolves: "resolve_type_code dtc_ops tc \<noteq> None"
  by (subst resolve_type_code.simps) (cases tc; simp add: dtc_ops_def)

interpretation tree_nesting: nested_data tree_lib size size
proof (unfold_locales, goal_cases)
  case 1
  show ?case by (auto simp: overflow_free_lib_def dtc_resolves msg_ops_def)
next
  case (2 v b i c)
  then show ?case using dget_size by (auto simp: dval_ops_def split: if_splits)
next
  case (3 m f sub)
  then have "PV_message sub \<in> set (msg_values m (f_name f))" by (auto simp: msg_ops_def split: list.splits)
  then show ?case by (rule msg_size)
next
  case (4 k m f sub)
  then have "PV_message sub \<in> set (msg_values m (f_name f))" by (auto simp: msg_ops_def in_set_conv_nth)
  then show ?case by (rule msg_size)
qed

text \<open>A structure with a member of every form, and the message type that corresponds to it.\<close>

definition sample_data :: dval where
  "sample_data = DStruct ''Sensor''
     [(''id'', True, DScalar DDS_TK_LONG 7), (''temp'', True, DScalar DDS_TK_SHORT 65531),
      (''label'', True, DString [104, 105]), (''raw'', True, DBytes [1, 0, 3]),
      (''points'', True, DColl (DScalar DDS_TK_DOUBLE 0) [DScalar DDS_TK_DOUBLE 4, DScalar DDS_TK_DOUBLE 5]),
      (''pos'', True, DStruct ''Pos'' [(''ok'', True, DScalar DDS_TK_BOOLEAN 1)]),
      (''note'', False, DString [])]"

definition pb_singular :: "string \<Rightarrow> pb_type \<Rightarrow> pb_field" where
  "pb_singular name t = \<lparr>f_name = name, f_type = t, f_repeated = False, f_map = False, f_oneof = None, f_enum = None\<rparr>"

definition sample_type :: pb_descriptor where
  "sample_type = Desc
     [(pb_singular ''id'' TYPE_INT32, None), (pb_singular ''temp'' TYPE_SINT32, None),
      (pb_singular ''label'' TYPE_STRING, None), (pb_singular ''raw'' TYPE_BYTES, None),
      ((pb_singular ''points'' TYPE_DOUBLE)\<lparr>f_repeated := True\<rparr>, None),
      (pb_singular ''pos'' TYPE_MESSAGE, Some (Desc [(pb_singular ''ok'' TYPE_BOOL, None)])),
      (pb_singular ''note'' TYPE_STRING, None)]"

definition sample_message :: pb_msg where
  "sample_message = Msg sample_type
     [(''pos'', [PV_message (Msg (Desc [(pb_singular ''ok'' TYPE_BOOL, None)]) [(''ok'', [PV_bool True])])]),
      (''points'', [PV_double 4, PV_double 5]), (''raw'', [PV_string [1, 0, 3]]), (''label'', [PV_string [104, 105]]),
      (''temp'', [PV_int32 4294967291]), (''id'', [PV_int32 7])]"

text \<open>
  Two members whose fields are in one oneof, and members with numbers that the closed enumeration of
  their field does not have.
\<close>

definition choice_data :: dval where
  "choice_data = DStruct ''Choice''
     [(''a'', True, DScalar DDS_TK_LONG 1), (''b'', True, DString [98]), (''mode'', True, DScalar DDS_TK_ENUM 9),
      (''modes'', True, DColl (DScalar DDS_TK_ENUM 0) [DScalar DDS_TK_ENUM 1, DScalar DDS_TK_ENUM 9, DScalar DDS_TK_ENUM 0])]"

definition choice_type :: pb_descriptor where
  "choice_type = Desc
     [((pb_singular ''a'' TYPE_INT32)\<lparr>f_oneof := Some ''value''\<rparr>, None),
      ((pb_singular ''b'' TYPE_STRING)\<lparr>f_oneof := Some ''value''\<rparr>, None),
      ((pb_singular ''mode'' TYPE_ENUM)\<lparr>f_enum := Some [0, 1]\<rparr>, None),
      ((pb_singular ''modes'' TYPE_ENUM)\<lparr>f_repeated := True, f_enum := Some [0, 1]\<rparr>, None)]"

definition choice_message :: pb_msg where
  "choice_message = Msg choice_type [(''modes'', [PV_enum 1, PV_enum 0]), (''b'', [PV_string [98]])]"

definition blank_data :: dval where
  "blank_data = DStruct ''Sensor''
     [(''id'', False, DScalar DDS_TK_LONG 0), (''temp'', False, DScalar DDS_TK_SHORT 0),
      (''label'', False, DString []), (''raw'', True, DBytes []),
      (''points'', True, DColl (DScalar DDS_TK_DOUBLE 0) []),
      (''pos'', True, DStruct ''Pos'' [(''ok'', True, DScalar DDS_TK_BOOLEAN 0)]),
      (''note'', False, DString [])]"

definition outcome :: "fault + bool \<times> 'a \<times> 'b \<Rightarrow> (bool \<times> 'a) option" where
  "outcome r = (case r of Inl e \<Rightarrow> None | Inr (ok, x, st) \<Rightarrow> Some (ok, x))"

lemma outcomeD: "outcome r = Some (ok, x) \<Longrightarrow> \<exists>st. r = Inr (ok, x, st)"
  by (auto simp: outcome_def split: sum.splits)

lemma sample_converts:
  "\<exists>st. dds_to_protobuf tree_lib 3 (Msg sample_type []) sample_data initial_state = Inr (True, sample_message, st)"
  by (rule outcomeD) code_simp

lemma choice_converts:
  "\<exists>st. dds_to_protobuf tree_lib 2 (Msg choice_type []) choice_data initial_state = Inr (True, choice_message, st)"
  by (rule outcomeD) code_simp

lemma sample_converts_back:
  "\<exists>st. protobuf_to_dds tree_lib 3 blank_data sample_message initial_state = Inr (True, sample_data, st)"
  by (rule outcomeD) code_simp

lemma empty_message_fresh: "pb_fresh msg_ops (Msg d [])"
  by (simp add: pb_fresh_def msg_elements) (simp add: msg_ops_def)

section \<open>Properties\<close>

text \<open>
  C7. A conversion to protobuf that succeeds on an empty message yields a message that
  represents the data: every member that exists is carried, exactly, by the field of its
  name, nested structures by nested messages and collections element by element, with two
  exceptions that the message type imposes. A field that shares a oneof with the field of a later
  existing member may be unset, and a number that a closed enumeration does not have is in no field.
\<close>

theorem dds_to_protobuf_represents:
  assumes "dds_reading lib valid elems cap text_of octets_of collection" and "pb_fresh (lib_pb lib) m"
    and "dds_to_protobuf lib n m v st = Inr (True, m', st')"
  shows "represents lib text_of octets_of v m'"
  using dds_reading.dds_to_protobuf_sound [OF assms(1), of n] assms(2,3)
  unfolding dds_reading.sound_def [OF assms(1)] by blast

theorem dds_to_protobuf_represents_witness:
  "represents tree_lib dtext doctets sample_data sample_message
   \<and> represents tree_lib dtext doctets choice_data choice_message"
proof -
  obtain st where a: "dds_to_protobuf tree_lib 3 (Msg sample_type []) sample_data initial_state = Inr (True, sample_message, st)"
    using sample_converts by blast
  obtain st where b: "dds_to_protobuf tree_lib 2 (Msg choice_type []) choice_data initial_state = Inr (True, choice_message, st)"
    using choice_converts by blast
  note r = dds_to_protobuf_represents [OF tree_reading.dds_reading_axioms, rotated]
  have "represents tree_lib dtext doctets sample_data sample_message" by (rule r [OF a]) (simp add: empty_message_fresh)
  moreover have "represents tree_lib dtext doctets choice_data choice_message" by (rule r [OF b]) (simp add: empty_message_fresh)
  ultimately show ?thesis ..
qed

text \<open>
  Of two members that exist and whose fields are in one oneof, the conversion succeeds and the
  message keeps the later one only.
\<close>

lemma oneof_keeps_last:
  "\<exists>st. dds_to_protobuf tree_lib 2 (Msg choice_type []) choice_data initial_state = Inr (True, choice_message, st)
     \<and> dexists choice_data 1 \<and> dexists choice_data 2
     \<and> msg_values choice_message ''a'' = [] \<and> msg_values choice_message ''b'' = [PV_string [98]]"
  using choice_converts by (simp add: choice_data_def choice_message_def)

text \<open>
  C8. A conversion to DynamicData that succeeds leaves every field that the message lists
  stored in the member of its name, in the members of nested structures and in the elements
  of collections.
\<close>

theorem protobuf_to_dds_stores:
  assumes "dds_writing lib text_of octets_of" and "protobuf_to_dds lib n v m st = Inr (True, v', st')"
  shows "stored lib text_of octets_of v' m"
  using dds_writing.protobuf_to_dds_sound [OF assms(1), of n] assms(2)
  unfolding dds_writing.sound_def [OF assms(1)] by blast

theorem protobuf_to_dds_stores_witness: "stored tree_lib dtext doctets sample_data sample_message"
  using sample_converts_back protobuf_to_dds_stores [OF tree_writing.dds_writing_axioms] by blast

text \<open>
  C24. Whatever the result of a conversion, the cached objects that are bound afterwards are
  those that were bound before: every object that was bound is unbound again, on the error
  paths too.
\<close>

theorem conversions_unbind:
  assumes "bind_laws (lib_dd lib)"
  shows "(dds_to_protobuf lib n m v st = Inr (ok, m', st') \<longrightarrow> bound_types st' = bound_types st)
    \<and> (protobuf_to_dds lib n v m st = Inr (ok', v', st') \<longrightarrow> bound_types st' = bound_types st)"
  using keeps_boundD [OF dds_to_protobuf_keeps_bound [OF assms]]
    keeps_boundD [OF protobuf_to_dds_keeps_bound [OF assms], of n v m st] by blast

theorem conversions_unbind_witness:
  "\<exists>st'. dds_to_protobuf tree_lib 3 (Msg sample_type []) sample_data initial_state = Inr (True, sample_message, st')
     \<and> bound_types st' = {}"
proof -
  obtain st' where st': "dds_to_protobuf tree_lib 3 (Msg sample_type []) sample_data initial_state = Inr (True, sample_message, st')"
    using sample_converts by blast
  have "bound_types st' = bound_types initial_state"
    using conversions_unbind [THEN conjunct1, rule_format, OF _ st'] by (simp add: bind_laws_def dval_ops_def)
  then show ?thesis using st' by (auto simp: bound_types_def initial_state_def)
qed

text \<open>
  C9. A value that was read from a member and carried by a protobuf field is, when it was
  written to another member of the same kind, read from that member again: numbers are
  neither truncated nor do they change their sign, text and octets keep their content.
\<close>

theorem value_round_trip:
  assumes "dds_writing lib text_of octets_of" and "carried lib text_of octets_of rel kind v i x"
    and "kind \<notin> {DDS_TK_STRUCT, DDS_TK_VALUE}"
    and "pb_scalar_to_dds lib f w j tc kind x = Inr (True, w')"
    and "\<And>e. pb_enum_number (lib_pb lib) f e = Some e"
    and "f_type f = TYPE_BYTES \<longleftrightarrow> kind = DDS_TK_SEQUENCE"
    and "\<And>s. text_of v i = Some s \<Longrightarrow> 0 \<notin> set s"
    and "\<And>s. octets_of v i = Some s \<Longrightarrow> length s < 2 ^ 32"
  shows "carried lib text_of octets_of rel kind w' j x"
proof -
  have st: "value_stored lib text_of octets_of (stored lib text_of octets_of) f kind w' j x"
    using dds_writing.scalar_stored [OF assms(1,4)] by blast
  consider (string) "kind = DDS_TK_STRING" | (octets) "kind = DDS_TK_SEQUENCE"
    | (scalar) "kind \<notin> {DDS_TK_STRUCT, DDS_TK_VALUE, DDS_TK_STRING, DDS_TK_SEQUENCE}"
    using assms(3) by blast
  then show ?thesis
  proof cases
    case string
    then obtain s where s: "text_of v i = Some s" "x = PV_string s" using assms(2) by (auto simp: carried_def)
    have "c_str_bytes s = s" unfolding c_str_bytes_def takeWhile_eq_all_conv using assms(7) [OF s(1)] by metis
    then show ?thesis using st s(2) string assms(6) by (simp add: carried_def value_stored_def)
  next
    case octets
    then obtain s where s: "octets_of v i = Some s" "x = PV_string s" using assms(2) by (auto simp: carried_def)
    have "sized_bytes s = s" using assms(8) [OF s(1)] by (simp add: sized_bytes_def unat_of_nat)
    then show ?thesis using st s(2) octets assms(6) by (simp add: carried_def value_stored_def)
  next
    case scalar
    then have x: "dds_scalar_value (lib_dd lib) kind v i = Some (Some x)" using assms(2) by (simp add: carried_def scalar_carried_iff)
    show ?thesis
      using scalar scalar_stored_carried [OF x refl st assms(5)] by (simp add: carried_def scalar_carried_iff)
  qed
qed

theorem value_round_trip_witness:
  "dds_scalar_value dval_ops DDS_TK_SHORT
     (snd (projr (pb_scalar_to_dds tree_lib (pb_singular ''temp'' TYPE_SINT32) blank_data 2 (TScalar DDS_TK_SHORT)
       DDS_TK_SHORT (PV_int32 4294967291)))) 2 = Some (Some (PV_int32 4294967291))"
proof -
  let ?r = "pb_scalar_to_dds tree_lib (pb_singular ''temp'' TYPE_SINT32) blank_data 2 (TScalar DDS_TK_SHORT)
       DDS_TK_SHORT (PV_int32 4294967291)"
  have c: "carried tree_lib dtext doctets (\<lambda>_ _. True) DDS_TK_SHORT sample_data 2 (PV_int32 4294967291)"
  proof -
    have "dds_scalar_value dval_ops DDS_TK_SHORT sample_data 2 = Some (Some (PV_int32 4294967291 :: pb_msg pb_value))"
      by code_simp
    then show ?thesis by (simp add: carried_def scalar_carried_iff)
  qed
  have "projr ?r = (True, snd (projr ?r)) \<and> isl ?r = False" by code_simp
  then have r: "?r = Inr (True, snd (projr ?r))" by (metis sum.collapse(2))
  have t: "dtext sample_data 2 = None \<and> doctets sample_data 2 = None" by code_simp
  have "carried tree_lib dtext doctets (\<lambda>_ _. True) DDS_TK_SHORT (snd (projr ?r)) 2 (PV_int32 4294967291)"
    by (rule value_round_trip [OF tree_writing.dds_writing_axioms c _ r])
      (simp_all add: t msg_ops_def pb_singular_def)
  then show ?thesis by (simp add: carried_def scalar_carried_iff)
qed

text \<open>
  C25. The conversions do not recurse for ever: stack for as many calls as the data, or the
  message, is nested suffices, whatever the state of the converter.
\<close>

theorem conversions_terminate:
  assumes "nested_data lib rank message_rank" and "rank v < n" and "message_rank m < n"
  shows "dds_to_protobuf lib n m' v st \<noteq> Inl Stack_Overflow \<and> protobuf_to_dds lib n w m st' \<noteq> Inl Stack_Overflow"
  using nested_data.dds_to_protobuf_free [OF assms(1,2)] nested_data.protobuf_to_dds_free [OF assms(1,3)]
  by (auto simp: overflow_free_def)

theorem conversions_terminate_witness:
  "dds_to_protobuf tree_lib (size sample_data + size sample_message + 1) (Msg sample_type []) sample_data initial_state \<noteq> Inl Stack_Overflow"
  using conversions_terminate [OF tree_nesting.nested_data_axioms, of sample_data "size sample_data + size sample_message + 1" sample_message]
  by simp

section \<open>Types that contain themselves\<close>

text \<open>
  \<open>struct_path v tcs\<close>: from \<open>v\<close> one reaches, through members that exist and are structures,
  values of the types \<open>tcs\<close>, each in the one before it.
\<close>

inductive struct_path :: "('v, 'tc, 's, 'm) converter_lib \<Rightarrow> 'v \<Rightarrow> 'tc list \<Rightarrow> bool" for lib where
  struct_path_Nil: "struct_path lib v []"
| struct_path_Cons: "i < unat (dd_get_member_count (lib_dd lib) v) \<Longrightarrow>
    dd_get_member_info_by_index (lib_dd lib) v (word_of_nat i) = Some info \<Longrightarrow>
    dd_member_exists (lib_dd lib) v (member_id info) \<Longrightarrow>
    dd_get_member_type (lib_dd lib) v (member_id info) = Some tc0 \<Longrightarrow> alias_end (lib_tc lib) tc0 tc kind \<Longrightarrow>
    kind \<in> {DDS_TK_STRUCT, DDS_TK_VALUE} \<Longrightarrow> dd_bind (lib_dd lib) v False (member_id info) = Some c \<Longrightarrow>
    struct_path lib c tcs \<Longrightarrow> struct_path lib v (tc # tcs)"

text \<open>Every step of a loop that succeeds ran, from a state that is related to the first one.\<close>

lemma each_element_ran:
  assumes "each_element step 0 n m st = Inr (True, m', st')" and "rel st st"
    and "\<And>a b c. rel a b \<Longrightarrow> rel b c \<Longrightarrow> rel a c"
    and "\<And>k m st m1 st1. step k m st = Inr (True, m1, st1) \<Longrightarrow> rel st st1" and "i < n"
  shows "\<exists>mi sti m1 st1. rel st sti \<and> step i mi sti = Inr (True, m1, st1)"
proof -
  let ?J = "\<lambda>k m1 st1. rel st st1 \<and> (\<forall>j<k. \<exists>mj stj m1 st1. rel st stj \<and> step j mj stj = Inr (True, m1, st1))"
  have "?J (0 + n) m' st'"
  proof (rule each_element_invariant [where J = ?J, OF assms(1)])
    fix k m1 st1 m2 st2
    assume J: "?J k m1 st1" and s: "step k m1 st1 = Inr (True, m2, st2)"
    then have "rel st st2" using assms(3,4) by blast
    then show "?J (Suc k) m2 st2" using J s by (auto simp: less_Suc_eq)
  qed (use assms(2) in simp)
  then show ?thesis using assms(5) by simp
qed

text \<open>A structure member is converted only while no object of its type is bound, and binds one.\<close>

lemma struct_member_binds:
  assumes "bind_laws (lib_dd lib)" and "dds_member_to_pb lib conv v i m st = Inr (True, m', st')"
    and "dd_get_member_info_by_index (lib_dd lib) v (word_of_nat i) = Some info"
    and "dd_member_exists (lib_dd lib) v (member_id info)"
    and "dd_get_member_type (lib_dd lib) v (member_id info) = Some tc0" and "alias_end (lib_tc lib) tc0 tc kind"
    and "kind \<in> {DDS_TK_STRUCT, DDS_TK_VALUE}" and "dd_bind (lib_dd lib) v False (member_id info) = Some c"
  shows "tc \<notin> bound_types st \<and> (\<exists>sub sub' st0 st1. conv sub c st0 = Inr (True, sub', st1)
    \<and> bound_types st0 = insert tc (bound_types st))"
proof -
  obtain f where "dds_singular_member_to_pb lib conv st v info tc kind m f = Inr (True, m', st')"
    using assms(2-7) resolve_alias_end [OF assms(6)]
    by (auto simp: dds_member_to_pb_def singular_kinds_def split: option.splits if_splits)
  then obtain sta where g: "get_cached_dds_data tc st = (True, sta)"
    and w: "with_bound_member lib tc v (member_id info)
      (fill_sub_message conv (\<lambda>m. pb_mutable (lib_pb lib) m f) (\<lambda>m. pb_set (lib_pb lib) m f)) m sta = Inr (True, m', st')"
    using assms(7) by (auto simp: dds_singular_member_to_pb_def split: prod.splits if_splits)
  have "dds_data_cache sta tc \<noteq> Some True"
    using w assms(1) by (auto simp: with_bound_member_def bind_laws_def)
  then obtain sub sub' st1 where "conv sub c (sta\<lparr>dds_data_cache := (dds_data_cache sta)(tc \<mapsto> True)\<rparr>) = Inr (True, sub', st1)"
    using w assms(8)
    by (auto simp: with_bound_member_def fill_sub_message_def bindF_eq_Inr Let_def split: option.splits prod.splits)
  moreover have "bound_types (sta\<lparr>dds_data_cache := (dds_data_cache sta)(tc \<mapsto> True)\<rparr>) = insert tc (bound_types st)"
    using get_cached_bound [OF g] by (auto simp: bound_types_def)
  moreover have "tc \<notin> bound_types st"
    using \<open>dds_data_cache sta tc \<noteq> Some True\<close> get_cached_bound [OF g] by (auto simp: bound_types_def)
  ultimately show ?thesis by blast
qed

lemma path_types_distinct:
  assumes "bind_laws (lib_dd lib)" and "struct_path lib v tcs" and "dds_to_protobuf lib n m v st = Inr (True, m', st')"
  shows "distinct tcs \<and> set tcs \<inter> bound_types st = {}"
  using assms(2,3)
proof (induction arbitrary: n m st m' st' rule: struct_path.induct)
  case (struct_path_Nil v)
  then show ?case by simp
next
  case (struct_path_Cons i v info tc0 tc kind c tcs)
  obtain n0 where n: "n = Suc n0" using struct_path_Cons.prems by (cases n) auto
  have "each_element (dds_member_to_pb lib (dds_to_protobuf lib n0) v) 0 (unat (dd_get_member_count (lib_dd lib) v)) m st
      = Inr (True, m', st')"
    using struct_path_Cons.prems unfolding n by (auto split: if_splits option.splits)
  then have "\<exists>mi sti m1 st1. bound_types sti = bound_types st
      \<and> dds_member_to_pb lib (dds_to_protobuf lib n0) v i mi sti = Inr (True, m1, st1)"
    by (rule each_element_ran [where rel = "\<lambda>a b. bound_types b = bound_types a"])
      (auto intro: struct_path_Cons.hyps(1) dest: member_keeps_bound [OF assms(1) dds_to_protobuf_keeps_bound [OF assms(1)]])
  then obtain mi sti m1 st1 where s: "bound_types sti = bound_types st"
    "dds_member_to_pb lib (dds_to_protobuf lib n0) v i mi sti = Inr (True, m1, st1)" by blast
  from struct_member_binds [OF assms(1) s(2) struct_path_Cons.hyps(2-7)]
  obtain sub sub' st0 st1 where c: "tc \<notin> bound_types sti" "bound_types st0 = insert tc (bound_types sti)"
    "dds_to_protobuf lib n0 sub c st0 = Inr (True, sub', st1)" by blast
  show ?case using struct_path_Cons.IH [OF c(3)] c(1,2) s(1) by auto
qed

text \<open>
  C28. In a conversion to protobuf that succeeds, the types of the structures that are nested in the
  value, along every path of members, are all different, and none of them has an object that was
  bound before. So a value whose type contains itself is converted one level deep, because the
  object of the value itself is not one of the cache, and no deeper.
\<close>

theorem nested_types_distinct:
  assumes "bind_laws (lib_dd lib)" and "struct_path lib v tcs" and "dds_to_protobuf lib n m v st = Inr (True, m', st')"
  shows "distinct tcs \<and> set tcs \<inter> bound_types st = {}"
  by (rule path_types_distinct [OF assms])

text \<open>A list whose nodes have the type of the list: one node in the first is converted, two are not.\<close>

definition node :: "dval \<Rightarrow> dval" where
  "node next = DStruct ''Node'' [(''next'', True, next)]"

definition leaf :: dval where
  "leaf = DStruct ''Node'' [(''next'', False, DStruct ''Node'' [])]"

definition node_type :: "pb_descriptor \<Rightarrow> pb_descriptor" where
  "node_type d = Desc [(pb_singular ''next'' TYPE_MESSAGE, Some d)]"

definition list_type :: pb_descriptor where
  "list_type = node_type (node_type (node_type (Desc [])))"

lemma node_path:
  assumes "dtc_kind (dtype v) = DDS_TK_STRUCT" and "struct_path tree_lib v tcs"
  shows "struct_path tree_lib (node v) (dtype v # tcs)"
proof (rule struct_path_Cons [where i = 0 and info = "dinfo 1 ''next'' v" and kind = DDS_TK_STRUCT and c = v])
  show "alias_end (lib_tc tree_lib) (dtype v) (dtype v) DDS_TK_STRUCT"
    using assms(1) by (intro alias_here) (simp_all add: dtc_ops_def)
qed (use assms in \<open>simp_all add: dval_ops_def node_def dinfo_at_def dinfo_def\<close>)

theorem nested_types_distinct_witness:
  "(\<exists>m st. dds_to_protobuf tree_lib 3 (Msg list_type []) (node leaf) initial_state = Inr (True, m, st))
   \<and> (\<nexists>m st. dds_to_protobuf tree_lib 3 (Msg list_type []) (node (node leaf)) initial_state = Inr (True, m, st))"
proof
  have "outcome (dds_to_protobuf tree_lib 3 (Msg list_type []) (node leaf) initial_state)
      = Some (True, Msg list_type [(''next'', [PV_message (Msg (node_type (node_type (Desc []))) [])])])"
    by code_simp
  from outcomeD [OF this]
  show "\<exists>m st. dds_to_protobuf tree_lib 3 (Msg list_type []) (node leaf) initial_state = Inr (True, m, st)"
    by (rule exI)
next
  have b: "bind_laws (lib_dd tree_lib)" by (simp add: bind_laws_def dval_ops_def)
  have "struct_path tree_lib (node (node leaf)) [dtype (node leaf), dtype leaf]"
    by (intro node_path struct_path_Nil) (simp_all add: node_def leaf_def)
  from nested_types_distinct [OF b this]
  show "\<nexists>m st. dds_to_protobuf tree_lib 3 (Msg list_type []) (node (node leaf)) initial_state = Inr (True, m, st)"
    by (auto simp: node_def leaf_def)
qed

section \<open>What is refused\<close>

text \<open>
  The value of a scalar member is set without a look at the type of the field: where it is
  another than the kind of the member calls for, the library ends the process.
\<close>

lemma field_type_mismatch_aborts:
  fixes lib :: "('v, 'tc, 's, 'm) converter_lib" and x :: "'m pb_value"
  assumes "pb_message (lib_pb lib)" and "dds_scalar_value (lib_dd lib) kind v (member_id info) = Some (Some x)"
    and "kind \<notin> {DDS_TK_STRUCT, DDS_TK_VALUE, DDS_TK_STRING, DDS_TK_SEQUENCE}"
    and "\<not> type_matches (f_type f) x \<or> f_repeated f"
  shows "dds_singular_member_to_pb lib conv st v info tc kind m f = Inl Assertion_Failed"
  using assms(2,3) pb_message.set_aborts [OF assms(1,4)]
  by (simp add: dds_singular_member_to_pb_def set_or_fail_def)

text \<open>
  An array of octets is passed to the conversion of singular members when the field holds
  bytes, which has no case for arrays: the conversion of the message fails.
\<close>

lemma octet_array_refused:
  assumes "dd_get_member_info_by_index (lib_dd lib) v (word_of_nat i) = Some info"
    and "dd_member_exists (lib_dd lib) v (member_id info)"
    and "dd_get_member_type (lib_dd lib) v (member_id info) = Some tc0"
    and "alias_end (lib_tc lib) tc0 tc DDS_TK_ARRAY"
    and "pb_find_field (lib_pb lib) m (member_name info) = Some f"
    and "f_type f = TYPE_BYTES" and "element_kind info = DDS_TK_OCTET"
  shows "dds_member_to_pb lib conv v i m st = Inr (False, m, st)"
  using assms resolve_alias_end [OF assms(4)]
  by (simp add: dds_member_to_pb_def dds_singular_member_to_pb_def)

end
