(* ===== verification/Protobuf_Converter.thy ===== *)
theory Protobuf_Converter
  imports Protobuf_Conversion
begin

text \<open>
  \<^verbatim>\<open>common/protobuf2dds/srcCxx/ProtobufDescriptorSet.cxx\<close> and \<^verbatim>\<open>ProtobufDynamicDataConverter.cxx\<close>: the
  search for a message type in a set of descriptors, and the converter that serialises
  DynamicData objects to bytes and back with one reusable message.
\<close>

section \<open>The message prototype\<close>

text \<open>
  \<open>build_file\<close> adds the descriptor of a file to the pool; \<open>None\<close>: it returns NULL. The message
  types of a file are those at its top level, \<open>None\<close> is a NULL pointer.
\<close>

record ('pool, 'fdp, 'fd, 'd, 'm) descriptor_ops =
  build_file :: "'pool \<Rightarrow> 'fdp \<Rightarrow> 'pool \<times> 'fd option"
  message_types :: "'fd \<Rightarrow> 'd option list"
  full_name :: "'d \<Rightarrow> string"
  get_prototype :: "'d \<Rightarrow> 'm option"

text \<open>The inner loop; \<open>Inr None\<close>: the message is not in the file. A NULL descriptor is dereferenced.\<close>

fun find_message_type ::
  "('pool, 'fdp, 'fd, 'd, 'm) descriptor_ops \<Rightarrow> 'd option list \<Rightarrow> string \<Rightarrow> fault + 'm option option" where
  "find_message_type ops [] msg_name = Inr None"
| "find_message_type ops (None # ds) msg_name = Inl Null_Deref"
| "find_message_type ops (Some d # ds) msg_name =
     (if msg_name = full_name ops d then Inr (Some (get_prototype ops d)) else find_message_type ops ds msg_name)"

fun load_message_prototype ::
  "('pool, 'fdp, 'fd, 'd, 'm) descriptor_ops \<Rightarrow> 'pool \<Rightarrow> 'fdp list \<Rightarrow> string \<Rightarrow> fault + 'm option" where
  "load_message_prototype ops pool [] msg_name = Inr None"
| "load_message_prototype ops pool (file # files) msg_name =
     (case build_file ops pool file of
        (pool, None) \<Rightarrow> Inr None
      | (pool, Some fd) \<Rightarrow>
          bindF (find_message_type ops (message_types ops fd) msg_name) (\<lambda>r. case r of
            Some msg \<Rightarrow> Inr msg
          | None \<Rightarrow> load_message_prototype ops pool files msg_name))"

section \<open>The converter\<close>

text \<open>
  \<open>pb_parse m bytes size\<close> is \<open>ParseFromArray\<close>, whose size is a C \<open>int\<close>, and \<open>pb_serialize m\<close> is
  \<open>SerializeToString\<close>: the result and what is in the string.
\<close>

record 'm wire_ops =
  pb_new :: "'m \<Rightarrow> 'm option"
  pb_clear :: "'m \<Rightarrow> 'm"
  pb_parse :: "'m \<Rightarrow> byte list \<Rightarrow> int \<Rightarrow> bool \<times> 'm"
  pb_serialize :: "'m \<Rightarrow> bool \<times> byte list"

record ('m, 'tc) ProtobufDynamicDataConverter =
  conv_proto :: 'm
  conv_msg :: 'm
  conv_state :: "'tc ProtobufConverterState"

text \<open>The constructor; \<open>Inr None\<close>: it throws.\<close>

definition ProtobufDynamicDataConverter_new ::
  "('pool, 'fdp, 'fd, 'd, 'm) descriptor_ops \<Rightarrow> 'm wire_ops \<Rightarrow> 'pool \<Rightarrow> 'fdp list \<Rightarrow> string \<Rightarrow>
   fault + ('m, 'tc) ProtobufDynamicDataConverter option" where
  "ProtobufDynamicDataConverter_new ops wire pool pbDescriptorSet pbMessageName =
     bindF (load_message_prototype ops pool pbDescriptorSet pbMessageName) (\<lambda>proto.
       case proto of
         None \<Rightarrow> Inr None
       | Some proto \<Rightarrow>
           (case pb_new wire proto of
              None \<Rightarrow> Inr None
            | Some msg \<Rightarrow> Inr (Some \<lparr>conv_proto = proto, conv_msg = msg, conv_state = initial_state\<rparr>)))"

definition ProtobufDynamicDataConverter_deserialize ::
  "('v, 'tc, 's, 'm) converter_lib \<Rightarrow> 'm wire_ops \<Rightarrow> nat \<Rightarrow> ('m, 'tc) ProtobufDynamicDataConverter \<Rightarrow> 'v \<Rightarrow>
   byte list \<Rightarrow> nat \<Rightarrow> fault + bool \<times> 'v \<times> ('m, 'tc) ProtobufDynamicDataConverter" where
  "ProtobufDynamicDataConverter_deserialize lib wire n self data serialized_data serialized_data_len =
     (let (ok, m) = pb_parse wire (pb_clear wire (conv_msg self)) serialized_data
            (sint (word_of_nat serialized_data_len :: 32 word)) in
      if \<not> ok then Inr (False, data, self\<lparr>conv_msg := m\<rparr>)
      else bindF (protobuf_to_dds lib n data m (conv_state self)) (\<lambda>(ok, data, st).
        Inr (ok, data, self\<lparr>conv_msg := m, conv_state := st\<rparr>)))"

definition ProtobufDynamicDataConverter_serialize ::
  "('v, 'tc, 's, 'm) converter_lib \<Rightarrow> 'm wire_ops \<Rightarrow> nat \<Rightarrow> ('m, 'tc) ProtobufDynamicDataConverter \<Rightarrow> 'v \<Rightarrow>
   byte list \<Rightarrow> fault + bool \<times> byte list \<times> ('m, 'tc) ProtobufDynamicDataConverter" where
  "ProtobufDynamicDataConverter_serialize lib wire n self data serialized_data =
     bindF (dds_to_protobuf lib n (pb_clear wire (conv_msg self)) data (conv_state self)) (\<lambda>(ok, m, st).
       let self = self\<lparr>conv_msg := m, conv_state := st\<rparr> in
       if \<not> ok then Inr (False, serialized_data, self)
       else let (ok, bytes) = pb_serialize wire m in Inr (ok, bytes, self))"

section \<open>The search finds the first message type of the name\<close>

lemma find_message_type_spec:
  assumes "None \<notin> set ds"
  shows "find_message_type ops ds name =
    Inr (map_option (get_prototype ops) (find (\<lambda>d. name = full_name ops d) (map the ds)))"
  using assms
proof (induction ds)
  case (Cons d ds)
  then show ?case by (cases d) auto
qed simp

text \<open>The descriptors of the files, when all of them can be built.\<close>

fun built_files :: "('pool, 'fdp, 'fd, 'd, 'm) descriptor_ops \<Rightarrow> 'pool \<Rightarrow> 'fdp list \<Rightarrow> 'fd list option" where
  "built_files ops pool [] = Some []"
| "built_files ops pool (file # files) =
     (case build_file ops pool file of
        (pool, None) \<Rightarrow> None
      | (pool, Some fd) \<Rightarrow> map_option (Cons fd) (built_files ops pool files))"

lemma find_append: "find P (xs @ ys) = (case find P xs of None \<Rightarrow> find P ys | Some x \<Rightarrow> Some x)"
  by (induction xs) auto

section \<open>The type of a message\<close>

text \<open>What every setter keeps of a message, the conversion keeps.\<close>

lemma each_element_keeps_message:
  assumes "each_element step i n m st = Inr (ok, m', st')" and "\<And>m. rel m m"
    and "\<And>a b c. rel a b \<Longrightarrow> rel b c \<Longrightarrow> rel a c"
    and "\<And>k m st ok m1 st1. step k m st = Inr (ok, m1, st1) \<Longrightarrow> rel m m1"
  shows "rel m m'"
  using assms(1)
proof (induction n arbitrary: i m st)
  case 0
  then show ?case using assms(2) by simp
next
  case (Suc n)
  from Suc.prems obtain ok1 m1 st1 where s: "step i m st = Inr (ok1, m1, st1)"
    and r: "(if ok1 then each_element step (Suc i) n m1 st1 else Inr (False, m1, st1)) = Inr (ok, m', st')"
    by (auto simp: bindF_eq_Inr)
  have "rel m1 m'" using r Suc.IH assms(2) by (cases ok1) auto
  then show ?case using assms(3,4) s by blast
qed

locale message_relation =
  fixes lib :: "('v, 'tc, 's, 'm) converter_lib" and rel :: "'m \<Rightarrow> 'm \<Rightarrow> bool"
  assumes rel_refl: "rel m m" and rel_trans: "rel m m' \<Longrightarrow> rel m' m'' \<Longrightarrow> rel m m''"
    and set_rel: "pb_set (lib_pb lib) m f x = Inr m' \<Longrightarrow> rel m m'"
    and add_rel: "pb_add (lib_pb lib) m f x = Inr m' \<Longrightarrow> rel m m'"
begin

lemma with_bound_rel:
  assumes "\<And>c m st ok m' st'. body c m st = Inr (ok, m', st') \<Longrightarrow> rel m m'"
    and "with_bound_member lib tc v i body m st = Inr (ok, m', st')"
  shows "rel m m'"
  using assms rel_refl by (fastforce simp: with_bound_member_def bindF_eq_Inr Let_def split: option.splits)

lemma fill_rel:
  assumes "\<And>m x m'. put m x = Inr m' \<Longrightarrow> rel m m'" and "fill_sub_message conv new put c m st = Inr (ok, m', st')"
  shows "rel m m'"
  using assms rel_refl by (auto simp: fill_sub_message_def bindF_eq_Inr split: option.splits)

lemma set_or_fail_rel: "set_or_fail (lib_pb lib) m f x st = Inr (ok, m', st') \<Longrightarrow> rel m m'"
  using rel_refl set_rel by (auto simp: set_or_fail_def bindF_eq_Inr split: option.splits)

lemma add_or_fail_rel: "add_or_fail (lib_pb lib) m f x st = Inr (ok, m', st') \<Longrightarrow> rel m m'"
  using rel_refl add_rel by (auto simp: add_or_fail_def bindF_eq_Inr split: option.splits)

lemma singular_rel:
  assumes "dds_singular_member_to_pb lib conv st v info tc kind m f = Inr (ok, m', st')"
  shows "rel m m'"
proof (cases "kind \<in> {DDS_TK_STRUCT, DDS_TK_VALUE}")
  case True
  then show ?thesis
    using assms rel_refl with_bound_rel [OF fill_rel [OF set_rel]]
    by (auto simp: dds_singular_member_to_pb_def split: prod.splits if_splits)
next
  case False
  then show ?thesis
    using assms rel_refl
    by (auto simp: dds_singular_member_to_pb_def bindF_eq_Inr Let_def dest!: set_or_fail_rel
        split: if_splits option.splits prod.splits)
qed

lemma loop_rel:
  assumes "each_element step 0 n m st = Inr (ok, m', st')"
    and "\<And>k m st ok m1 st1. step k m st = Inr (ok, m1, st1) \<Longrightarrow> rel m m1"
  shows "rel m m'"
  using assms(1) by (rule each_element_keeps_message) (fact rel_refl, erule (1) rel_trans, erule assms(2))

lemma element_steps_rel:
  "add_message lib conv el_tc c f k m st = Inr (ok, m', st') \<Longrightarrow> rel m m'"
  "add_string lib c f k m st2 = Inr (ok, m', st2') \<Longrightarrow> rel m m'"
  "add_bytes lib c f k m st3 = Inr (ok, m', st3') \<Longrightarrow> rel m m'"
  "add_scalar lib el_kind c f k m st4 = Inr (ok, m', st4') \<Longrightarrow> rel m m'"
  using with_bound_rel [OF fill_rel [OF add_rel]] rel_refl
  by (auto simp: add_message_def add_string_def add_bytes_def add_scalar_def bindF_eq_Inr Let_def
      split: prod.splits option.splits if_splits dest!: add_or_fail_rel)

lemma elements_rel:
  assumes "dds_collection_elements lib conv n el_tc el_kind f c m st = Inr (ok, m', st')"
  shows "rel m m'"
  using assms rel_refl
  by (auto simp: dds_collection_elements_def bindF_eq_Inr Let_def split: prod.splits if_splits
      elim!: loop_rel dest: element_steps_rel)

lemma collection_rel:
  assumes "dds_collection_member_to_pb lib conv st v info tc m f = Inr (ok, m', st')"
  shows "rel m m'"
proof -
  have "rel m m'" if "(case tc_content_type (lib_tc lib) tc of
            None \<Rightarrow> Inr (False, m, st)
          | Some el_tc \<Rightarrow>
              (case resolve_type_code (lib_tc lib) el_tc of
                 None \<Rightarrow> Inl Stack_Overflow
               | Some None \<Rightarrow> Inr (False, m, st)
               | Some (Some (el_tc, el_kind)) \<Rightarrow>
                   dds_collection_elements lib conv (unat (element_count info)) el_tc el_kind f c m st)) = Inr (ok, m', st')"
    for c m st ok m' st'
    using that rel_refl by (auto split: option.splits dest: elements_rel)
  then show ?thesis
    using assms rel_refl
    by (auto simp: dds_collection_member_to_pb_def split: prod.splits if_splits elim!: with_bound_rel [rotated])
qed

lemma dds_to_protobuf_rel:
  assumes "dds_to_protobuf lib n m v st = Inr (ok, m', st')"
  shows "rel m m'"
proof (cases n)
  case 0
  then show ?thesis using assms by simp
next
  case (Suc k)
  have "rel m m'" if "dds_member_to_pb lib (dds_to_protobuf lib k) v i m st = Inr (ok, m', st')" for i m st ok m' st'
    using that rel_refl
    by (auto simp: dds_member_to_pb_def split: option.splits if_splits dest: singular_rel collection_rel)
  then show ?thesis
    using assms rel_refl Suc by (auto split: option.splits if_splits elim!: loop_rel)
qed

end

text \<open>On trees: the conversion keeps the descriptor of the message.\<close>

interpretation tree_message: message_relation tree_lib "\<lambda>m m'. msg_desc m' = msg_desc m"
  by unfold_locales (auto simp: msg_ops_def split: if_splits)

section \<open>What crosses the wire\<close>

text \<open>
  Two messages agree when every field that is not a map has the same presence and the same values
  in both, nested messages up to agreement. The entries of a map have no order on the wire, and of
  several with one key only one need survive: nothing is said about them.
\<close>

inductive agrees :: "'m pb_ops \<Rightarrow> 'm \<Rightarrow> 'm \<Rightarrow> bool" for pb where
  agreesI: "\<forall>f. pb_find_field pb m (f_name f) = Some f \<longrightarrow> \<not> f_map f \<longrightarrow>
      (if f_repeated f then list_all2 (rel_pb_value (agrees pb)) (pb_elements pb m f) (pb_elements pb m' f)
       else pb_has_field pb m' f = pb_has_field pb m f
         \<and> (pb_has_field pb m f \<longrightarrow> rel_pb_value (agrees pb) (pb_get pb m f) (pb_get pb m' f))) \<Longrightarrow>
    agrees pb m m'"

text \<open>
  The documented behaviour of serialisation. Clearing a message gives the empty message of
  its type, and setters keep the type; two messages have one type when their empty messages are
  equal. The parser reads as many bytes as it is told to. It need not accept the bytes of a
  message (it refuses messages without a required field, for instance), but when it accepts them
  in a message of the same type, the message it makes agrees with the one that was serialised.
\<close>

definition wire_laws :: "'m pb_ops \<Rightarrow> 'm wire_ops \<Rightarrow> bool" where
  "wire_laws pb wire \<longleftrightarrow>
     (\<forall>m. pb_fresh pb (pb_clear wire m) \<and> pb_clear wire (pb_clear wire m) = pb_clear wire m)
     \<and> (\<forall>m f x m'. pb_set pb m f x = Inr m' \<longrightarrow> pb_clear wire m' = pb_clear wire m)
     \<and> (\<forall>m f x m'. pb_add pb m f x = Inr m' \<longrightarrow> pb_clear wire m' = pb_clear wire m)
     \<and> (\<forall>m bytes rest. pb_parse wire m (bytes @ rest) (int (length bytes)) = pb_parse wire m bytes (int (length bytes)))
     \<and> (\<forall>m m0 bytes m'. pb_serialize wire m = (True, bytes) \<longrightarrow> pb_clear wire m0 = pb_clear wire m \<longrightarrow>
          int (length bytes) < 2 ^ 31 \<longrightarrow>
          pb_parse wire (pb_clear wire m0) bytes (int (length bytes)) = (True, m') \<longrightarrow> agrees pb m m')"

lemma wire_type:
  assumes "wire_laws (lib_pb lib) wire" and "dds_to_protobuf lib n m v st = Inr (ok, m', st')"
  shows "pb_clear wire m' = pb_clear wire m"
proof -
  have "message_relation lib (\<lambda>m m'. pb_clear wire m' = pb_clear wire m)"
    using assms(1) by unfold_locales (auto simp: wire_laws_def)
  then show ?thesis using assms(2) by (rule message_relation.dds_to_protobuf_rel)
qed

lemma wire_parse_prefix:
  "wire_laws pb wire \<Longrightarrow> pb_parse wire m (bytes @ rest) (int (length bytes)) = pb_parse wire m bytes (int (length bytes))"
  unfolding wire_laws_def by blast

lemma wire_fresh:
  "wire_laws pb wire \<Longrightarrow> pb_fresh pb (pb_clear wire m)"
  "wire_laws pb wire \<Longrightarrow> pb_clear wire (pb_clear wire m) = pb_clear wire m"
  unfolding wire_laws_def by blast+

lemma wire_agrees:
  "wire_laws pb wire \<Longrightarrow> pb_serialize wire m = (True, bytes) \<Longrightarrow> pb_clear wire m0 = pb_clear wire m \<Longrightarrow>
   int (length bytes) < 2 ^ 31 \<Longrightarrow> pb_parse wire (pb_clear wire m0) bytes (int (length bytes)) = (True, m') \<Longrightarrow> agrees pb m m'"
  unfolding wire_laws_def by blast

lemma size_as_int: "int n < 2 ^ 31 \<Longrightarrow> sint (word_of_nat n :: 32 word) = int n"
  by (simp add: sint_uint uint_word_of_int_eq signed_take_bit_int_eq_self take_bit_int_eq_self of_nat_take_bit
      unsigned_of_nat)

text \<open>A successful call, taken apart.\<close>

lemma serializeD:
  assumes "ProtobufDynamicDataConverter_serialize lib wire n self v b = Inr (True, bytes, self')"
  obtains m st where "dds_to_protobuf lib n (pb_clear wire (conv_msg self)) v (conv_state self) = Inr (True, m, st)"
    "pb_serialize wire m = (True, bytes)"
  using assms
  by (auto simp: ProtobufDynamicDataConverter_serialize_def bindF_eq_Inr Let_def split: if_splits prod.splits)

text \<open>
  The bytes of one converter, in the other: what its parser makes of them agrees with the message that
  represents the data.
\<close>

lemma parse_serialized:
  assumes "dds_reading lib valid elems cap text_of octets_of collection" and "wire_laws (lib_pb lib) wire"
    and "pb_clear wire (conv_msg receiver) = pb_clear wire (conv_msg sender)"
    and "ProtobufDynamicDataConverter_serialize lib wire n sender v buffer = Inr (True, bytes, sender')"
    and "int (length bytes) < 2 ^ 31"
  shows "\<exists>m. represents lib text_of octets_of v m \<and> pb_serialize wire m = (True, bytes)
    \<and> (\<forall>m'. pb_parse wire (pb_clear wire (conv_msg receiver)) bytes (int (length bytes)) = (True, m') \<longrightarrow>
        agrees (lib_pb lib) m m')"
proof -
  obtain m st where s: "dds_to_protobuf lib n (pb_clear wire (conv_msg sender)) v (conv_state sender) = Inr (True, m, st)"
    "pb_serialize wire m = (True, bytes)"
    using assms(4) by (rule serializeD)
  have "pb_clear wire (conv_msg receiver) = pb_clear wire m"
    using wire_type [OF assms(2) s(1)] wire_fresh(2) [OF assms(2)] assms(3) by simp
  note a = wire_agrees [OF assms(2) s(2) this assms(5)]
  have "represents lib text_of octets_of v m"
    using dds_reading.dds_to_protobuf_sound [OF assms(1), of n] s(1) wire_fresh(1) [OF assms(2)]
    unfolding dds_reading.sound_def [OF assms(1)] by blast
  with a s(2) show ?thesis by blast
qed

lemma deserialize_parsed:
  assumes "wire_laws (lib_pb lib) wire" and "int (length bytes) < 2 ^ 31"
  shows "ProtobufDynamicDataConverter_deserialize lib wire k receiver w (bytes @ rest) (length bytes) =
    (let (ok, m) = pb_parse wire (pb_clear wire (conv_msg receiver)) bytes (int (length bytes)) in
      if \<not> ok then Inr (False, w, receiver\<lparr>conv_msg := m\<rparr>)
      else bindF (protobuf_to_dds lib k w m (conv_state receiver)) (\<lambda>(ok, w, st).
        Inr (ok, w, receiver\<lparr>conv_msg := m, conv_state := st\<rparr>)))"
  by (simp add: ProtobufDynamicDataConverter_deserialize_def size_as_int [OF assms(2)] wire_parse_prefix [OF assms(1)])

section \<open>Properties\<close>

text \<open>
  The search for a message in a set of descriptors that can be built finds the first message
  type of that name, in the order of the files and of the types in them.
\<close>

theorem load_message_prototype_first:
  assumes "built_files ops pool files = Some fds" and "\<forall>fd \<in> set fds. None \<notin> set (message_types ops fd)"
  shows "load_message_prototype ops pool files name =
    Inr (case find (\<lambda>d. name = full_name ops d) (concat (map (\<lambda>fd. map the (message_types ops fd)) fds)) of
           None \<Rightarrow> None | Some d \<Rightarrow> get_prototype ops d)"
  using assms
proof (induction files arbitrary: pool fds)
  case (Cons f fs)
  then obtain pool' fd fds' where b: "build_file ops pool f = (pool', Some fd)"
    "built_files ops pool' fs = Some fds'" "fds = fd # fds'"
    by (auto split: prod.splits option.splits)
  then show ?case
    using Cons.IH [OF b(2)] Cons.prems(2) by (simp add: find_message_type_spec find_append split: option.split)
qed simp

definition name_ops :: "(unit, string list, string list, string, string) descriptor_ops" where
  "name_ops = \<lparr>build_file = (\<lambda>p f. (p, Some f)), message_types = map Some, full_name = id, get_prototype = Some\<rparr>"

theorem load_message_prototype_first_witness:
  "load_message_prototype name_ops () [[''a.A'', ''a.B''], [''b.C'']] ''b.C'' = Inr (Some ''b.C'')"
  using load_message_prototype_first [of name_ops "()" "[[''a.A'', ''a.B''], [''b.C'']]" "[[''a.A'', ''a.B''], [''b.C'']]" "''b.C''"]
  by (simp add: name_ops_def)

text \<open>
  C10. What one converter serialises and another of the same message type deserialises arrives:
  the message whose bytes were sent represents the object of the sender, the message that the
  receiver parsed agrees with it in every field that is not a map, and the object that was
  filled stores the parsed message.
\<close>

theorem converter_transfers:
  assumes "dds_reading lib valid elems cap text_of octets_of collection" and "dds_writing lib text_of octets_of"
    and "wire_laws (lib_pb lib) wire" and "pb_clear wire (conv_msg receiver) = pb_clear wire (conv_msg sender)"
    and "ProtobufDynamicDataConverter_serialize lib wire n sender v buffer = Inr (True, bytes, sender')"
    and "ProtobufDynamicDataConverter_deserialize lib wire k receiver w (bytes @ rest) (length bytes) = Inr (True, w', receiver')"
    and "int (length bytes) < 2 ^ 31"
  shows "\<exists>m m'. represents lib text_of octets_of v m \<and> pb_serialize wire m = (True, bytes)
    \<and> agrees (lib_pb lib) m m' \<and> stored lib text_of octets_of w' m'"
proof -
  obtain m where m: "represents lib text_of octets_of v m" "pb_serialize wire m = (True, bytes)"
    "\<forall>m'. pb_parse wire (pb_clear wire (conv_msg receiver)) bytes (int (length bytes)) = (True, m') \<longrightarrow> agrees (lib_pb lib) m m'"
    using parse_serialized [OF assms(1,3,4,5,7)] by blast
  obtain m' st where p: "pb_parse wire (pb_clear wire (conv_msg receiver)) bytes (int (length bytes)) = (True, m')"
    and r: "protobuf_to_dds lib k w m' (conv_state receiver) = Inr (True, w', st)"
    using assms(6) unfolding deserialize_parsed [OF assms(3,7)] by (auto simp: bindF_eq_Inr split: prod.splits if_splits)
  have "stored lib text_of octets_of w' m'"
    using dds_writing.protobuf_to_dds_sound [OF assms(2), of k] r unfolding dds_writing.sound_def [OF assms(2)] by blast
  with m p show ?thesis by blast
qed

text \<open>A wire on which the sample message is one byte.\<close>

definition sample_wire :: "pb_msg wire_ops" where
  "sample_wire = \<lparr>
     pb_new = (\<lambda>m. Some (Msg (msg_desc m) [])), pb_clear = (\<lambda>m. Msg (msg_desc m) []),
     pb_parse = (\<lambda>m bytes n. if take 1 bytes = [10] \<and> n = 1 \<and> msg_desc m = sample_type then (True, sample_message) else (False, m)),
     pb_serialize = (\<lambda>m. if m = sample_message then (True, [10]) else (False, []))\<rparr>"

lemma agrees_refl: "agrees msg_ops m m"
proof (induction m rule: measure_induct_rule [where f = size])
  case (less m)
  have v: "rel_pb_value (agrees msg_ops) x x" if "x \<in> set (msg_values m name)" for x name
    using that less.IH msg_size [of _ m name] by (cases x rule: pb_value.exhaust) auto
  have "list_all2 (rel_pb_value (agrees msg_ops)) (pb_elements msg_ops m f) (pb_elements msg_ops m f)" for f
    using v by (auto simp: msg_elements list_all2_same)
  moreover have "rel_pb_value (agrees msg_ops) (pb_get msg_ops m f) (pb_get msg_ops m f)" if "pb_has_field msg_ops m f" for f
    using that v [of "hd (msg_values m (f_name f))" "f_name f"] by (auto simp: msg_ops_def split: list.splits)
  ultimately show ?case by (auto intro!: agreesI)
qed

lemma sample_wire_laws: "wire_laws msg_ops sample_wire"
  using empty_message_fresh agrees_refl
  by (auto simp: wire_laws_def sample_wire_def, auto simp: msg_ops_def sample_message_def split: if_splits)

definition sample_converter :: "(pb_msg, dtc) ProtobufDynamicDataConverter" where
  "sample_converter = \<lparr>conv_proto = Msg sample_type [], conv_msg = Msg sample_type [], conv_state = initial_state\<rparr>"

theorem converter_transfers_witness:
  "\<exists>m m'. represents tree_lib dtext doctets sample_data m \<and> pb_serialize sample_wire m = (True, [10])
    \<and> agrees msg_ops m m' \<and> stored tree_lib dtext doctets sample_data m'"
proof -
  obtain c where c: "ProtobufDynamicDataConverter_serialize tree_lib sample_wire 3 sample_converter sample_data [] = Inr (True, [10], c)"
    using sample_converts
    by (auto simp: ProtobufDynamicDataConverter_serialize_def sample_converter_def sample_wire_def)
  obtain d where d: "ProtobufDynamicDataConverter_deserialize tree_lib sample_wire 3 sample_converter blank_data ([10] @ []) (length [10 :: byte])
      = Inr (True, sample_data, d)"
    using sample_converts_back
    by (auto simp: ProtobufDynamicDataConverter_deserialize_def sample_converter_def sample_wire_def)
  have "\<exists>m m'. represents tree_lib dtext doctets sample_data m \<and> pb_serialize sample_wire m = (True, [10])
    \<and> agrees (lib_pb tree_lib) m m' \<and> stored tree_lib dtext doctets sample_data m'"
    by (rule converter_transfers [OF tree_reading.dds_reading_axioms tree_writing.dds_writing_axioms _ refl c d])
      (simp_all add: sample_wire_laws)
  then show ?thesis by simp
qed


end
