(* ===== verification/Tsfm_Config.thy ===== *)
theory Tsfm_Config
  imports Prelude
begin

text \<open>
  The configurations of the transformation library: the first half of
  \<^verbatim>\<open>common/transformation/srcC/Transformation.c\<close> (a transformation's kind and type names) and of
  \<^verbatim>\<open>TransformationPlugin.c\<close> (the plugin's library and constructor). A configuration is a heap
  block with two strings that Connext DDS allocates; the block is an entry of the ledger, the
  strings are values (\<open>None\<close> is NULL), and each allocation, of a block or of a string, takes its
  outcome from the schedule of the ledger.
\<close>

section \<open>Data\<close>

datatype RTI_TSFM_TransformationKind =
    RTI_TSFM_TransformationKind_SERIALIZER
  | RTI_TSFM_TransformationKind_DESERIALIZER

record RTI_TSFM_TransformationConfig =
  tc_addr :: addr
  tc_type :: RTI_TSFM_TransformationKind
  tc_input_type :: "string option"
  tc_output_type :: "string option"

record RTI_TSFM_TransformationPluginConfig =
  pc_addr :: addr
  pc_dll :: "string option"
  pc_create_fn :: "string option"

text \<open>
  The kinds of resources of the transformation library; a sample carries its content.
\<close>

datatype 'd tsfm_kind =
    Config_Block
  | PluginConfig_Block
  | UserPlugin_Block
  | TypeSupport_Object
  | Sample_Object 'd
  | State_Object
  | UserConfig_Object
  | Transform_Block
  | TPlugin_Block
  | Converter_Object
  | String_Object

type_synonym 'd heap = "'d tsfm_kind ledger"

text \<open>
  What the library takes from outside: whether it is built with \<open>RTI_TSFM_ENABLE_MUTEX\<close>, whether
  \<open>pthread_mutex_lock\<close> succeeds on a mutex that is free, the lookup of a property, and what \<open>DDS_String_replace\<close> leaves in a string it could not replace.
\<close>

record tsfm_lib =
  use_mutex :: bool
  take_ok :: bool
  ts_lookup :: "rs_properties \<Rightarrow> string \<Rightarrow> string option"
  replace_failed :: "string option \<Rightarrow> string option"

section \<open>Strings\<close>

definition draw :: "('k, 'z) ledger_scheme \<Rightarrow> bool \<times> ('k, 'z) ledger_scheme" where
  "draw w = (alloc_ok w, w\<lparr>sched := tl (sched w)\<rparr>)"

text \<open>\<open>DDS_String_replace\<close> returns the new string or NULL and changes the one pointed to.\<close>

definition String_replace ::
  "tsfm_lib \<Rightarrow> string option \<Rightarrow> string \<Rightarrow> ('k, 'z) ledger_scheme \<Rightarrow>
   string option \<times> string option \<times> ('k, 'z) ledger_scheme" where
  "String_replace lib s v w =
     (let (ok, w) = draw w in if ok then (Some v, Some v, w) else (None, replace_failed lib s, w))"

definition copyStringEx ::
  "string option \<Rightarrow> string \<Rightarrow> ('k, 'z) ledger_scheme \<Rightarrow> bool \<times> string option \<times> ('k, 'z) ledger_scheme" where
  "copyStringEx s v w = (let (ok, w) = draw w in (ok, if ok then Some v else s, w))"

text \<open>\<open>DDS_String_alloc(0)\<close> filled with the empty string.\<close>

definition String_alloc :: "('k, 'z) ledger_scheme \<Rightarrow> string option \<times> ('k, 'z) ledger_scheme" where
  "String_alloc w = (let (ok, w) = draw w in (if ok then Some [] else None, w))"

section \<open>The configuration of a transformation\<close>

definition RTI_TSFM_TransformationKind_from_string :: "string \<Rightarrow> RTI_TSFM_TransformationKind option" where
  "RTI_TSFM_TransformationKind_from_string str =
     (if str = ''serialize'' \<or> str = ''serializer'' \<or> str = ''s'' \<or> str = ''S''
         \<or> str = ''RTI_TSFM_TransformationKind_SERIALIZER''
      then Some RTI_TSFM_TransformationKind_SERIALIZER
      else if str = ''deserialize'' \<or> str = ''deserializer'' \<or> str = ''d'' \<or> str = ''D''
         \<or> str = ''RTI_TSFM_TransformationKind_DESERIALIZER''
      then Some RTI_TSFM_TransformationKind_DESERIALIZER
      else None)"

definition RTI_TSFM_TransformationConfig_delete ::
  "RTI_TSFM_TransformationConfig option \<Rightarrow> 'd heap \<Rightarrow> fault + 'd heap" where
  "RTI_TSFM_TransformationConfig_delete self w =
     (case self of None \<Rightarrow> Inr w | Some self \<Rightarrow> release (tc_addr self) w)"

text \<open>A string that cannot be allocated makes the constructor fail; the block is not freed then.\<close>

definition RTI_TSFM_TransformationConfig_new ::
  "'d heap \<Rightarrow> RTI_TSFM_TransformationConfig option \<times> 'd heap" where
  "RTI_TSFM_TransformationConfig_new w =
     (case alloc Config_Block w of
        (None, w) \<Rightarrow> (None, w)
      | (Some a, w) \<Rightarrow>
          (case String_alloc w of
             (None, w) \<Rightarrow> (None, w)
           | (Some input_type, w) \<Rightarrow>
               (case String_alloc w of
                  (None, w) \<Rightarrow> (None, w)
                | (Some output_type, w) \<Rightarrow>
                    (Some \<lparr>tc_addr = a, tc_type = RTI_TSFM_TransformationKind_SERIALIZER,
                       tc_input_type = Some input_type, tc_output_type = Some output_type\<rparr>, w))))"

text \<open>
  \<open>*config_out\<close> on entry and on return; a configuration given by the caller is changed in
  place, also when the operation fails.
\<close>

definition RTI_TSFM_TransformationConfig_default ::
  "RTI_TSFM_TransformationConfig option \<Rightarrow> 'd heap \<Rightarrow>
   fault + retcode \<times> RTI_TSFM_TransformationConfig option \<times> 'd heap" where
  "RTI_TSFM_TransformationConfig_default config_out w =
     (case (case config_out of None \<Rightarrow> RTI_TSFM_TransformationConfig_new w | Some c \<Rightarrow> (Some c, w)) of
        (None, w) \<Rightarrow> Inr (DDS_RETCODE_ERROR, config_out, w)
      | (Some config, w) \<Rightarrow>
          (let config = config\<lparr>tc_type := RTI_TSFM_TransformationKind_SERIALIZER\<rparr>;
               failed = (\<lambda>config w. if config_out = None
                 then bindF (RTI_TSFM_TransformationConfig_delete (Some config) w)
                        (\<lambda>w. Inr (DDS_RETCODE_ERROR, None, w))
                 else Inr (DDS_RETCODE_ERROR, Some config, w));
               (ok, input_type, w) = copyStringEx (tc_input_type config) [] w;
               config = config\<lparr>tc_input_type := input_type\<rparr> in
           if \<not> ok then failed config w
           else
             let (ok, output_type, w) = copyStringEx (tc_output_type config) [] w;
                 config = config\<lparr>tc_output_type := output_type\<rparr> in
             if \<not> ok then failed config w else Inr (DDS_RETCODE_OK, Some config, w)))"

text \<open>
  The properties override the defaults: an unknown kind is an error, a string that became
  NULL too. A failure deletes the configuration only when it was allocated here.
\<close>

definition RTI_TSFM_TransformationConfig_set ::
  "tsfm_lib \<Rightarrow> rs_properties \<Rightarrow> RTI_TSFM_TransformationConfig \<Rightarrow> 'd heap \<Rightarrow>
   bool \<times> RTI_TSFM_TransformationConfig \<times> 'd heap" where
  "RTI_TSFM_TransformationConfig_set lib properties config w =
     (let (ok, config) =
        (case ts_lookup lib properties ''transform_type'' of
           None \<Rightarrow> (True, config)
         | Some pval \<Rightarrow>
             (case RTI_TSFM_TransformationKind_from_string pval of
                None \<Rightarrow> (False, config)
              | Some kind \<Rightarrow> (True, config\<lparr>tc_type := kind\<rparr>))) in
      if \<not> ok then (False, config, w)
      else
        let (ok, config, w) =
          (case ts_lookup lib properties ''input_type'' of
             None \<Rightarrow> (True, config, w)
           | Some pval \<Rightarrow>
               (let (_, s, w) = String_replace lib (tc_input_type config) pval w in
                (s \<noteq> None, config\<lparr>tc_input_type := s\<rparr>, w))) in
        if \<not> ok then (False, config, w)
        else
          (case ts_lookup lib properties ''output_type'' of
             None \<Rightarrow> (True, config, w)
           | Some pval \<Rightarrow>
               (let (_, s, w) = String_replace lib (tc_output_type config) pval w in
                (s \<noteq> None, config\<lparr>tc_output_type := s\<rparr>, w))))"

definition RTI_TSFM_TransformationConfig_parse_from_properties_alloc ::
  "tsfm_lib \<Rightarrow> rs_properties \<Rightarrow> RTI_TSFM_TransformationConfig option \<Rightarrow> 'd heap \<Rightarrow>
   fault + retcode \<times> RTI_TSFM_TransformationConfig option \<times> 'd heap" where
  "RTI_TSFM_TransformationConfig_parse_from_properties_alloc lib properties config_out w =
     bindF (RTI_TSFM_TransformationConfig_default config_out w) (\<lambda>(retcode, config, w).
       case config of
         None \<Rightarrow> Inr (DDS_RETCODE_ERROR, None, w)
       | Some config \<Rightarrow>
           if retcode \<noteq> DDS_RETCODE_OK then Inr (DDS_RETCODE_ERROR, Some config, w)
           else
             let (ok, config, w) = RTI_TSFM_TransformationConfig_set lib properties config w in
             if ok then Inr (DDS_RETCODE_OK, Some config, w)
             else if config_out = None
             then bindF (RTI_TSFM_TransformationConfig_delete (Some config) w)
                    (\<lambda>w. Inr (DDS_RETCODE_ERROR, None, w))
             else Inr (DDS_RETCODE_ERROR, Some config, w))"

definition RTI_TSFM_TransformationConfig_parse_from_properties ::
  "tsfm_lib \<Rightarrow> RTI_TSFM_TransformationConfig \<Rightarrow> rs_properties \<Rightarrow> 'd heap \<Rightarrow>
   fault + retcode \<times> RTI_TSFM_TransformationConfig option \<times> 'd heap" where
  "RTI_TSFM_TransformationConfig_parse_from_properties lib config properties w =
     RTI_TSFM_TransformationConfig_parse_from_properties_alloc lib properties (Some config) w"

section \<open>The configuration of a plugin\<close>

definition RTI_TSFM_TransformationPluginConfig_copy ::
  "RTI_TSFM_TransformationPluginConfig option \<Rightarrow> (string \<times> string) option \<Rightarrow> 'd heap \<Rightarrow>
   bool \<times> RTI_TSFM_TransformationPluginConfig option \<times> 'd heap" where
  "RTI_TSFM_TransformationPluginConfig_copy dst src w =
     (case (dst, src) of
        (Some dst, Some (dll, create_fn)) \<Rightarrow>
          (let (ok, s, w) = copyStringEx (pc_dll dst) dll w; dst = dst\<lparr>pc_dll := s\<rparr> in
           if \<not> ok then (False, Some dst, w)
           else
             let (ok, s, w) = copyStringEx (pc_create_fn dst) create_fn w;
                 dst = dst\<lparr>pc_create_fn := s\<rparr> in
             (ok, Some dst, w))
      | _ \<Rightarrow> (False, dst, w))"

definition RTI_TSFM_TransformationPluginConfig_delete ::
  "RTI_TSFM_TransformationPluginConfig option \<Rightarrow> 'd heap \<Rightarrow> fault + 'd heap" where
  "RTI_TSFM_TransformationPluginConfig_delete self w =
     (case self of None \<Rightarrow> Inr w | Some self \<Rightarrow> release (pc_addr self) w)"

text \<open>Unlike the configuration of a transformation, this one is freed when a string is missing.\<close>

definition RTI_TSFM_TransformationPluginConfig_new ::
  "'d heap \<Rightarrow> fault + RTI_TSFM_TransformationPluginConfig option \<times> 'd heap" where
  "RTI_TSFM_TransformationPluginConfig_new w =
     (case alloc PluginConfig_Block w of
        (None, w) \<Rightarrow> Inr (None, w)
      | (Some a, w) \<Rightarrow>
          (let config = \<lparr>pc_addr = a, pc_dll = None, pc_create_fn = None\<rparr>;
               failed = (\<lambda>config w. bindF (RTI_TSFM_TransformationPluginConfig_delete (Some config) w)
                 (\<lambda>w. Inr (None, w)));
               (s, w) = String_alloc w; config = config\<lparr>pc_dll := s\<rparr> in
           if s = None then failed config w
           else
             let (s, w) = String_alloc w; config = config\<lparr>pc_create_fn := s\<rparr> in
             if s = None then failed config w else Inr (Some config, w)))"

definition RTI_TSFM_TransformationPluginConfig_default ::
  "RTI_TSFM_TransformationPluginConfig option \<Rightarrow> 'd heap \<Rightarrow>
   fault + retcode \<times> RTI_TSFM_TransformationPluginConfig option \<times> 'd heap" where
  "RTI_TSFM_TransformationPluginConfig_default config_out w =
     bindF (case config_out of None \<Rightarrow> RTI_TSFM_TransformationPluginConfig_new w | Some c \<Rightarrow> Inr (Some c, w))
       (\<lambda>(config, w).
         if config = None then Inr (DDS_RETCODE_ERROR, config_out, w)
         else
           let (ok, config, w) = RTI_TSFM_TransformationPluginConfig_copy config (Some ([], [])) w in
           if ok then Inr (DDS_RETCODE_OK, config, w)
           else if config_out = None
           then bindF (RTI_TSFM_TransformationPluginConfig_delete config w)
                  (\<lambda>w. Inr (DDS_RETCODE_ERROR, None, w))
           else Inr (DDS_RETCODE_ERROR, config, w))"

definition RTI_TSFM_TransformationPluginConfig_set ::
  "tsfm_lib \<Rightarrow> rs_properties \<Rightarrow> RTI_TSFM_TransformationPluginConfig \<Rightarrow> 'd heap \<Rightarrow>
   bool \<times> RTI_TSFM_TransformationPluginConfig \<times> 'd heap" where
  "RTI_TSFM_TransformationPluginConfig_set lib properties config w =
     (let (ok, config, w) =
        (case ts_lookup lib properties ''dll'' of
           None \<Rightarrow> (True, config, w)
         | Some pval \<Rightarrow>
             (let (_, s, w) = String_replace lib (pc_dll config) pval w in
              (s \<noteq> None, config\<lparr>pc_dll := s\<rparr>, w))) in
      if \<not> ok then (False, config, w)
      else
        (case ts_lookup lib properties ''create_fn'' of
           None \<Rightarrow> (True, config, w)
         | Some pval \<Rightarrow>
             (let (_, s, w) = String_replace lib (pc_create_fn config) pval w in
              (s \<noteq> None, config\<lparr>pc_create_fn := s\<rparr>, w))))"

definition RTI_TSFM_TransformationPluginConfig_parse_from_properties_alloc ::
  "tsfm_lib \<Rightarrow> rs_properties \<Rightarrow> RTI_TSFM_TransformationPluginConfig option \<Rightarrow> 'd heap \<Rightarrow>
   fault + retcode \<times> RTI_TSFM_TransformationPluginConfig option \<times> 'd heap" where
  "RTI_TSFM_TransformationPluginConfig_parse_from_properties_alloc lib properties config_out w =
     bindF (RTI_TSFM_TransformationPluginConfig_default config_out w) (\<lambda>(retcode, config, w).
       case config of
         None \<Rightarrow> Inr (DDS_RETCODE_ERROR, None, w)
       | Some config \<Rightarrow>
           if retcode \<noteq> DDS_RETCODE_OK then Inr (DDS_RETCODE_ERROR, Some config, w)
           else
             let (ok, config, w) = RTI_TSFM_TransformationPluginConfig_set lib properties config w in
             if ok then Inr (DDS_RETCODE_OK, Some config, w)
             else if config_out = None
             then bindF (RTI_TSFM_TransformationPluginConfig_delete (Some config) w)
                    (\<lambda>w. Inr (DDS_RETCODE_ERROR, None, w))
             else Inr (DDS_RETCODE_ERROR, Some config, w))"

definition RTI_TSFM_TransformationPluginConfig_parse_from_properties ::
  "tsfm_lib \<Rightarrow> RTI_TSFM_TransformationPluginConfig \<Rightarrow> rs_properties \<Rightarrow> 'd heap \<Rightarrow>
   fault + retcode \<times> RTI_TSFM_TransformationPluginConfig option \<times> 'd heap" where
  "RTI_TSFM_TransformationPluginConfig_parse_from_properties lib config properties w =
     RTI_TSFM_TransformationPluginConfig_parse_from_properties_alloc lib properties (Some config) w"

section \<open>What a parser of configurations promises\<close>

text \<open>
  The contract that the initialisation of transformations and plugins relies on: parsing
  into NULL never faults and leaves the resources of the caller alone; when it succeeds the
  result owns a new block, and when it fails nothing is returned. Parsing into a given
  configuration keeps its block and the ledger of live resources.
\<close>

locale config_parser =
  fixes parse :: "tsfm_lib \<Rightarrow> rs_properties \<Rightarrow> 'c option \<Rightarrow> 'd heap \<Rightarrow> fault + retcode \<times> 'c option \<times> 'd heap"
    and block :: "'c \<Rightarrow> addr"
  assumes parse_fresh: "wf_ledger w \<Longrightarrow> \<exists>r c w'. parse lib properties None w = Inr (r, c, w')
      \<and> (if r = DDS_RETCODE_OK then (\<exists>x. c = Some x \<and> owned w [block x] w') else c = None \<and> untouched w w')"
    and parse_given: "\<exists>r x' w'. parse lib properties (Some x) w = Inr (r, Some x', w')
      \<and> block x' = block x \<and> live w' = live w \<and> next_id w' = next_id w"
begin

text \<open>A configuration that was parsed into NULL can be freed, and then nothing of it is left.\<close>

lemma parse_then_free:
  assumes "wf_ledger w" and "parse lib properties None w = Inr (DDS_RETCODE_OK, Some x, w')"
  shows "\<exists>w''. release (block x) w' = Inr w'' \<and> untouched w w''"
  using parse_fresh [OF assms(1), of lib properties] assms(2) owned_release [of w "[block x]" "[]" w']
    owned_untouched by (fastforce simp: release_all_single simp del: release_all.simps)

lemma parse_total: "wf_ledger w \<Longrightarrow> \<exists>r c w'. parse lib properties p w = Inr (r, c, w')"
  using parse_fresh [of w] parse_given [of lib properties _ w] by (cases p) blast+

end

section \<open>Both parsers keep the contract\<close>

lemma draw_frame: "draw w = (ok, w') \<Longrightarrow> live w' = live w \<and> next_id w' = next_id w"
  by (auto simp: draw_def)

lemma String_replace_frame:
  "String_replace lib s v w = (r, s', w') \<Longrightarrow> live w' = live w \<and> next_id w' = next_id w"
  by (auto simp: String_replace_def Let_def dest: draw_frame split: prod.splits if_splits)

lemma copyStringEx_frame: "copyStringEx s v w = (r, s', w') \<Longrightarrow> live w' = live w \<and> next_id w' = next_id w"
  by (auto simp: copyStringEx_def Let_def dest: draw_frame split: prod.splits)

lemma String_alloc_frame: "String_alloc w = (s, w') \<Longrightarrow> live w' = live w \<and> next_id w' = next_id w"
  by (auto simp: String_alloc_def Let_def dest: draw_frame split: prod.splits)

lemmas string_frames = String_replace_frame copyStringEx_frame String_alloc_frame

lemma TransformationConfig_new_owned:
  assumes "wf_ledger w"
  shows "(case RTI_TSFM_TransformationConfig_new w of
     (None, w') \<Rightarrow> untouched w w' | (Some c, w') \<Rightarrow> owned w [tc_addr c] w')"
proof -
  obtain p w1 where a: "alloc Config_Block w = (p, w1)" by (cases "alloc Config_Block w")
  obtain s1 w2 where s1: "String_alloc w1 = (s1, w2)" by (cases "String_alloc w1")
  obtain s2 w3 where s2: "String_alloc w2 = (s2, w3)" by (cases "String_alloc w2")
  have own: "owned w (opt_list p) w1" using owned_alloc [OF owned_start [OF assms] a] by simp
  then have "owned w (opt_list p) w2" "owned w (opt_list p) w3"
    using string_frames(3) [OF s1] string_frames(3) [OF s2] owned_cong by metis+
  with own show ?thesis
    using a s1 s2
    by (auto simp: RTI_TSFM_TransformationConfig_new_def dest: owned_untouched split: option.splits)
qed

lemma TransformationConfig_default_given:
  "\<exists>r x' w'. RTI_TSFM_TransformationConfig_default (Some x) w = Inr (r, Some x', w')
     \<and> tc_addr x' = tc_addr x \<and> live w' = live w \<and> next_id w' = next_id w"
  by (auto simp: RTI_TSFM_TransformationConfig_default_def Let_def dest!: string_frames split: prod.splits)

lemma TransformationConfig_default_fresh:
  assumes "wf_ledger w"
  shows "\<exists>r c w'. RTI_TSFM_TransformationConfig_default None w = Inr (r, c, w')
    \<and> (if r = DDS_RETCODE_OK then (\<exists>x. c = Some x \<and> owned w [tc_addr x] w') else c = None \<and> untouched w w')"
proof (cases "RTI_TSFM_TransformationConfig_new w")
  case (Pair p w1)
  show ?thesis
  proof (cases p)
    case None
    with Pair show ?thesis
      using TransformationConfig_new_owned [OF assms]
      by (simp add: RTI_TSFM_TransformationConfig_default_def)
  next
    case (Some c)
    obtain ok2 s2 w2 where c2: "copyStringEx (tc_input_type c) [] w1 = (ok2, s2, w2)"
      by (metis prod_cases3)
    obtain ok3 s3 w3 where c3: "copyStringEx (tc_output_type c) [] w2 = (ok3, s3, w3)"
      by (metis prod_cases3)
    have "owned w [tc_addr c] w1"
      using TransformationConfig_new_owned [OF assms] Pair Some by simp
    then have own: "owned w [tc_addr c] w2" "owned w [tc_addr c] w3"
      using string_frames(2) [OF c2] string_frames(2) [OF c3] owned_cong by metis+
    show ?thesis
      using owned_free [OF own(1)] owned_free [OF own(2)] own(2) Pair Some c2 c3
      by (auto simp: RTI_TSFM_TransformationConfig_default_def RTI_TSFM_TransformationConfig_delete_def
          Let_def)
  qed
qed

lemma TransformationConfig_set_frame:
  "RTI_TSFM_TransformationConfig_set lib properties c w = (ok, c', w') \<Longrightarrow>
   tc_addr c' = tc_addr c \<and> live w' = live w \<and> next_id w' = next_id w"
  by (auto simp: RTI_TSFM_TransformationConfig_set_def Let_def dest!: string_frames
      split: option.splits prod.splits if_splits)

interpretation tconfig: config_parser
  RTI_TSFM_TransformationConfig_parse_from_properties_alloc tc_addr
proof (unfold_locales, goal_cases)
  case (1 w lib properties)
  obtain r c w1 where d: "RTI_TSFM_TransformationConfig_default None w = Inr (r, c, w1)"
    and own: "if r = DDS_RETCODE_OK then (\<exists>x. c = Some x \<and> owned w [tc_addr x] w1)
      else c = None \<and> untouched w w1"
    using TransformationConfig_default_fresh [OF 1] by blast
  show ?case
  proof (cases "r = DDS_RETCODE_OK")
    case True
    with own obtain x where x: "c = Some x" "owned w [tc_addr x] w1" by auto
    obtain ok x' w2 where s: "RTI_TSFM_TransformationConfig_set lib properties x w1 = (ok, x', w2)"
      by (metis prod_cases3)
    have "owned w [tc_addr x'] w2"
      using x(2) TransformationConfig_set_frame [OF s] owned_cong [of w2 w1 w] by simp
    from this owned_free [OF this] show ?thesis
      using d x(1) s True
      by (auto simp: RTI_TSFM_TransformationConfig_parse_from_properties_alloc_def
          RTI_TSFM_TransformationConfig_delete_def)
  next
    case False
    with own d show ?thesis
      by (simp add: RTI_TSFM_TransformationConfig_parse_from_properties_alloc_def)
  qed
next
  case (2 lib properties x w)
  obtain r x1 w1 where d: "RTI_TSFM_TransformationConfig_default (Some x) w = Inr (r, Some x1, w1)"
      "tc_addr x1 = tc_addr x" "live w1 = live w" "next_id w1 = next_id w"
    using TransformationConfig_default_given by blast
  obtain ok x2 w2 where s: "RTI_TSFM_TransformationConfig_set lib properties x1 w1 = (ok, x2, w2)"
    by (metis prod_cases3)
  show ?case
    using d TransformationConfig_set_frame [OF s] s
    by (cases "r = DDS_RETCODE_OK")
      (auto simp: RTI_TSFM_TransformationConfig_parse_from_properties_alloc_def)
qed

lemma PluginConfig_new_owned:
  assumes "wf_ledger w"
  shows "\<exists>p w'. RTI_TSFM_TransformationPluginConfig_new w = Inr (p, w')
    \<and> (case p of None \<Rightarrow> untouched w w' \<and> live w' = live w | Some c \<Rightarrow> owned w [pc_addr c] w')"
proof (rule alloc_cases [of PluginConfig_Block w])
  let ?a = "next_id w"
  let ?w1 = "w\<lparr>next_id := Suc ?a, live := (live w)(?a \<mapsto> PluginConfig_Block), sched := tl (sched w)\<rparr>"
  assume a: "alloc PluginConfig_Block w = (Some ?a, ?w1)"
  obtain s1 w2 where s1: "String_alloc ?w1 = (s1, w2)" by (cases "String_alloc ?w1")
  obtain s2 w3 where s2: "String_alloc w2 = (s2, w3)" by (cases "String_alloc w2")
  have own: "owned w [?a] ?w1" using owned_alloc [OF owned_start [OF assms] a] by simp
  then have own2: "owned w [?a] w2" and own3: "owned w [?a] w3"
    using string_frames(3) [OF s1] string_frames(3) [OF s2] owned_cong by metis+
  have fresh: "live w ?a = None" using assms by (simp add: wf_ledger_def)
  have live: "live w2 = (live w)(?a \<mapsto> PluginConfig_Block)" "live w3 = (live w)(?a \<mapsto> PluginConfig_Block)"
    using string_frames(3) [OF s1] string_frames(3) [OF s2] by simp_all
  have free: "\<exists>w'. release ?a v = Inr w' \<and> untouched w w' \<and> live w' = live w"
    if "owned w [?a] v" "live v = (live w)(?a \<mapsto> PluginConfig_Block)" for v
    using owned_free [OF that(1)] that(2) fresh by (auto simp: release_def fun_upd_idem)
  show ?thesis
    using free [OF own2 live(1)] free [OF own3 live(2)] own3 a s1 s2
    by (cases s1; cases s2)
      (auto simp: RTI_TSFM_TransformationPluginConfig_new_def RTI_TSFM_TransformationPluginConfig_delete_def
        Let_def)
next
  assume "alloc PluginConfig_Block w = (None, w\<lparr>sched := tl (sched w)\<rparr>)"
  then show ?thesis
    using assms by (simp add: RTI_TSFM_TransformationPluginConfig_new_def untouched_def wf_ledger_def)
qed

lemma PluginConfig_copy_frame:
  "RTI_TSFM_TransformationPluginConfig_copy (Some x) (Some src) w = (ok, c, w') \<Longrightarrow>
   \<exists>x'. c = Some x' \<and> pc_addr x' = pc_addr x \<and> live w' = live w \<and> next_id w' = next_id w"
  by (auto simp: RTI_TSFM_TransformationPluginConfig_copy_def Let_def dest!: string_frames
      split: prod.splits if_splits)

lemma PluginConfig_default_given:
  "\<exists>r x' w'. RTI_TSFM_TransformationPluginConfig_default (Some x) w = Inr (r, Some x', w')
     \<and> pc_addr x' = pc_addr x \<and> live w' = live w \<and> next_id w' = next_id w"
  by (auto simp: RTI_TSFM_TransformationPluginConfig_default_def Let_def dest!: PluginConfig_copy_frame
      split: prod.splits)

lemma PluginConfig_default_fresh:
  assumes "wf_ledger w"
  shows "\<exists>r c w'. RTI_TSFM_TransformationPluginConfig_default None w = Inr (r, c, w')
    \<and> (if r = DDS_RETCODE_OK then (\<exists>x. c = Some x \<and> owned w [pc_addr x] w') else c = None \<and> untouched w w')"
proof -
  obtain p w1 where new: "RTI_TSFM_TransformationPluginConfig_new w = Inr (p, w1)"
    and own: "case p of None \<Rightarrow> untouched w w1 \<and> live w1 = live w | Some c \<Rightarrow> owned w [pc_addr c] w1"
    using PluginConfig_new_owned [OF assms] by blast
  show ?thesis
  proof (cases p)
    case None
    with new own show ?thesis by (simp add: RTI_TSFM_TransformationPluginConfig_default_def)
  next
    case (Some x)
    obtain ok c w2 where c: "RTI_TSFM_TransformationPluginConfig_copy (Some x) (Some ([], [])) w1 = (ok, c, w2)"
      by (metis prod_cases3)
    then obtain x' where x': "c = Some x'" "pc_addr x' = pc_addr x" "live w2 = live w1" "next_id w2 = next_id w1"
      using PluginConfig_copy_frame by blast
    then have own': "owned w [pc_addr x'] w2" using own Some owned_cong [of w2 w1 w] by simp
    show ?thesis
      using owned_free [OF own'] own' new Some c x'(1)
      by (auto simp: RTI_TSFM_TransformationPluginConfig_default_def
          RTI_TSFM_TransformationPluginConfig_delete_def)
  qed
qed

lemma PluginConfig_set_frame:
  "RTI_TSFM_TransformationPluginConfig_set lib properties c w = (ok, c', w') \<Longrightarrow>
   pc_addr c' = pc_addr c \<and> live w' = live w \<and> next_id w' = next_id w"
  by (auto simp: RTI_TSFM_TransformationPluginConfig_set_def Let_def dest!: string_frames
      split: option.splits prod.splits if_splits)

interpretation pconfig: config_parser
  RTI_TSFM_TransformationPluginConfig_parse_from_properties_alloc pc_addr
proof (unfold_locales, goal_cases)
  case (1 w lib properties)
  obtain r c w1 where d: "RTI_TSFM_TransformationPluginConfig_default None w = Inr (r, c, w1)"
    and own: "if r = DDS_RETCODE_OK then (\<exists>x. c = Some x \<and> owned w [pc_addr x] w1)
      else c = None \<and> untouched w w1"
    using PluginConfig_default_fresh [OF 1] by blast
  show ?case
  proof (cases "r = DDS_RETCODE_OK")
    case True
    with own obtain x where x: "c = Some x" "owned w [pc_addr x] w1" by auto
    obtain ok x' w2 where s: "RTI_TSFM_TransformationPluginConfig_set lib properties x w1 = (ok, x', w2)"
      by (metis prod_cases3)
    have "owned w [pc_addr x'] w2"
      using x(2) PluginConfig_set_frame [OF s] owned_cong [of w2 w1 w] by simp
    from this owned_free [OF this] show ?thesis
      using d x(1) s True
      by (auto simp: RTI_TSFM_TransformationPluginConfig_parse_from_properties_alloc_def
          RTI_TSFM_TransformationPluginConfig_delete_def)
  next
    case False
    with own d show ?thesis
      by (simp add: RTI_TSFM_TransformationPluginConfig_parse_from_properties_alloc_def)
  qed
next
  case (2 lib properties x w)
  obtain r x1 w1 where d: "RTI_TSFM_TransformationPluginConfig_default (Some x) w = Inr (r, Some x1, w1)"
      "pc_addr x1 = pc_addr x" "live w1 = live w" "next_id w1 = next_id w"
    using PluginConfig_default_given by blast
  obtain ok x2 w2 where s: "RTI_TSFM_TransformationPluginConfig_set lib properties x1 w1 = (ok, x2, w2)"
    by (metis prod_cases3)
  show ?case
    using d PluginConfig_set_frame [OF s] s
    by (cases "r = DDS_RETCODE_OK")
      (auto simp: RTI_TSFM_TransformationPluginConfig_parse_from_properties_alloc_def)
qed

text \<open>A successful parse leaves no type name NULL.\<close>

lemma TransformationConfig_parse_output_type:
  assumes "RTI_TSFM_TransformationConfig_parse_from_properties_alloc lib properties p w
    = Inr (DDS_RETCODE_OK, Some c, w')"
  shows "tc_output_type c \<noteq> None"
proof -
  have set: "tc_output_type c1 \<noteq> None \<Longrightarrow>
      RTI_TSFM_TransformationConfig_set lib properties c1 w1 = (True, c2, w2) \<Longrightarrow> tc_output_type c2 \<noteq> None"
    for c1 c2 and w1 w2 :: "'a heap"
    by (auto simp: RTI_TSFM_TransformationConfig_set_def Let_def split: option.splits prod.splits if_splits)
  have default: "RTI_TSFM_TransformationConfig_default p w = Inr (DDS_RETCODE_OK, Some c1, w1) \<Longrightarrow>
      tc_output_type c1 \<noteq> None" for c1 w1
    by (auto simp: RTI_TSFM_TransformationConfig_default_def copyStringEx_def Let_def bindF_eq_Inr
        split: option.splits prod.splits if_splits)
  obtain r x1 w1 where d: "RTI_TSFM_TransformationConfig_default p w = Inr (r, x1, w1)"
    using assms
    by (auto simp: RTI_TSFM_TransformationConfig_parse_from_properties_alloc_def bindF_eq_Inr)
  with assms obtain c1 where c1: "x1 = Some c1" "r = DDS_RETCODE_OK"
    by (auto simp: RTI_TSFM_TransformationConfig_parse_from_properties_alloc_def
        split: option.splits if_splits)
  obtain ok c2 w2 where s: "RTI_TSFM_TransformationConfig_set lib properties c1 w1 = (ok, c2, w2)"
    by (metis prod_cases3)
  then have "ok \<and> c = c2"
    using assms d c1
    by (auto simp: RTI_TSFM_TransformationConfig_parse_from_properties_alloc_def bindF_eq_Inr
        split: if_splits)
  then show ?thesis using set [of c1 w1 c2 w2] default [of c1 w1] d c1 s by simp
qed

section \<open>Properties\<close>

text \<open>
  C37. What parsing means, when memory suffices: an unknown \<open>transform_type\<close> is an error;
  otherwise parsing succeeds, also without that property, and the configuration has the kind that
  the property names, or serializer when it is absent, and the two type names that the properties
  give, or empty ones. The result does not depend on what a configuration given by the caller held
  before. The documentation of the protobuf plugin
  (\<^verbatim>\<open>protobuf_transformation_properties.csv\<close>) calls \<open>transform_type\<close> required.
\<close>

theorem transformation_config_parse:
  assumes "sched w = []"
  shows "\<exists>r x w'. RTI_TSFM_TransformationConfig_parse_from_properties_alloc lib properties config w = Inr (r, x, w')
    \<and> (case ts_lookup lib properties ''transform_type'' of
         None \<Rightarrow> r = DDS_RETCODE_OK
       | Some v \<Rightarrow> r = (if RTI_TSFM_TransformationKind_from_string v = None
                         then DDS_RETCODE_ERROR else DDS_RETCODE_OK))
    \<and> (r = DDS_RETCODE_OK \<longrightarrow> (\<exists>c. x = Some c
         \<and> tc_type c = (case ts_lookup lib properties ''transform_type'' of
               None \<Rightarrow> RTI_TSFM_TransformationKind_SERIALIZER
             | Some v \<Rightarrow> the (RTI_TSFM_TransformationKind_from_string v))
         \<and> tc_input_type c = Some (case ts_lookup lib properties ''input_type'' of None \<Rightarrow> [] | Some v \<Rightarrow> v)
         \<and> tc_output_type c = Some (case ts_lookup lib properties ''output_type'' of None \<Rightarrow> [] | Some v \<Rightarrow> v)))"
  using assms
  by (cases config)
    (auto simp: RTI_TSFM_TransformationConfig_parse_from_properties_alloc_def
      RTI_TSFM_TransformationConfig_default_def RTI_TSFM_TransformationConfig_new_def
      RTI_TSFM_TransformationConfig_set_def RTI_TSFM_TransformationConfig_delete_def copyStringEx_def
      String_alloc_def String_replace_def draw_def alloc_def alloc_ok_def acquire_def release_def Let_def
      split: option.split)

definition assoc_lib :: tsfm_lib where
  "assoc_lib = \<lparr>use_mutex = True, take_ok = True, ts_lookup = map_of, replace_failed = (\<lambda>s. None)\<rparr>"

definition empty_heap :: "bool list \<Rightarrow> 'd heap" where
  "empty_heap q = \<lparr>next_id = 0, live = Map.empty, sched = q\<rparr>"

lemma wf_empty_heap: "wf_ledger (empty_heap q)"
  by (simp add: wf_ledger_def empty_heap_def)

theorem transformation_config_parse_witness:
  "\<exists>c w'. RTI_TSFM_TransformationConfig_parse_from_properties_alloc assoc_lib
      [(''transform_type'', ''d''), (''output_type'', ''Shape'')] None (empty_heap [] :: unit heap)
    = Inr (DDS_RETCODE_OK, Some c, w')
    \<and> tc_type c = RTI_TSFM_TransformationKind_DESERIALIZER \<and> tc_output_type c = Some ''Shape''"
proof -
  have "sched (empty_heap [] :: unit heap) = []" by (simp add: empty_heap_def)
  from transformation_config_parse [OF this, of assoc_lib
      "[(''transform_type'', ''d''), (''output_type'', ''Shape'')]" None]
  show ?thesis
    by (auto simp: assoc_lib_def RTI_TSFM_TransformationKind_from_string_def)
qed

text \<open>
  Parsing either configuration into NULL, whatever allocations fail: it returns, it
  touches no resource of the caller, a success owns one new block and a failure returns no
  configuration.
\<close>

theorem config_parse_resources:
  assumes "wf_ledger w"
  shows "(\<exists>r c w'. RTI_TSFM_TransformationConfig_parse_from_properties_alloc lib properties None w = Inr (r, c, w')
      \<and> (if r = DDS_RETCODE_OK then (\<exists>x. c = Some x \<and> owned w [tc_addr x] w') else c = None \<and> untouched w w'))
    \<and> (\<exists>r c w'. RTI_TSFM_TransformationPluginConfig_parse_from_properties_alloc lib properties None w = Inr (r, c, w')
      \<and> (if r = DDS_RETCODE_OK then (\<exists>x. c = Some x \<and> owned w [pc_addr x] w') else c = None \<and> untouched w w'))"
  using tconfig.parse_fresh [OF assms] pconfig.parse_fresh [OF assms] by blast

theorem config_parse_resources_witness:
  "\<exists>r c w'. RTI_TSFM_TransformationConfig_parse_from_properties_alloc assoc_lib [(''transform_type'', ''x'')]
      None (empty_heap [True, False] :: unit heap) = Inr (r, c, w')"
  using config_parse_resources [OF wf_empty_heap] by blast

text \<open>
  The two constructors differ when a string cannot be allocated: that of the plugin's
  configuration leaves nothing behind, that of a transformation's leaks its block.
\<close>

theorem config_new_leak:
  assumes "wf_ledger w" and "alloc_ok w" and "\<not> alloc_ok (w\<lparr>sched := tl (sched w)\<rparr>)"
  shows "\<exists>w1 w2. RTI_TSFM_TransformationConfig_new w = (None, w1)
      \<and> live w1 = (live w)(next_id w \<mapsto> Config_Block) \<and> live w (next_id w) = None
      \<and> RTI_TSFM_TransformationPluginConfig_new w = Inr (None, w2) \<and> live w2 = live w"
proof -
  have "\<not> alloc_ok (w\<lparr>next_id := n, live := l, sched := tl (sched w)\<rparr>)" for n l
    using assms(3) by (simp add: alloc_ok_def)
  with assms show ?thesis
    by (auto simp: RTI_TSFM_TransformationConfig_new_def RTI_TSFM_TransformationPluginConfig_new_def
        RTI_TSFM_TransformationPluginConfig_delete_def String_alloc_def draw_def alloc_def acquire_def
        release_def Let_def wf_ledger_def fun_upd_idem)
qed

theorem config_new_leak_witness:
  "\<exists>w1 w2. RTI_TSFM_TransformationConfig_new (empty_heap [True, False] :: unit heap) = (None, w1)
      \<and> live w1 = [0 \<mapsto> Config_Block]
      \<and> RTI_TSFM_TransformationPluginConfig_new (empty_heap [True, False] :: unit heap) = Inr (None, w2)
      \<and> live w2 = Map.empty"
  using config_new_leak [OF wf_empty_heap, of "[True, False]"]
  by (auto simp: empty_heap_def alloc_ok_def)

end
