(* ===== verification/Tsfm_Transformation.thy ===== *)
theory Tsfm_Transformation
  imports Tsfm_Config Dds_Sequence
begin

text \<open>
  A transformation of the transformation library: the second half of
  \<^verbatim>\<open>common/transformation/srcC/Transformation.c\<close>, with the mutex and the pointer sequences of
  \<^verbatim>\<open>TransformationInfrastructure.c\<close>. A transformation keeps a buffer of output samples, created
  on demand and reused, lends it out with \<open>transform\<close> and takes it back with \<open>return_loan\<close>. The
  sequence of Connext DDS is the parameter \<open>ops\<close> of \<open>Dds_Sequence\<close>; the samples are resources of
  the ledger that carry their content.
\<close>

section \<open>Elements of pointer sequences\<close>

text \<open>The functions that the sequence template is instantiated with.\<close>

definition RTI_TSFM_DDS_DynamicDataPtr_initialize_w_params :: "addr option \<Rightarrow> bool \<times> addr option" where
  "RTI_TSFM_DDS_DynamicDataPtr_initialize_w_params self = (True, None)"

definition RTI_TSFM_DDS_DynamicDataPtr_finalize_w_params :: "addr option \<Rightarrow> bool \<times> addr option" where
  "RTI_TSFM_DDS_DynamicDataPtr_finalize_w_params self = (True, None)"

definition RTI_TSFM_DDS_DynamicDataPtr_copy :: "addr option \<Rightarrow> addr option \<Rightarrow> bool \<times> addr option" where
  "RTI_TSFM_DDS_DynamicDataPtr_copy dst src = (True, src)"

definition RTI_TSFM_TransformationPtr_initialize_w_params :: "addr option \<Rightarrow> bool \<times> addr option" where
  "RTI_TSFM_TransformationPtr_initialize_w_params self = (True, None)"

definition RTI_TSFM_TransformationPtr_finalize_w_params :: "addr option \<Rightarrow> bool \<times> addr option" where
  "RTI_TSFM_TransformationPtr_finalize_w_params self = (True, None)"

definition RTI_TSFM_TransformationPtr_copy :: "addr option \<Rightarrow> addr option \<Rightarrow> bool \<times> addr option" where
  "RTI_TSFM_TransformationPtr_copy dst src = (True, src)"

section \<open>Mutex\<close>

text \<open>
  A POSIX mutex of the default kind, used by one thread: initialising it may fail, destroying a
  locked one is refused, taking it may fail, and what happens when a thread takes the mutex that it
  holds is undefined.
\<close>

datatype RTI_TSFM_Mutex = Mutex_Uninitialised | Mutex_Free | Mutex_Held

definition RTI_TSFM_Mutex_initialize ::
  "('k, 'z) ledger_scheme \<Rightarrow> retcode \<times> RTI_TSFM_Mutex \<times> ('k, 'z) ledger_scheme" where
  "RTI_TSFM_Mutex_initialize w =
     (let (ok, w) = draw w in
      if ok then (DDS_RETCODE_OK, Mutex_Free, w) else (DDS_RETCODE_ERROR, Mutex_Uninitialised, w))"

definition RTI_TSFM_Mutex_finalize :: "RTI_TSFM_Mutex \<Rightarrow> fault + retcode \<times> RTI_TSFM_Mutex" where
  "RTI_TSFM_Mutex_finalize self =
     (case self of
        Mutex_Free \<Rightarrow> Inr (DDS_RETCODE_OK, Mutex_Uninitialised)
      | Mutex_Held \<Rightarrow> Inr (DDS_RETCODE_ERROR, Mutex_Held)
      | Mutex_Uninitialised \<Rightarrow> Inl Uninitialised)"

definition RTI_TSFM_Mutex_take :: "tsfm_lib \<Rightarrow> RTI_TSFM_Mutex \<Rightarrow> fault + retcode \<times> RTI_TSFM_Mutex" where
  "RTI_TSFM_Mutex_take lib self =
     (case self of
        Mutex_Free \<Rightarrow> Inr (if take_ok lib then (DDS_RETCODE_OK, Mutex_Held) else (DDS_RETCODE_ERROR, Mutex_Free))
      | Mutex_Held \<Rightarrow> Inl Undefined_Behaviour
      | Mutex_Uninitialised \<Rightarrow> Inl Uninitialised)"

definition RTI_TSFM_Mutex_give :: "RTI_TSFM_Mutex \<Rightarrow> fault + retcode \<times> RTI_TSFM_Mutex" where
  "RTI_TSFM_Mutex_give self =
     (case self of
        Mutex_Held \<Rightarrow> Inr (DDS_RETCODE_OK, Mutex_Free)
      | Mutex_Free \<Rightarrow> Inl Undefined_Behaviour
      | Mutex_Uninitialised \<Rightarrow> Inl Uninitialised)"

section \<open>State and parameters\<close>

record 's RTI_TSFM_Transformation =
  tr_config :: "RTI_TSFM_TransformationConfig option"
  tr_plugin :: addr
  tr_tsupport :: "addr option"
  tr_read_buffer :: 's
  tr_read_buffer_loaned :: bool
  tr_lock :: RTI_TSFM_Mutex

text \<open>
  The functions of the user's plugin get the input sample and change the output sample; a
  created sample is \<open>blank\<close>, and \<open>clear_all_members\<close> is that of DynamicData.
\<close>

record 'd RTI_TSFM_UserTypePlugin =
  serialize_sample :: "'d \<Rightarrow> 'd \<Rightarrow> retcode \<times> 'd"
  deserialize_sample :: "'d \<Rightarrow> 'd \<Rightarrow> retcode \<times> 'd"
  blank :: 'd
  clear_all_members :: "'d \<Rightarrow> 'd"

section \<open>Initialisation\<close>

text \<open>
  An empty type name is filled in, another one must be the name of the type.
\<close>

definition RTI_TSFM_Transformation_create_type_support ::
  "tsfm_lib \<Rightarrow> string \<Rightarrow> string option \<Rightarrow> 'd heap \<Rightarrow>
   fault + retcode \<times> string option \<times> addr option \<times> 'd heap" where
  "RTI_TSFM_Transformation_create_type_support lib type_info_name type_name w =
     (case type_name of
        None \<Rightarrow> Inl Null_Deref
      | Some name \<Rightarrow>
          (let (ok, type_name, w) =
             (if name = [] then
                let (r, s, w) = String_replace lib type_name type_info_name w in (r \<noteq> None, s, w)
              else (name = type_info_name, type_name, w)) in
           if \<not> ok then Inr (DDS_RETCODE_ERROR, type_name, None, w)
           else
             (case alloc TypeSupport_Object w of
                (None, w) \<Rightarrow> Inr (DDS_RETCODE_ERROR, type_name, None, w)
              | (Some ts, w) \<Rightarrow> Inr (DDS_RETCODE_OK, type_name, Some ts, w))))"

text \<open>The loop of \<open>finalize\<close> that deletes the samples of the buffer.\<close>

fun delete_samples ::
  "('s, addr option) seq_ops \<Rightarrow> addr option \<Rightarrow> nat \<Rightarrow> nat \<Rightarrow> 's \<Rightarrow> 'd heap \<Rightarrow> fault + 's \<times> 'd heap" where
  "delete_samples ops tsupport i 0 s w = Inr (s, w)"
| "delete_samples ops tsupport i (Suc n) s w =
     (case seq_get ops s (word_of_nat i) of
        None \<Rightarrow> delete_samples ops tsupport (Suc i) n s w
      | Some data \<Rightarrow>
          bindF (case tsupport of None \<Rightarrow> Inr w | Some _ \<Rightarrow> release data w) (\<lambda>w.
            delete_samples ops tsupport (Suc i) n (seq_put ops s (word_of_nat i) None) w))"

definition RTI_TSFM_Transformation_finalize ::
  "tsfm_lib \<Rightarrow> ('s, addr option) seq_ops \<Rightarrow> 's RTI_TSFM_Transformation \<Rightarrow> 'd heap \<Rightarrow>
   fault + retcode \<times> 's RTI_TSFM_Transformation \<times> 'd heap" where
  "RTI_TSFM_Transformation_finalize lib ops self w =
     bindF (delete_samples ops (tr_tsupport self) 0 (unat (seq_get_length ops (tr_read_buffer self)))
              (tr_read_buffer self) w) (\<lambda>(s, w).
     let (_, s) = seq_set_length ops s 0 in
     bindF (RTI_TSFM_TransformationConfig_delete (tr_config self) w) (\<lambda>w.
     bindF (release_opt (tr_tsupport self) w) (\<lambda>w.
     let (ok, s) = seq_finalize ops s;
         self = self\<lparr>tr_read_buffer := s, tr_config := None, tr_tsupport := None\<rparr> in
     if use_mutex lib
     then bindF (RTI_TSFM_Mutex_finalize (tr_lock self)) (\<lambda>(r, lock).
            Inr (if ok then r else DDS_RETCODE_ERROR, self\<lparr>tr_lock := lock\<rparr>, w))
     else Inr (if ok then DDS_RETCODE_OK else DDS_RETCODE_ERROR, self, w))))"

text \<open>
  The end of \<open>initialize\<close> when it failed: what it made is finalised, a configuration set by the
  caller is kept.
\<close>

definition initialize_failed ::
  "tsfm_lib \<Rightarrow> ('s, addr option) seq_ops \<Rightarrow> bool \<Rightarrow> 's RTI_TSFM_Transformation \<Rightarrow> 'd heap \<Rightarrow>
   fault + retcode \<times> 's RTI_TSFM_Transformation \<times> 'd heap" where
  "initialize_failed lib ops config_initd self w =
     (let config = (if config_initd then None else tr_config self) in
      bindF (RTI_TSFM_Transformation_finalize lib ops
               (if config_initd then self else self\<lparr>tr_config := None\<rparr>) w) (\<lambda>(_, self, w).
        Inr (DDS_RETCODE_ERROR, self\<lparr>tr_config := config\<rparr>, w)))"

text \<open>The rest of the initialisation, once the mutex and the buffer are made.\<close>

definition initialize_configured ::
  "tsfm_lib \<Rightarrow> ('s, addr option) seq_ops \<Rightarrow> 's RTI_TSFM_Transformation \<Rightarrow> string \<Rightarrow>
   rs_properties \<Rightarrow> 'd heap \<Rightarrow> fault + retcode \<times> 's RTI_TSFM_Transformation \<times> 'd heap" where
  "initialize_configured lib ops self output_type properties w =
     (let config_initd = (tr_config self = None) in
      bindF (case tr_config self of
               None \<Rightarrow> RTI_TSFM_TransformationConfig_parse_from_properties_alloc lib properties None w
             | Some c \<Rightarrow> Inr (DDS_RETCODE_OK, Some c, w)) (\<lambda>(r, config, w).
      let self = self\<lparr>tr_config := config\<rparr> in
      if r \<noteq> DDS_RETCODE_OK then initialize_failed lib ops False self w
      else
        (case config of
           None \<Rightarrow> Inl Null_Deref
         | Some c \<Rightarrow>
             bindF (RTI_TSFM_Transformation_create_type_support lib output_type (tc_output_type c) w)
               (\<lambda>(r, type_name, tsupport, w).
                 let self = self\<lparr>tr_config := Some (c\<lparr>tc_output_type := type_name\<rparr>), tr_tsupport := tsupport\<rparr> in
                 if r \<noteq> DDS_RETCODE_OK then initialize_failed lib ops config_initd self w
                 else Inr (DDS_RETCODE_OK, self, w)))))"

definition RTI_TSFM_Transformation_initialize ::
  "tsfm_lib \<Rightarrow> ('s, addr option) seq_ops \<Rightarrow> 's \<Rightarrow> 's RTI_TSFM_Transformation \<Rightarrow> addr \<Rightarrow> string \<Rightarrow>
   rs_properties \<Rightarrow> 'd heap \<Rightarrow> fault + retcode \<times> 's RTI_TSFM_Transformation \<times> 'd heap" where
  "RTI_TSFM_Transformation_initialize lib ops def_read_buffer self plugin output_type properties w =
     (let self = self\<lparr>tr_tsupport := None, tr_read_buffer := def_read_buffer,
            tr_read_buffer_loaned := False, tr_plugin := plugin\<rparr>;
          (r, lock, w) = (if use_mutex lib then RTI_TSFM_Mutex_initialize w
                          else (DDS_RETCODE_OK, tr_lock self, w));
          self = self\<lparr>tr_lock := lock\<rparr> in
      if r \<noteq> DDS_RETCODE_OK then Inr (DDS_RETCODE_ERROR, self, w)
      else
        let (ok, s) = seq_initialize ops (tr_read_buffer self); self = self\<lparr>tr_read_buffer := s\<rparr> in
        if \<not> ok then initialize_failed lib ops False self w
        else initialize_configured lib ops self output_type properties w)"

section \<open>Transforming samples\<close>

text \<open>
  An input is the content of a sample (\<open>None\<close>: a NULL pointer) and the flag \<open>valid_data\<close> of its
  info. The loop creates the missing output samples and runs the user's function on each
  valid input; \<open>initd\<close> counts the samples that were transformed.
\<close>

definition run_user_plugin ::
  "'d RTI_TSFM_UserTypePlugin \<Rightarrow> RTI_TSFM_TransformationKind \<Rightarrow> 'd \<Rightarrow> 'd \<Rightarrow> retcode \<times> 'd" where
  "run_user_plugin up kind =
     (case kind of
        RTI_TSFM_TransformationKind_SERIALIZER \<Rightarrow> serialize_sample up
      | RTI_TSFM_TransformationKind_DESERIALIZER \<Rightarrow> deserialize_sample up)"

text \<open>The output sample at index \<open>i\<close>, created when there is none.\<close>

definition output_sample ::
  "('s, addr option) seq_ops \<Rightarrow> 'd RTI_TSFM_UserTypePlugin \<Rightarrow> addr option \<Rightarrow> nat \<Rightarrow> 's \<Rightarrow> 'd heap \<Rightarrow>
   addr option \<times> 's \<times> 'd heap" where
  "output_sample ops up tsupport i s w =
     (case seq_get ops s (word_of_nat i) of
        Some a \<Rightarrow> (Some a, s, w)
      | None \<Rightarrow>
          (let (p, w) = (if tsupport = None then (None, w) else alloc (Sample_Object (blank up)) w) in
           (p, seq_put ops s (word_of_nat i) p, w)))"

fun transform_samples ::
  "('s, addr option) seq_ops \<Rightarrow> 'd RTI_TSFM_UserTypePlugin \<Rightarrow> RTI_TSFM_TransformationConfig option \<Rightarrow> addr option \<Rightarrow>
   nat \<Rightarrow> ('d option \<times> bool) list \<Rightarrow> 's \<Rightarrow> nat \<Rightarrow> 'd heap \<Rightarrow> fault + bool \<times> 's \<times> nat \<times> 'd heap" where
  "transform_samples ops up config tsupport i [] s initd w = Inr (True, s, initd, w)"
| "transform_samples ops up config tsupport i ((in_sample, valid_data) # ins) s initd w =
     (if \<not> valid_data then transform_samples ops up config tsupport (Suc i) ins s initd w
      else
        let (out_sample, s, w) = output_sample ops up tsupport i s w in
        (case (in_sample, out_sample) of
           (Some d, Some a) \<Rightarrow>
             (case config of
                None \<Rightarrow> Inl Null_Deref
              | Some c \<Rightarrow>
                  (case live w a of
                     Some (Sample_Object out) \<Rightarrow>
                       (let (r, out) = run_user_plugin up (tc_type c) d out;
                            w = w\<lparr>live := (live w)(a \<mapsto> Sample_Object out)\<rparr> in
                        if r \<noteq> DDS_RETCODE_OK then Inr (False, s, initd, w)
                        else transform_samples ops up config tsupport (Suc i) ins s (Suc initd) w)
                   | _ \<Rightarrow> Inl Use_After_Free))
         | _ \<Rightarrow> Inr (False, s, initd, w)))"

text \<open>
  \<open>transform\<close> returns, when it succeeds, the pointers of the buffer and the count. The clean-up
  at its end, for a buffer that is NULL and samples that were transformed, is unreachable:
  samples are transformed only into a buffer.
\<close>

definition RTI_TSFM_Transformation_transform ::
  "('s, addr option) seq_ops \<Rightarrow> 'd RTI_TSFM_UserTypePlugin \<Rightarrow> 's RTI_TSFM_Transformation \<Rightarrow>
   ('d option \<times> bool) list \<Rightarrow> 'd heap \<Rightarrow>
   fault + retcode \<times> 's RTI_TSFM_Transformation \<times> (addr option list \<times> nat) option \<times> 'd heap" where
  "RTI_TSFM_Transformation_transform ops up self ins w =
     (if tr_read_buffer_loaned self then Inr (DDS_RETCODE_ERROR, self, None, w)
      else
        let in_count = word_of_nat (length ins) :: DDS_UnsignedLong;
            read_buffer_max = seq_get_maximum ops (tr_read_buffer self);
            out_samples_len = (if read_buffer_max > in_count then read_buffer_max else in_count);
            (ok, s) = seq_ensure_length ops (tr_read_buffer self) out_samples_len out_samples_len;
            self = self\<lparr>tr_read_buffer := s\<rparr> in
        if \<not> ok then Inr (DDS_RETCODE_ERROR, self, None, w)
        else if seq_buffer ops s = None then Inr (DDS_RETCODE_ERROR, self, None, w)
        else
          bindF (transform_samples ops up (tr_config self) (tr_tsupport self) 0 ins s 0 w)
            (\<lambda>(ok, s, initd, w).
              let self = self\<lparr>tr_read_buffer := s\<rparr> in
              if \<not> ok then Inr (DDS_RETCODE_ERROR, self, None, w)
              else Inr (DDS_RETCODE_OK, self\<lparr>tr_read_buffer_loaned := True\<rparr>,
                        map_option (\<lambda>b. (b, initd)) (seq_buffer ops s), w)))"

text \<open>Clearing a NULL sample is an error code of DynamicData, which is ignored.\<close>

fun clear_samples :: "'d RTI_TSFM_UserTypePlugin \<Rightarrow> nat \<Rightarrow> addr option list \<Rightarrow> 'd heap \<Rightarrow> fault + 'd heap" where
  "clear_samples up 0 out_samples w = Inr w"
| "clear_samples up (Suc n) [] w = Inl Out_Of_Bounds"
| "clear_samples up (Suc n) (None # out_samples) w = clear_samples up n out_samples w"
| "clear_samples up (Suc n) (Some a # out_samples) w =
     (case live w a of
        Some (Sample_Object d) \<Rightarrow>
          clear_samples up n out_samples
            (w\<lparr>live := (live w)(a \<mapsto> Sample_Object (clear_all_members up d))\<rparr>)
      | _ \<Rightarrow> Inl Use_After_Free)"

definition RTI_TSFM_Transformation_return_loan ::
  "'d RTI_TSFM_UserTypePlugin \<Rightarrow> 's RTI_TSFM_Transformation \<Rightarrow> addr option list \<Rightarrow> nat \<Rightarrow> 'd heap \<Rightarrow>
   fault + 's RTI_TSFM_Transformation \<times> 'd heap" where
  "RTI_TSFM_Transformation_return_loan up self sample_lst count w =
     bindF (clear_samples up count sample_lst w) (\<lambda>w.
       Inr (self\<lparr>tr_read_buffer_loaned := False\<rparr>, w))"

definition RTI_TSFM_Transformation_update :: "'s RTI_TSFM_Transformation \<Rightarrow> rs_properties \<Rightarrow> retcode" where
  "RTI_TSFM_Transformation_update transformation properties = DDS_RETCODE_ERROR"

section \<open>The read buffer\<close>

text \<open>
  What the transformation relies on beyond the laws of every sequence: initialising makes it
  empty, \<open>ensure_length\<close> grows the maximum as asked, and the elements it adds are what the
  element's initialiser stores.
\<close>

locale ptr_seq = dds_seq ops valid elems cap
  for ops :: "('s, addr option) seq_ops" and valid :: "'s \<Rightarrow> bool"
    and elems :: "'s \<Rightarrow> addr option list" and cap :: "'s \<Rightarrow> nat" +
  fixes init :: "addr option \<Rightarrow> bool \<times> addr option"
  assumes initialize_ok: "seq_initialize ops s = (True, s') \<Longrightarrow> valid s' \<and> elems s' = [] \<and> cap s' = 0"
    and ensure_cap: "valid s \<Longrightarrow> seq_ensure_length ops s n n = (True, s') \<Longrightarrow> cap s' = max (cap s) (unat n)"
    and ensure_new: "valid s \<Longrightarrow> seq_ensure_length ops s n n = (True, s') \<Longrightarrow>
          cap s \<le> i \<Longrightarrow> i < unat n \<Longrightarrow> elems s' ! i = snd (init x)"
    and buffer_elems: "valid s \<Longrightarrow> length (elems s) = cap s \<Longrightarrow> seq_buffer ops s = Some b \<Longrightarrow> b = elems s"
    and buffer_some: "valid s \<Longrightarrow> 0 < cap s \<Longrightarrow> seq_buffer ops s \<noteq> None"
begin

lemma ensure_grows:
  assumes "valid s" and "length (elems s) = cap s" and "cap s \<le> unat n"
    and "seq_ensure_length ops s n n = (True, s')"
  shows "valid s' \<and> length (elems s') = unat n \<and> cap s' = unat n
    \<and> elems s' = elems s @ replicate (unat n - cap s) (snd (init x))"
proof -
  have v: "valid s'" "length (elems s') = unat n" "take (length (elems s)) (elems s') = elems s"
    using ensure_length_ok [OF assms(1,4)] assms(2,3) by simp_all
  have c: "cap s' = unat n" using ensure_cap [OF assms(1,4)] assms(3) by simp
  have "elems s' = elems s @ replicate (unat n - cap s) (snd (init x))"
  proof (rule nth_equalityI)
    show "length (elems s') = length (elems s @ replicate (unat n - cap s) (snd (init x)))"
      using v assms(2,3) by simp
  next
    fix i assume i: "i < length (elems s')"
    show "elems s' ! i = (elems s @ replicate (unat n - cap s) (snd (init x))) ! i"
    proof (cases "i < cap s")
      case True
      then show ?thesis
        using v(3) assms(2) by (metis nth_append nth_take)
    next
      case False
      then show ?thesis
        using ensure_new [OF assms(1,4), of i x] i v(2) assms(2) by (simp add: nth_append)
    qed
  qed
  with v c show ?thesis by simp
qed

end

lemma lseq_ensure_new:
  assumes "lseq_wf s" and "lseq_resize d s n n = (True, s')"
  shows "lseq_cap s' = max (lseq_cap s) n \<and> (lseq_cap s \<le> i \<and> i < n \<longrightarrow> lseq_elems s' ! i = d)"
  using assms
  by (auto simp: lseq_resize_def lseq_wf_def lseq_cap_def lseq_elems_def nth_append split: if_splits)

interpretation sample_seq: ptr_seq "lseq_ops None" lseq_wf lseq_elems lseq_cap
  RTI_TSFM_DDS_DynamicDataPtr_initialize_w_params
proof (unfold_locales, goal_cases)
  case (1 s s')
  then show ?case by (auto simp: lseq_ops_def empty_lseq_def lseq_wf_def lseq_elems_def lseq_cap_def)
next
  case (2 s n s')
  then show ?case using lseq_ensure_new [of s None "unat n" s'] by (simp add: lseq_ops_def)
next
  case (3 s n s' i x)
  then show ?case
    using lseq_ensure_new [of s None "unat n" s' i]
    by (simp add: lseq_ops_def RTI_TSFM_DDS_DynamicDataPtr_initialize_w_params_def)
next
  case (4 s b)
  then show ?case by (auto simp: lseq_ops_def lseq_elems_def lseq_cap_def lseq_wf_def split: if_splits)
next
  case (5 s)
  then show ?case by (simp add: lseq_ops_def lseq_cap_def)
qed

text \<open>
  The invariant of the buffer: its length is its maximum, and its pointers are NULL or lead
  to distinct live samples.
\<close>

definition sample_buffer ::
  "('s \<Rightarrow> bool) \<Rightarrow> ('s \<Rightarrow> addr option list) \<Rightarrow> 's \<Rightarrow> 'd heap \<Rightarrow> bool" where
  "sample_buffer valid elems s w \<longleftrightarrow> valid s \<and> wf_ledger w
     \<and> (\<forall>i < length (elems s). \<forall>a. elems s ! i = Some a \<longrightarrow> (\<exists>d. live w a = Some (Sample_Object d)))
     \<and> (\<forall>i < length (elems s). \<forall>j < length (elems s). \<forall>a.
          elems s ! i = Some a \<and> elems s ! j = Some a \<longrightarrow> i = j)"

text \<open>Only samples are created or changed between two ledgers.\<close>

definition only_samples :: "'d heap \<Rightarrow> 'd heap \<Rightarrow> bool" where
  "only_samples w w' \<longleftrightarrow> (\<forall>a. live w' a = live w a
     \<or> ((\<exists>d. live w' a = Some (Sample_Object d)) \<and> (live w a = None \<or> (\<exists>d. live w a = Some (Sample_Object d)))))"

lemma only_samples_refl [simp]: "only_samples w w"
  by (simp add: only_samples_def)

lemma only_samples_trans: "only_samples w w' \<Longrightarrow> only_samples w' w'' \<Longrightarrow> only_samples w w''"
  unfolding only_samples_def by (metis option.distinct(1))

context ptr_seq
begin

lemma output_sample_inv:
  assumes "sample_buffer valid elems s w" and "i < length (elems s)"
    and "output_sample ops up tsupport i s w = (p, s', w')"
  shows "sample_buffer valid elems s' w' \<and> only_samples w w' \<and> cap s' = cap s
    \<and> elems s' = (elems s)[i := p]
    \<and> (case p of None \<Rightarrow> True | Some a \<Rightarrow> \<exists>d. live w' a = Some (Sample_Object d))
    \<and> (\<forall>j < length (elems s). \<forall>a. elems s ! j = Some a \<longrightarrow> live w' a = live w a)
    \<and> (tsupport \<noteq> None \<and> sched w = [] \<longrightarrow> p \<noteq> None \<and> sched w' = [])"
proof (cases "elems s ! i")
  case (Some a)
  have "seq_get ops s (word_of_nat i) = Some a"
    using get_elem [of s i] assms(1,2) Some by (simp add: sample_buffer_def)
  then have same: "p = Some a" "s' = s" "w' = w" using assms(3) by (simp_all add: output_sample_def)
  have "(elems s)[i := Some a] = elems s" using Some list_update_id by metis
  moreover have "\<exists>d. live w a = Some (Sample_Object d)"
    using assms(1,2) Some by (simp add: sample_buffer_def)
  ultimately show ?thesis using assms(1) same by simp
next
  case None
  have v: "valid s" and wf: "wf_ledger w" using assms(1) by (simp_all add: sample_buffer_def)
  have get: "seq_get ops s (word_of_nat i) = None" using get_elem [OF v assms(2)] None by simp
  note put = put_elem [OF v assms(2)]
  show ?thesis
  proof (cases "tsupport = None \<or> \<not> alloc_ok w")
    case True
    then have p: "p = None" "s' = seq_put ops s (word_of_nat i) None" "live w' = live w" "next_id w' = next_id w"
        "tsupport = None \<or> sched w \<noteq> []"
      using assms(3) get by (auto simp: output_sample_def alloc_def alloc_ok_def split: if_splits)
    then show ?thesis
      using assms(1) put None wf
      by (simp add: sample_buffer_def only_samples_def wf_ledger_def list_update_same_conv
          list_update_id [of "elems s" i, unfolded None])
  next
    case False
    then have p: "p = Some (next_id w)" "s' = seq_put ops s (word_of_nat i) p"
        "live w' = (live w)(next_id w \<mapsto> Sample_Object (blank up))" "next_id w' = Suc (next_id w)"
        "sched w' = tl (sched w)"
      using assms(3) get by (auto simp: output_sample_def alloc_def acquire_def split: if_splits)
    have fresh: "live w (next_id w) = None" using wf by (simp add: wf_ledger_def)
    have old: "elems s ! j = Some a \<Longrightarrow> a \<noteq> next_id w" if "j < length (elems s)" for j a
      using assms(1) that fresh by (auto simp: sample_buffer_def)
    show ?thesis
      using assms(1,2) put [of p] p wf old fresh
      by (auto simp: sample_buffer_def only_samples_def wf_ledger_def nth_list_update split: if_splits)
  qed
qed

end

text \<open>Writing a sample through its pointer keeps the invariant.\<close>

lemma write_sample_inv:
  assumes "sample_buffer valid elems s w" and "live w a = Some (Sample_Object d)"
  shows "sample_buffer valid elems s (w\<lparr>live := (live w)(a \<mapsto> Sample_Object d')\<rparr>)
    \<and> only_samples w (w\<lparr>live := (live w)(a \<mapsto> Sample_Object d')\<rparr>)"
proof -
  have "a < next_id w"
    using assms by (metis leI option.distinct(1) sample_buffer_def wf_ledger_def)
  with assms show ?thesis by (auto simp: sample_buffer_def only_samples_def wf_ledger_def)
qed

context ptr_seq
begin

lemma transform_step:
  assumes "sample_buffer valid elems s w" and "i < length (elems s)"
  shows "(\<exists>s1 w1. transform_samples ops up (Some c) tsupport i ((d, True) # ins) s initd w = Inr (False, s1, initd, w1)
      \<and> sample_buffer valid elems s1 w1 \<and> only_samples w w1 \<and> length (elems s1) = length (elems s) \<and> cap s1 = cap s
      \<and> (d = None \<or> tsupport = None \<or> sched w \<noteq> []
         \<or> (\<exists>y. fst (run_user_plugin up (tc_type c) (the d) y) \<noteq> DDS_RETCODE_OK)))
    \<or> (\<exists>x a y z s1 w1. d = Some x
      \<and> transform_samples ops up (Some c) tsupport i ((d, True) # ins) s initd w
        = transform_samples ops up (Some c) tsupport (Suc i) ins s1 (Suc initd) w1
      \<and> sample_buffer valid elems s1 w1 \<and> only_samples w w1 \<and> elems s1 = (elems s)[i := Some a] \<and> cap s1 = cap s
      \<and> run_user_plugin up (tc_type c) x y = (DDS_RETCODE_OK, z) \<and> live w1 a = Some (Sample_Object z)
      \<and> (\<forall>j < length (elems s). \<forall>b. j \<noteq> i \<and> elems s ! j = Some b \<longrightarrow> live w1 b = live w b)
      \<and> (tsupport \<noteq> None \<and> sched w = [] \<longrightarrow> sched w1 = []))"
proof -
  obtain p s1 w1 where o: "output_sample ops up tsupport i s w = (p, s1, w1)" by (metis prod_cases3)
  note out = output_sample_inv [OF assms o]
  show ?thesis
  proof (cases "d = None \<or> p = None")
    case True
    then show ?thesis using o out by (cases d; cases p) auto
  next
    case False
    then obtain x a where xa: "d = Some x" "p = Some a" by auto
    with out obtain y where y: "live w1 a = Some (Sample_Object y)" by auto
    obtain r z where run: "run_user_plugin up (tc_type c) x y = (r, z)"
      by (cases "run_user_plugin up (tc_type c) x y")
    let ?w = "w1\<lparr>live := (live w1)(a \<mapsto> Sample_Object z)\<rparr>"
    have w: "sample_buffer valid elems s1 ?w" "only_samples w1 ?w"
      using write_sample_inv [OF _ y, of valid elems s1 z] out by simp_all
    then have trans: "only_samples w ?w" using out only_samples_trans by blast
    have eq: "transform_samples ops up (Some c) tsupport i ((d, True) # ins) s initd w =
        (if r \<noteq> DDS_RETCODE_OK then Inr (False, s1, initd, ?w)
         else transform_samples ops up (Some c) tsupport (Suc i) ins s1 (Suc initd) ?w)"
      using o xa y run by simp
    have other: "b \<noteq> a" if "j < length (elems s)" "j \<noteq> i" "elems s ! j = Some b" for j b
      using out xa(2) that assms(2) unfolding sample_buffer_def by (metis length_list_update nth_list_update)
    show ?thesis
    proof (cases "r = DDS_RETCODE_OK")
      case True
      then show ?thesis
        using eq w trans out xa run other by (intro disjI2 exI [of _ x] exI [of _ a] exI [of _ y]
            exI [of _ z] exI [of _ s1] exI [of _ ?w]) auto
    next
      case False
      then have "fst (run_user_plugin up (tc_type c) (the d) y) \<noteq> DDS_RETCODE_OK" using xa(1) run by simp
      then show ?thesis using False eq w(1) trans out by auto
    qed
  qed
qed

lemma transform_samples_safe:
  assumes "sample_buffer valid elems s w" and "i + length ins \<le> length (elems s)"
  shows "\<exists>ok s' n w'. transform_samples ops up (Some c) tsupport i ins s initd w = Inr (ok, s', n, w')
    \<and> sample_buffer valid elems s' w' \<and> only_samples w w'
    \<and> length (elems s') = length (elems s) \<and> cap s' = cap s"
  using assms
proof (induction ins arbitrary: i s initd w)
  case Nil
  then show ?case by auto
next
  case (Cons inp ins)
  obtain d v where inp: "inp = (d, v)" by (cases inp)
  have i: "i < length (elems s)" and rest: "Suc i + length ins \<le> length (elems s)"
    using Cons.prems(2) by simp_all
  show ?case
  proof (cases v)
    case False
    then show ?thesis using Cons.IH [OF Cons.prems(1) rest] inp by simp
  next
    case True
    from transform_step [OF Cons.prems(1) i, of up c tsupport d ins initd] show ?thesis
    proof (elim disjE exE conjE, goal_cases)
      case (1 s1 w1)
      then show ?case using inp True by auto
    next
      case (2 s1 w1)
      then show ?case using inp True by auto
    next
      case (3 s1 w1)
      then show ?case using inp True by auto
    next
      case (4 s1 w1 y)
      then show ?case using inp True by auto
    next
      case (5 x a y z s1 w1)
      then show ?case
        using Cons.IH [of s1 w1 "Suc i" "Suc initd"] rest inp True only_samples_trans [of w w1] by fastforce
    qed
  qed
qed

end

text \<open>
  The indices of the valid inputs, counted from \<open>i\<close>, and a predicate that holds for each of
  them and its content.
\<close>

fun valid_indices :: "nat \<Rightarrow> ('d option \<times> bool) list \<Rightarrow> nat set" where
  "valid_indices i [] = {}"
| "valid_indices i ((d, v) # ins) = (if v then {i} else {}) \<union> valid_indices (Suc i) ins"

fun all_valid :: "(nat \<Rightarrow> 'd option \<Rightarrow> bool) \<Rightarrow> nat \<Rightarrow> ('d option \<times> bool) list \<Rightarrow> bool" where
  "all_valid P i [] = True"
| "all_valid P i ((d, v) # ins) = ((v \<longrightarrow> P i d) \<and> all_valid P (Suc i) ins)"

lemma valid_indices_ge: "j \<in> valid_indices i ins \<Longrightarrow> i \<le> j"
  by (induction i ins rule: valid_indices.induct) (auto split: if_splits)

lemma valid_indices_iff: "j \<in> valid_indices i ins \<longleftrightarrow> (\<exists>k < length ins. j = i + k \<and> snd (ins ! k))"
  by (induction i ins rule: valid_indices.induct) (auto simp: less_Suc_eq_0_disj)

lemma all_valid_iff: "all_valid P i ins \<longleftrightarrow> (\<forall>k < length ins. snd (ins ! k) \<longrightarrow> P (i + k) (fst (ins ! k)))"
  by (induction P i ins rule: all_valid.induct) (auto simp: less_Suc_eq_0_disj)

lemma card_valid_indices: "finite (valid_indices i ins) \<and> card (valid_indices i ins) = length (filter snd ins)"
proof (induction i ins rule: valid_indices.induct)
  case (2 i d v ins)
  have "i \<notin> valid_indices (Suc i) ins" using valid_indices_ge by fastforce
  with 2 show ?case by simp
qed simp

context ptr_seq
begin

lemma transform_samples_correct:
  assumes "sample_buffer valid elems s w" and "i + length ins \<le> length (elems s)"
    and "tsupport \<noteq> None" and "sched w = []"
    and "all_valid (\<lambda>_ d. \<exists>x. d = Some x \<and> (\<forall>y. run_user_plugin up (tc_type c) x y = (DDS_RETCODE_OK, g x))) i ins"
  shows "\<exists>s' w'. transform_samples ops up (Some c) tsupport i ins s initd w
        = Inr (True, s', initd + card (valid_indices i ins), w')
    \<and> sample_buffer valid elems s' w' \<and> length (elems s') = length (elems s) \<and> cap s' = cap s \<and> sched w' = []
    \<and> all_valid (\<lambda>j d. \<exists>a. elems s' ! j = Some a \<and> live w' a = Some (Sample_Object (g (the d)))) i ins
    \<and> (\<forall>j < length (elems s). j \<notin> valid_indices i ins \<longrightarrow>
        elems s' ! j = elems s ! j \<and> (\<forall>b. elems s ! j = Some b \<longrightarrow> live w' b = live w b))"
  using assms
proof (induction ins arbitrary: i s initd w)
  case Nil
  then show ?case by auto
next
  case (Cons inp ins)
  obtain d v where inp: "inp = (d, v)" by (cases inp)
  have i: "i < length (elems s)" and rest: "Suc i + length ins \<le> length (elems s)"
    using Cons.prems(2) by simp_all
  have good: "all_valid (\<lambda>_ d. \<exists>x. d = Some x
      \<and> (\<forall>y. run_user_plugin up (tc_type c) x y = (DDS_RETCODE_OK, g x))) (Suc i) ins"
    using Cons.prems(5) inp by simp
  have fin: "finite (valid_indices (Suc i) ins)" "i \<notin> valid_indices (Suc i) ins"
    using card_valid_indices valid_indices_ge by fastforce+
  show ?case
  proof (cases v)
    case False
    then show ?thesis
      using Cons.IH [OF Cons.prems(1) rest Cons.prems(3,4) good, of initd] inp by simp
  next
    case True
    with Cons.prems(5) inp obtain x where x: "d = Some x"
      "\<And>y. run_user_plugin up (tc_type c) x y = (DDS_RETCODE_OK, g x)" by auto
    then obtain a y z s1 w1 where
      eq: "transform_samples ops up (Some c) tsupport i ((d, True) # ins) s initd w
        = transform_samples ops up (Some c) tsupport (Suc i) ins s1 (Suc initd) w1"
      and inv: "sample_buffer valid elems s1 w1" and s1: "elems s1 = (elems s)[i := Some a]" "cap s1 = cap s"
      and z: "run_user_plugin up (tc_type c) x y = (DDS_RETCODE_OK, z)" "live w1 a = Some (Sample_Object z)"
      and same: "\<forall>j < length (elems s). \<forall>b. j \<noteq> i \<and> elems s ! j = Some b \<longrightarrow> live w1 b = live w b"
      and sch: "sched w1 = []"
      using transform_step [OF Cons.prems(1) i, of up c tsupport d ins initd] Cons.prems(3,4)
      by auto
    have z': "z = g x" using x(2) z(1) by simp
    have len: "Suc i + length ins \<le> length (elems s1)" using rest s1 by simp
    from Cons.IH [OF inv len Cons.prems(3) sch good, of "Suc initd"] obtain s' w' where
      ih: "transform_samples ops up (Some c) tsupport (Suc i) ins s1 (Suc initd) w1
          = Inr (True, s', Suc initd + card (valid_indices (Suc i) ins), w')"
        "sample_buffer valid elems s' w'" "length (elems s') = length (elems s1)" "cap s' = cap s1" "sched w' = []"
        "all_valid (\<lambda>j d. \<exists>a. elems s' ! j = Some a \<and> live w' a = Some (Sample_Object (g (the d)))) (Suc i) ins"
      and frame: "\<forall>j < length (elems s1). j \<notin> valid_indices (Suc i) ins \<longrightarrow>
        elems s' ! j = elems s1 ! j \<and> (\<forall>b. elems s1 ! j = Some b \<longrightarrow> live w' b = live w1 b)"
      by blast
    have "elems s' ! i = Some a \<and> live w' a = Some (Sample_Object (g x))"
      using frame fin(2) i s1(1) z(2) z' by simp
    moreover have "elems s' ! j = elems s ! j \<and> (\<forall>b. elems s ! j = Some b \<longrightarrow> live w' b = live w b)"
      if "j < length (elems s)" "j \<notin> valid_indices i (inp # ins)" for j
      using that frame same s1(1) inp True by auto
    ultimately show ?thesis
      using ih eq inp True fin s1 x(1) by (intro exI [of _ s'] exI [of _ w']) simp
  qed
qed

end

section \<open>A call of transform\<close>

text \<open>The part of the state that \<open>transform\<close> and \<open>return_loan\<close> keep.\<close>

definition transformation_inv ::
  "('s \<Rightarrow> bool) \<Rightarrow> ('s \<Rightarrow> addr option list) \<Rightarrow> ('s \<Rightarrow> nat) \<Rightarrow> 's RTI_TSFM_Transformation \<Rightarrow> 'd heap \<Rightarrow> bool" where
  "transformation_inv valid elems cap self w \<longleftrightarrow>
     sample_buffer valid elems (tr_read_buffer self) w
     \<and> length (elems (tr_read_buffer self)) = cap (tr_read_buffer self)"

context ptr_seq
begin

text \<open>The buffer after \<open>ensure_length\<close>: grown to hold the inputs, its content kept.\<close>

lemma ensure_buffer:
  assumes "sample_buffer valid elems s w" and "length (elems s) = cap s" and "n < 2 ^ 31"
    and "snd (init None) = None"
    and "seq_ensure_length ops s
          (if seq_get_maximum ops s > word_of_nat n then seq_get_maximum ops s else word_of_nat n)
          (if seq_get_maximum ops s > word_of_nat n then seq_get_maximum ops s else word_of_nat n) = (True, s')"
  shows "sample_buffer valid elems s' w \<and> length (elems s') = cap s' \<and> cap s' = max (cap s) n
    \<and> elems s' = elems s @ replicate (max (cap s) n - cap s) None"
proof -
  let ?len = "if seq_get_maximum ops s > word_of_nat n then seq_get_maximum ops s else word_of_nat n :: DDS_Long"
  have v: "valid s" using assms(1) by (simp add: sample_buffer_def)
  have "unat (seq_get_maximum ops s) = cap s" "unat (word_of_nat n :: DDS_Long) = n"
    using get_maximum [OF v] cap_bound [OF v] assms(3) by (simp_all add: unat_of_nat)
  then have len: "unat ?len = max (cap s) n" by (auto simp: word_less_nat_alt)
  have "valid s' \<and> length (elems s') = max (cap s) n \<and> cap s' = max (cap s) n
    \<and> elems s' = elems s @ replicate (max (cap s) n - cap s) (snd (init None))"
    using ensure_grows [OF v assms(2) _ assms(5), of None] len assms(2) by simp
  moreover have "length (elems s) = cap s" by fact
  ultimately show ?thesis
    using assms(1,4) by (auto simp: sample_buffer_def nth_append split: if_splits)
qed

lemma transform_ok_steps:
  assumes "transformation_inv valid elems cap self w" and "\<not> tr_read_buffer_loaned self"
    and "length ins < 2 ^ 31" and "snd (init None) = None"
    and "seq_ensure_length ops (tr_read_buffer self) n n = (ok, s)"
    and "n = (if seq_get_maximum ops (tr_read_buffer self) > word_of_nat (length ins)
              then seq_get_maximum ops (tr_read_buffer self) else word_of_nat (length ins))"
  shows "RTI_TSFM_Transformation_transform ops up self ins w =
    (if \<not> ok \<or> seq_buffer ops s = None then Inr (DDS_RETCODE_ERROR, self\<lparr>tr_read_buffer := s\<rparr>, None, w)
     else bindF (transform_samples ops up (tr_config self) (tr_tsupport self) 0 ins s 0 w)
            (\<lambda>(ok, s, initd, w).
              if \<not> ok then Inr (DDS_RETCODE_ERROR, self\<lparr>tr_read_buffer := s\<rparr>, None, w)
              else Inr (DDS_RETCODE_OK, self\<lparr>tr_read_buffer := s, tr_read_buffer_loaned := True\<rparr>,
                        map_option (\<lambda>b. (b, initd)) (seq_buffer ops s), w)))
    \<and> (ok \<longrightarrow> sample_buffer valid elems s w \<and> length (elems s) = cap s
         \<and> cap s = max (cap (tr_read_buffer self)) (length ins)
         \<and> elems s = elems (tr_read_buffer self)
             @ replicate (max (cap (tr_read_buffer self)) (length ins) - cap (tr_read_buffer self)) None)"
proof -
  have "ok \<longrightarrow> sample_buffer valid elems s w \<and> length (elems s) = cap s
         \<and> cap s = max (cap (tr_read_buffer self)) (length ins)
         \<and> elems s = elems (tr_read_buffer self)
             @ replicate (max (cap (tr_read_buffer self)) (length ins) - cap (tr_read_buffer self)) None"
    using ensure_buffer [of "tr_read_buffer self" w "length ins" s] assms
    by (auto simp: transformation_inv_def)
  moreover have "RTI_TSFM_Transformation_transform ops up self ins w =
    (if \<not> ok \<or> seq_buffer ops s = None then Inr (DDS_RETCODE_ERROR, self\<lparr>tr_read_buffer := s\<rparr>, None, w)
     else bindF (transform_samples ops up (tr_config self) (tr_tsupport self) 0 ins s 0 w)
            (\<lambda>(ok, s, initd, w).
              if \<not> ok then Inr (DDS_RETCODE_ERROR, self\<lparr>tr_read_buffer := s\<rparr>, None, w)
              else Inr (DDS_RETCODE_OK, self\<lparr>tr_read_buffer := s, tr_read_buffer_loaned := True\<rparr>,
                        map_option (\<lambda>b. (b, initd)) (seq_buffer ops s), w)))"
    using assms(2,5) unfolding RTI_TSFM_Transformation_transform_def Let_def assms(6) [symmetric]
    by (auto cong: if_cong)
  ultimately show ?thesis by blast
qed

end

lemma transform_samples_count:
  "transform_samples ops up config tsupport i ins s initd w = Inr (True, s', n, w') \<Longrightarrow>
   n = initd + length (filter snd ins)"
proof (induction ins arbitrary: i s initd w)
  case (Cons inp ins)
  then show ?case
    by (cases inp) (fastforce simp: Let_def split: if_splits prod.splits option.splits tsfm_kind.splits)
qed simp

section \<open>Properties of transform and return_loan\<close>

text \<open>
  C33. Safety of \<open>transform\<close>: on a transformation that keeps its invariant and has a
  configuration, whatever allocations and user functions fail, the call returns without a
  fault, keeps the invariant, creates and changes nothing but samples, and lends the buffer
  exactly when it returns OK; while the buffer is on loan it refuses and changes nothing.
\<close>

theorem transform_safe:
  assumes "ptr_seq ops valid elems cap init" and "snd (init None) = None"
    and "transformation_inv valid elems cap self w" and "tr_config self \<noteq> None" and "length ins < 2 ^ 31"
    and "\<And>s. seq_ensure_length ops (tr_read_buffer self) n n = (False, s) \<Longrightarrow> s = tr_read_buffer self"
    and "n = (if seq_get_maximum ops (tr_read_buffer self) > word_of_nat (length ins)
              then seq_get_maximum ops (tr_read_buffer self) else word_of_nat (length ins))"
  shows "\<exists>r self' out w'. RTI_TSFM_Transformation_transform ops up self ins w = Inr (r, self', out, w')
    \<and> transformation_inv valid elems cap self' w' \<and> only_samples w w'
    \<and> tr_config self' = tr_config self \<and> tr_tsupport self' = tr_tsupport self
    \<and> (if tr_read_buffer_loaned self then self' = self \<and> w' = w \<and> r \<noteq> DDS_RETCODE_OK
       else (tr_read_buffer_loaned self' \<longleftrightarrow> r = DDS_RETCODE_OK))"
proof (cases "tr_read_buffer_loaned self")
  case True
  then show ?thesis using assms(3) by (simp add: RTI_TSFM_Transformation_transform_def)
next
  case False
  obtain ok s where e: "seq_ensure_length ops (tr_read_buffer self) n n = (ok, s)" by fastforce
  note steps = ptr_seq.transform_ok_steps [OF assms(1,3) False assms(5,2) e assms(7), of up]
  obtain c where c: "tr_config self = Some c" using assms(4) by blast
  show ?thesis
  proof (cases "ok \<and> seq_buffer ops s \<noteq> None")
    case True
    then have s: "sample_buffer valid elems s w" "length (elems s) = cap s"
        and "cap s = max (cap (tr_read_buffer self)) (length ins)"
      using steps by blast+
    then have len: "0 + length ins \<le> length (elems s)" by simp
    from ptr_seq.transform_samples_safe [OF assms(1) s(1) len, of up c "tr_tsupport self" 0]
    obtain ok' s' m w' where
      t: "transform_samples ops up (Some c) (tr_tsupport self) 0 ins s 0 w = Inr (ok', s', m, w')"
        "sample_buffer valid elems s' w'" "only_samples w w'" "length (elems s') = cap s'"
      using s(2) by auto
    then show ?thesis
      using True steps False c by (cases ok') (auto simp: transformation_inv_def)
  next
    case no: False
    then have "RTI_TSFM_Transformation_transform ops up self ins w
        = Inr (DDS_RETCODE_ERROR, self\<lparr>tr_read_buffer := s\<rparr>, None, w)" using steps by auto
    moreover have "transformation_inv valid elems cap (self\<lparr>tr_read_buffer := s\<rparr>) w"
      using steps assms(3,6) e by (cases ok) (auto simp: transformation_inv_def)
    ultimately show ?thesis using False by simp
  qed
qed

text \<open>
  C32. What \<open>transform\<close> computes: when memory suffices and the user's function maps every valid
  input \<open>x\<close> to \<open>g x\<close>, the call lends out a buffer that holds, at the index of every valid
  input, a sample with content \<open>g x\<close>, and counts the valid inputs.
\<close>

theorem transform_correct:
  assumes "ptr_seq ops valid elems cap init" and "snd (init None) = None"
    and "transformation_inv valid elems cap self w" and "\<not> tr_read_buffer_loaned self"
    and "tr_config self = Some c" and "tr_tsupport self \<noteq> None" and "sched w = []"
    and "ins \<noteq> []" and "length ins < 2 ^ 31"
    and "\<forall>k < length ins. snd (ins ! k) \<longrightarrow> (\<exists>x. fst (ins ! k) = Some x
           \<and> (\<forall>y. run_user_plugin up (tc_type c) x y = (DDS_RETCODE_OK, g x)))"
    and "n = (if seq_get_maximum ops (tr_read_buffer self) > word_of_nat (length ins)
              then seq_get_maximum ops (tr_read_buffer self) else word_of_nat (length ins))"
    and "fst (seq_ensure_length ops (tr_read_buffer self) n n)"
  shows "\<exists>self' out w'. RTI_TSFM_Transformation_transform ops up self ins w
        = Inr (DDS_RETCODE_OK, self', Some (out, length (filter snd ins)), w')
    \<and> tr_read_buffer_loaned self' \<and> transformation_inv valid elems cap self' w'
    \<and> out = elems (tr_read_buffer self') \<and> length ins \<le> length out
    \<and> (\<forall>k < length ins. snd (ins ! k) \<longrightarrow>
        (\<exists>a. out ! k = Some a \<and> live w' a = Some (Sample_Object (g (the (fst (ins ! k)))))))"
proof -
  obtain s where e: "seq_ensure_length ops (tr_read_buffer self) n n = (True, s)"
    using assms(12) by (metis prod.collapse)
  note steps = ptr_seq.transform_ok_steps [OF assms(1,3,4) assms(9,2) e assms(11), of up]
  then have s: "sample_buffer valid elems s w" "length (elems s) = cap s"
      and "cap s = max (cap (tr_read_buffer self)) (length ins)"
    by blast+
  then have len: "0 + length ins \<le> length (elems s)" by simp
  have good: "all_valid (\<lambda>_ d. \<exists>x. d = Some x
      \<and> (\<forall>y. run_user_plugin up (tc_type c) x y = (DDS_RETCODE_OK, g x))) 0 ins"
    using assms(10) by (simp add: all_valid_iff)
  from ptr_seq.transform_samples_correct [OF assms(1) s(1) len assms(6,7) good, of 0]
  obtain s' w' where t: "transform_samples ops up (Some c) (tr_tsupport self) 0 ins s 0 w
        = Inr (True, s', length (filter snd ins), w')"
      "sample_buffer valid elems s' w'" "length (elems s') = cap s'" "cap s' = cap s"
      "all_valid (\<lambda>j d. \<exists>a. elems s' ! j = Some a \<and> live w' a = Some (Sample_Object (g (the d)))) 0 ins"
    using s(2) card_valid_indices [of 0 ins] by auto
  have pos: "0 < cap s" "0 < cap s'" using assms(8) s(2) len t(4) by (cases ins; simp)+
  have v: "valid s" "valid s'" using s(1) t(2) by (simp_all add: sample_buffer_def)
  have buf: "seq_buffer ops s \<noteq> None" "seq_buffer ops s' = Some (elems s')"
    using ptr_seq.buffer_some [OF assms(1) v(1) pos(1)] ptr_seq.buffer_some [OF assms(1) v(2) pos(2)]
      ptr_seq.buffer_elems [OF assms(1) v(2) t(3)] by auto
  show ?thesis
    using steps buf t s(2) len assms(5) by (simp add: transformation_inv_def all_valid_iff)
qed

text \<open>
  The count does not tell where the outputs are. When an input before the last valid one
  is invalid, the output of that last one lies at or beyond the count that \<open>transform\<close>
  returns, so a reader of the first \<open>count\<close> samples misses it.
\<close>

theorem transform_count_misses_last:
  assumes "k < length ins" and "snd (ins ! k)" and "\<forall>m < length ins. k < m \<longrightarrow> \<not> snd (ins ! m)"
    and "j < k" and "\<not> snd (ins ! j)"
    and "RTI_TSFM_Transformation_transform ops up self ins w = Inr (DDS_RETCODE_OK, self', Some (out, count), w')"
  shows "count \<le> k"
proof -
  have "count = length (filter snd ins)"
    using assms(6)
    by (auto simp: RTI_TSFM_Transformation_transform_def Let_def bindF_eq_Inr
        dest: transform_samples_count split: if_splits prod.splits)
  also have "\<dots> = card (valid_indices 0 ins)" using card_valid_indices by metis
  also have "\<dots> \<le> card ({..k} - {j})"
  proof (rule card_mono)
    show "valid_indices 0 ins \<subseteq> {..k} - {j}"
      using assms(3,5) by (auto simp: valid_indices_iff not_less [symmetric])
  qed simp
  also have "\<dots> = k" using assms(4) by simp
  finally show ?thesis .
qed

text \<open>The content of a sample after it was cleared.\<close>

definition cleared :: "'d RTI_TSFM_UserTypePlugin \<Rightarrow> 'd tsfm_kind \<Rightarrow> 'd tsfm_kind" where
  "cleared up k = (case k of Sample_Object d \<Rightarrow> Sample_Object (clear_all_members up d) | _ \<Rightarrow> k)"

lemma clear_samples_ok:
  assumes "n \<le> length xs" and "distinct (filter (\<lambda>p. p \<noteq> None) xs)"
    and "\<forall>a. Some a \<in> set xs \<longrightarrow> (\<exists>d. live w a = Some (Sample_Object d))"
  shows "\<exists>w'. clear_samples up n xs w = Inr w' \<and> next_id w' = next_id w
    \<and> (\<forall>a. live w' a = (if Some a \<in> set (take n xs) then map_option (cleared up) (live w a) else live w a))"
  using assms
proof (induction up n xs w rule: clear_samples.induct)
  case (4 up n a xs w)
  then obtain d where d: "live w a = Some (Sample_Object d)" by auto
  let ?w = "w\<lparr>live := (live w)(a \<mapsto> Sample_Object (clear_all_members up d))\<rparr>"
  have notin: "Some a \<notin> set xs" using 4(3) by auto
  have "\<forall>b. Some b \<in> set xs \<longrightarrow> (\<exists>d. live ?w b = Some (Sample_Object d))" using 4(4) by auto
  from 4(1) [OF d refl _ _ this] 4(2,3) obtain w' where
    "clear_samples up n xs ?w = Inr w'" "next_id w' = next_id w"
    "\<forall>b. live w' b = (if Some b \<in> set (take n xs) then map_option (cleared up) (live ?w b) else live ?w b)"
    by auto
  with d notin show ?case
    by (auto simp: cleared_def dest: in_set_takeD)
qed auto

lemma sample_buffer_distinct:
  assumes "sample_buffer valid elems s w"
  shows "distinct (filter (\<lambda>p. p \<noteq> None) (elems s))"
proof -
  have "distinct (filter (\<lambda>p. p \<noteq> None) xs)"
    if "\<forall>i < length xs. \<forall>j < length xs. \<forall>a. xs ! i = Some a \<and> xs ! j = Some a \<longrightarrow> i = j"
    for xs :: "addr option list"
    using that
  proof (induction xs)
    case (Cons x xs)
    have "\<forall>i < length xs. \<forall>j < length xs. \<forall>a. xs ! i = Some a \<and> xs ! j = Some a \<longrightarrow> i = j"
      using Cons.prems by (metis Suc_less_eq length_Cons nat.inject nth_Cons_Suc)
    moreover have "x \<noteq> None \<Longrightarrow> x \<notin> set xs"
      using Cons.prems by (auto simp: in_set_conv_nth) (metis Suc_less_eq length_Cons nat.distinct(1)
          nth_Cons_0 nth_Cons_Suc zero_less_Suc)
    ultimately show ?case using Cons.IH by auto
  qed simp
  with assms show ?thesis by (simp add: sample_buffer_def)
qed

text \<open>
  Returning the loan ends it without a fault: the first \<open>count\<close> output samples are
  cleared, nothing else changes, and the transformation keeps its invariant, so that it can
  transform again.
\<close>

theorem return_loan_ends_loan:
  assumes "transformation_inv valid elems cap self w"
    and "out = elems (tr_read_buffer self)" and "count \<le> length out"
  shows "\<exists>w'. RTI_TSFM_Transformation_return_loan up self out count w
        = Inr (self\<lparr>tr_read_buffer_loaned := False\<rparr>, w')
    \<and> transformation_inv valid elems cap (self\<lparr>tr_read_buffer_loaned := False\<rparr>) w'
    \<and> (\<forall>a. live w' a = (if Some a \<in> set (take count out) then map_option (cleared up) (live w a) else live w a))"
proof -
  have buf: "sample_buffer valid elems (tr_read_buffer self) w"
    using assms(1) by (simp add: transformation_inv_def)
  then have live: "\<forall>a. Some a \<in> set out \<longrightarrow> (\<exists>d. live w a = Some (Sample_Object d))"
    unfolding sample_buffer_def assms(2) by (metis in_set_conv_nth)
  obtain w' where w': "clear_samples up count out w = Inr w'" "next_id w' = next_id w"
    "\<forall>a. live w' a = (if Some a \<in> set (take count out) then map_option (cleared up) (live w a) else live w a)"
    using clear_samples_ok [OF assms(3) _ live, of up] sample_buffer_distinct [OF buf] assms(2) by auto
  have "sample_buffer valid elems (tr_read_buffer self) w'"
    using buf w'(2,3) by (fastforce simp: sample_buffer_def wf_ledger_def cleared_def)
  with w' assms(1) show ?thesis
    by (simp add: RTI_TSFM_Transformation_return_loan_def transformation_inv_def)
qed

section \<open>Initialising and finalising\<close>

context ptr_seq
begin

lemma delete_samples_ok:
  assumes "sample_buffer valid elems s w" and "i + n = length (elems s)"
  shows "\<exists>s' w'. delete_samples ops (Some ts) i n s w = Inr (s', w') \<and> next_id w' = next_id w
    \<and> (\<forall>a. live w' a = (if \<exists>j \<ge> i. j < length (elems s) \<and> elems s ! j = Some a then None else live w a))"
  using assms
proof (induction n arbitrary: i s w)
  case 0
  then show ?case by auto
next
  case (Suc n)
  have v: "valid s" and i: "i < length (elems s)" using Suc.prems by (simp_all add: sample_buffer_def)
  have get: "seq_get ops s (word_of_nat i) = elems s ! i" using get_elem [OF v i] .
  show ?case
  proof (cases "elems s ! i")
    case None
    have "(\<exists>j \<ge> Suc i. j < length (elems s) \<and> elems s ! j = Some a)
        \<longleftrightarrow> (\<exists>j \<ge> i. j < length (elems s) \<and> elems s ! j = Some a)" for a
      using None by (metis Suc_leD le_antisym not_less_eq_eq option.distinct(1))
    then show ?thesis using Suc.IH [OF Suc.prems(1), of "Suc i"] Suc.prems(2) get None by simp
  next
    case (Some a)
    obtain d where d: "live w a = Some (Sample_Object d)"
      using Suc.prems(1) i Some unfolding sample_buffer_def by blast
    let ?s = "seq_put ops s (word_of_nat i) None" and ?w = "w\<lparr>live := (live w)(a := None)\<rparr>"
    have el: "elems ?s = (elems s)[i := None]" and vs: "valid ?s" using put_elem [OF v i] by simp_all
    have other: "elems s ! j = Some b \<Longrightarrow> b \<noteq> a" if "j < length (elems s)" "j \<noteq> i" for j b
      using Suc.prems(1) that i Some unfolding sample_buffer_def by blast
    have upd: "elems ?s ! j = (if j = i then None else elems s ! j)" for j
      using i by (simp add: el)
    have same: "length (elems ?s) = length (elems s)" by (simp add: el)
    have inv: "sample_buffer valid elems ?s ?w"
      using Suc.prems(1) other vs unfolding sample_buffer_def wf_ledger_def
      by (auto simp: upd same split: if_splits)
    have len: "Suc i + n = length (elems ?s)" using Suc.prems(2) el by simp
    from Suc.IH [OF inv len] obtain s' w' where
      ih: "delete_samples ops (Some ts) (Suc i) n ?s ?w = Inr (s', w')" "next_id w' = next_id w"
        "\<forall>b. live w' b = (if \<exists>j \<ge> Suc i. j < length (elems ?s) \<and> elems ?s ! j = Some b then None else live ?w b)"
      by auto
    have ex: "(\<exists>j \<ge> i. j < length (elems s) \<and> elems s ! j = Some b)
        \<longleftrightarrow> b = a \<or> (\<exists>j \<ge> Suc i. j < length (elems ?s) \<and> elems ?s ! j = Some b)"
      (is "?l \<longleftrightarrow> ?r") for b
    proof
      assume ?l then show ?r using Some by (metis le_antisym not_less_eq_eq option.inject same upd)
    next
      assume ?r then show ?l using Some i by (metis Suc_leD le_refl option.distinct(1) same upd)
    qed
    have "live w' b = (if \<exists>j \<ge> i. j < length (elems s) \<and> elems s ! j = Some b then None else live w b)" for b
      using ih(3) unfolding ex by auto
    then show ?thesis
      using ih(1,2) get Some d by (simp add: release_def)
  qed
qed

lemma finalize_empty:
  assumes "valid (tr_read_buffer self)" and "elems (tr_read_buffer self) = []"
    and "use_mutex lib \<Longrightarrow> tr_lock self = Mutex_Free"
    and "bindF (RTI_TSFM_TransformationConfig_delete (tr_config self) w) (release_opt (tr_tsupport self)) = Inr w'"
  shows "\<exists>r self'. RTI_TSFM_Transformation_finalize lib ops self w = Inr (r, self', w')"
proof -
  obtain b s2 where s2: "seq_set_length ops (tr_read_buffer self) 0 = (b, s2)" by fastforce
  obtain ok s3 where s3: "seq_finalize ops s2 = (ok, s3)" by fastforce
  obtain x where "RTI_TSFM_TransformationConfig_delete (tr_config self) w = Inr x"
    "release_opt (tr_tsupport self) x = Inr w'"
    using assms(4) by (auto simp: bindF_eq_Inr)
  then show ?thesis
    using s2 s3 assms(2,3) unat_get_length [OF assms(1)]
    by (cases "use_mutex lib")
      (simp_all add: RTI_TSFM_Transformation_finalize_def RTI_TSFM_Mutex_finalize_def Let_def)
qed

end

text \<open>
  Finalising frees exactly what the transformation owns: every sample of the buffer, the
  configuration and the type support, each once; no other resource is touched.
\<close>

theorem finalize_frees_owned:
  assumes "ptr_seq ops valid elems cap init" and "transformation_inv valid elems cap self w"
    and "tr_config self = Some c" and "live w (tc_addr c) = Some Config_Block"
    and "tr_tsupport self = Some ts" and "live w ts = Some TypeSupport_Object"
    and "use_mutex lib \<longrightarrow> tr_lock self = Mutex_Free"
  shows "\<exists>r self' w'. RTI_TSFM_Transformation_finalize lib ops self w = Inr (r, self', w')
    \<and> tr_config self' = None \<and> tr_tsupport self' = None
    \<and> (\<forall>a. live w' a = (if Some a \<in> set (elems (tr_read_buffer self)) \<or> a \<in> {ts, tc_addr c}
                        then None else live w a))"
proof -
  let ?s = "tr_read_buffer self"
  have buf: "sample_buffer valid elems ?s w" using assms(2) by (simp add: transformation_inv_def)
  then have v: "valid ?s" by (simp add: sample_buffer_def)
  from assms(1) have seq: "dds_seq ops valid elems cap" by (simp add: ptr_seq_def)
  have len: "unat (seq_get_length ops ?s) = length (elems ?s)" using dds_seq.unat_get_length [OF seq v] .
  obtain s1 w1 where d: "delete_samples ops (Some ts) 0 (length (elems ?s)) ?s w = Inr (s1, w1)"
    and w1: "\<forall>a. live w1 a = (if \<exists>j \<ge> 0. j < length (elems ?s) \<and> elems ?s ! j = Some a then None else live w a)"
    using ptr_seq.delete_samples_ok [OF assms(1) buf, of 0 "length (elems ?s)" ts] by auto
  have w1': "live w1 a = (if Some a \<in> set (elems ?s) then None else live w a)" for a
    using w1 by (auto simp: in_set_conv_nth)
  have sample: "\<exists>d. live w a = Some (Sample_Object d)" if "Some a \<in> set (elems ?s)" for a
    using buf that unfolding sample_buffer_def by (metis in_set_conv_nth)
  have kept: "live w1 (tc_addr c) = Some Config_Block" "live w1 ts = Some TypeSupport_Object" "ts \<noteq> tc_addr c"
    using w1' sample [of "tc_addr c"] sample [of ts] assms(4,6) by auto
  show ?thesis
    using d len kept assms(3,5,7) w1'
    by (auto simp: RTI_TSFM_Transformation_finalize_def RTI_TSFM_TransformationConfig_delete_def
        RTI_TSFM_Mutex_finalize_def release_opt_def release_def Let_def split: prod.splits)
qed

lemma create_type_support_cases:
  assumes "wf_ledger w"
  shows "\<exists>r name ts w'. RTI_TSFM_Transformation_create_type_support lib output_type (Some n) w = Inr (r, name, ts, w')
    \<and> (if r = DDS_RETCODE_OK then name = Some output_type \<and> (n = [] \<or> n = output_type)
          \<and> ts = Some (next_id w) \<and> live w' = (live w)(next_id w \<mapsto> TypeSupport_Object)
          \<and> next_id w' = Suc (next_id w)
       else ts = None \<and> live w' = live w \<and> next_id w' = next_id w)"
  by (auto simp: RTI_TSFM_Transformation_create_type_support_def String_replace_def draw_def alloc_def
      acquire_def Let_def)

text \<open>The outcome of an initialisation without a given configuration.\<close>

definition initialised ::
  "('s \<Rightarrow> bool) \<Rightarrow> ('s \<Rightarrow> addr option list) \<Rightarrow> ('s \<Rightarrow> nat) \<Rightarrow> string \<Rightarrow> 'd heap \<Rightarrow> retcode \<Rightarrow>
   's RTI_TSFM_Transformation \<Rightarrow> 'd heap \<Rightarrow> bool" where
  "initialised valid elems cap output_type w r self' w' \<longleftrightarrow>
     (if r = DDS_RETCODE_OK
      then (\<exists>c ts. tr_config self' = Some c \<and> tr_tsupport self' = Some ts \<and> owned w [ts, tc_addr c] w'
             \<and> tc_output_type c = Some output_type \<and> \<not> tr_read_buffer_loaned self'
             \<and> transformation_inv valid elems cap self' w')
      else tr_config self' = None \<and> untouched w w')"

context ptr_seq
begin

lemma initialize_failed_empty:
  assumes "valid (tr_read_buffer self)" and "elems (tr_read_buffer self) = []"
    and "use_mutex lib \<Longrightarrow> tr_lock self = Mutex_Free" and "tr_tsupport self = None"
    and "RTI_TSFM_TransformationConfig_delete (tr_config self) w = Inr w'" and "tr_config self = None \<or> config_initd"
  shows "\<exists>self'. initialize_failed lib ops config_initd self w = Inr (DDS_RETCODE_ERROR, self', w')
    \<and> tr_config self' = None"
proof -
  let ?self = "if config_initd then self else self\<lparr>tr_config := None\<rparr>"
  have "bindF (RTI_TSFM_TransformationConfig_delete (tr_config ?self) w) (release_opt (tr_tsupport ?self)) = Inr w'"
    using assms(4,5,6) by (auto simp: release_opt_def)
  then have "\<exists>r self'. RTI_TSFM_Transformation_finalize lib ops ?self w = Inr (r, self', w')"
    using assms(1-3) by (intro finalize_empty) auto
  with assms(6) show ?thesis by (auto simp: initialize_failed_def Let_def)
qed

end

text \<open>The start of an initialisation: the mutex, when there is one, and the empty buffer.\<close>

definition started ::
  "('s \<Rightarrow> bool) \<Rightarrow> ('s \<Rightarrow> addr option list) \<Rightarrow> ('s \<Rightarrow> nat) \<Rightarrow> tsfm_lib \<Rightarrow> 's RTI_TSFM_Transformation \<Rightarrow> bool" where
  "started valid elems cap lib self \<longleftrightarrow> valid (tr_read_buffer self) \<and> elems (tr_read_buffer self) = []
     \<and> cap (tr_read_buffer self) = 0 \<and> tr_tsupport self = None \<and> \<not> tr_read_buffer_loaned self
     \<and> (use_mutex lib \<longrightarrow> tr_lock self = Mutex_Free)"

lemma initialize_start:
  assumes "ptr_seq ops valid elems cap init" and "fst (seq_initialize ops def_buffer)"
  obtains (failed) self0 w1 where "live w1 = live w" and "next_id w1 = next_id w" and "tr_config self0 = tr_config self"
      and "RTI_TSFM_Transformation_initialize lib ops def_buffer self plugin output_type properties w
           = Inr (DDS_RETCODE_ERROR, self0, w1)"
    | (started) self1 w1 where "live w1 = live w" and "next_id w1 = next_id w" and "tr_config self1 = tr_config self"
      and "started valid elems cap lib self1"
      and "RTI_TSFM_Transformation_initialize lib ops def_buffer self plugin output_type properties w
           = initialize_configured lib ops self1 output_type properties w1"
proof -
  obtain r lock w1 where m: "(if use_mutex lib then RTI_TSFM_Mutex_initialize w
      else (DDS_RETCODE_OK, tr_lock self, w)) = (r, lock, w1)" by (metis prod_cases3)
  have w1: "live w1 = live w" "next_id w1 = next_id w"
    and lock: "r = DDS_RETCODE_OK \<Longrightarrow> use_mutex lib \<Longrightarrow> lock = Mutex_Free"
    using m by (auto simp: RTI_TSFM_Mutex_initialize_def draw_def Let_def split: if_splits)
  obtain s where s: "seq_initialize ops def_buffer = (True, s)" using assms(2) by (metis prod.collapse)
  then have buf: "valid s" "elems s = []" "cap s = 0" using ptr_seq.initialize_ok [OF assms(1)] by blast+
  define self0 where "self0 = self\<lparr>tr_tsupport := None, tr_read_buffer := def_buffer,
    tr_read_buffer_loaned := False, tr_plugin := plugin, tr_lock := lock\<rparr>"
  have run: "RTI_TSFM_Transformation_initialize lib ops def_buffer self plugin output_type properties w =
      (if r \<noteq> DDS_RETCODE_OK then Inr (DDS_RETCODE_ERROR, self0, w1)
       else initialize_configured lib ops (self0\<lparr>tr_read_buffer := s\<rparr>) output_type properties w1)"
    using m s by (cases "use_mutex lib") (auto simp: RTI_TSFM_Transformation_initialize_def self0_def Let_def)
  show ?thesis
  proof (cases "r = DDS_RETCODE_OK")
    case True
    show ?thesis
      by (rule started [OF w1, of "self0\<lparr>tr_read_buffer := s\<rparr>"])
        (use run True buf lock in \<open>auto simp: started_def self0_def\<close>)
  next
    case False
    show ?thesis by (rule failed [OF w1, of self0]) (use run False in \<open>auto simp: self0_def\<close>)
  qed
qed

text \<open>
  The end, with a configuration that was given or parsed: the type support is made, or the
  initialisation fails without it.
\<close>

lemma configured_run:
  assumes "wf_ledger w" and "tc_output_type c = Some n"
    and "(case tr_config self of None \<Rightarrow> RTI_TSFM_TransformationConfig_parse_from_properties_alloc lib properties None start
          | Some c \<Rightarrow> Inr (DDS_RETCODE_OK, Some c, start)) = Inr (DDS_RETCODE_OK, Some c, w)"
  obtains (typed) w' where "live w' = (live w)(next_id w \<mapsto> TypeSupport_Object)" and "next_id w' = Suc (next_id w)"
      and "initialize_configured lib ops self output_type properties start = Inr (DDS_RETCODE_OK,
             self\<lparr>tr_config := Some (c\<lparr>tc_output_type := Some output_type\<rparr>), tr_tsupport := Some (next_id w)\<rparr>, w')"
    | (untyped) name w' where "live w' = live w" and "next_id w' = next_id w"
      and "initialize_configured lib ops self output_type properties start = initialize_failed lib ops (tr_config self = None)
             (self\<lparr>tr_config := Some (c\<lparr>tc_output_type := name\<rparr>), tr_tsupport := None\<rparr>) w'"
proof -
  obtain r name ts w' where t: "RTI_TSFM_Transformation_create_type_support lib output_type (Some n) w
      = Inr (r, name, ts, w')"
    and tcase: "if r = DDS_RETCODE_OK then name = Some output_type \<and> (n = [] \<or> n = output_type)
        \<and> ts = Some (next_id w) \<and> live w' = (live w)(next_id w \<mapsto> TypeSupport_Object) \<and> next_id w' = Suc (next_id w)
      else ts = None \<and> live w' = live w \<and> next_id w' = next_id w"
    using create_type_support_cases [OF assms(1)] by blast
  have run: "initialize_configured lib ops self output_type properties start =
      (let self2 = self\<lparr>tr_config := Some (c\<lparr>tc_output_type := name\<rparr>), tr_tsupport := ts\<rparr> in
       if r \<noteq> DDS_RETCODE_OK then initialize_failed lib ops (tr_config self = None) self2 w' else Inr (DDS_RETCODE_OK, self2, w'))"
    using assms(2) t unfolding initialize_configured_def assms(3) by (simp add: Let_def)
  show ?thesis
  proof (cases "r = DDS_RETCODE_OK")
    case True
    then show ?thesis using typed [of w'] tcase run by simp
  next
    case False
    then show ?thesis using untyped [of w' name] tcase run by (simp add: Let_def)
  qed
qed

text \<open>The configuration was parsed for the transformation, which releases it when it has no type support.\<close>

lemma initialize_parsed:
  assumes "ptr_seq ops valid elems cap init" and "owned w [tc_addr c] w2" and "tc_output_type c = Some n"
    and "RTI_TSFM_TransformationConfig_parse_from_properties_alloc lib properties None w1 = Inr (DDS_RETCODE_OK, Some c, w2)"
    and "tr_config self1 = None" and "started valid elems cap lib self1"
    and "RTI_TSFM_Transformation_initialize lib ops def_buffer self plugin output_type properties w
      = initialize_configured lib ops self1 output_type properties w1"
  shows "\<exists>r self' w'. RTI_TSFM_Transformation_initialize lib ops def_buffer self plugin output_type properties w
        = Inr (r, self', w') \<and> initialised valid elems cap output_type w r self' w'"
proof (rule configured_run [where w = w2 and c = c and n = n and self = self1 and lib = lib and properties = properties
      and start = w1 and ops = ops and output_type = output_type])
  show "wf_ledger w2" using assms(2) by (simp add: owned_def)
next
  fix w'
  assume w': "live w' = (live w2)(next_id w2 \<mapsto> TypeSupport_Object)" "next_id w' = Suc (next_id w2)"
    and run: "initialize_configured lib ops self1 output_type properties w1 = Inr (DDS_RETCODE_OK,
        self1\<lparr>tr_config := Some (c\<lparr>tc_output_type := Some output_type\<rparr>), tr_tsupport := Some (next_id w2)\<rparr>, w')"
  have "owned w [next_id w2, tc_addr c] w'"
    using owned_acquire [OF assms(2), of TypeSupport_Object] owned_cong [of w' "snd (acquire TypeSupport_Object w2)" w] w'
    by (auto simp: acquire_def)
  then show ?thesis
    using run assms(6,7) w' by (auto simp: initialised_def started_def transformation_inv_def sample_buffer_def owned_def)
next
  fix name w'
  assume "live w' = live w2" "next_id w' = next_id w2"
    and run: "initialize_configured lib ops self1 output_type properties w1 = initialize_failed lib ops (tr_config self1 = None)
        (self1\<lparr>tr_config := Some (c\<lparr>tc_output_type := name\<rparr>), tr_tsupport := None\<rparr>) w'"
  then have "owned w [tc_addr c] w'" using assms(2) owned_cong [of w' w2 w] by simp
  then obtain w3 where w3: "release (tc_addr c) w' = Inr w3" "untouched w w3" using owned_free by blast
  then have "\<exists>self'. initialize_failed lib ops True
      (self1\<lparr>tr_config := Some (c\<lparr>tc_output_type := name\<rparr>), tr_tsupport := None\<rparr>) w' = Inr (DDS_RETCODE_ERROR, self', w3)
      \<and> tr_config self' = None"
    using assms(6) by (intro ptr_seq.initialize_failed_empty [OF assms(1)])
      (simp_all add: RTI_TSFM_TransformationConfig_delete_def started_def)
  with run assms(5,7) w3(2) show ?thesis by (auto simp: initialised_def)
qed (use assms in simp_all)

text \<open>
  Initialising a transformation that has no configuration, whatever allocations fail: it
  does not fault; when it succeeds, the transformation owns a new type support and a new
  configuration whose output type is the type of its output stream, and its buffer is empty
  and not on loan; when it fails, nothing it made is kept by the transformation and the
  resources of the caller are untouched.
\<close>

theorem initialize_outcome:
  assumes "ptr_seq ops valid elems cap init" and "wf_ledger w" and "tr_config self = None"
    and "fst (seq_initialize ops def_buffer)"
  shows "\<exists>r self' w'. RTI_TSFM_Transformation_initialize lib ops def_buffer self plugin output_type properties w
        = Inr (r, self', w') \<and> initialised valid elems cap output_type w r self' w'"
proof (rule initialize_start [OF assms(1,4), of w self lib plugin output_type properties])
  fix self0 w1
  assume "live w1 = live w" "next_id w1 = next_id w" "tr_config self0 = tr_config self"
    "RTI_TSFM_Transformation_initialize lib ops def_buffer self plugin output_type properties w
      = Inr (DDS_RETCODE_ERROR, self0, w1)"
  then show ?thesis using assms(2,3) by (auto simp: initialised_def untouched_def wf_ledger_def)
next
  fix self1 w1
  assume w1: "live w1 = live w" "next_id w1 = next_id w" and config: "tr_config self1 = tr_config self"
    and started: "started valid elems cap lib self1"
    and run: "RTI_TSFM_Transformation_initialize lib ops def_buffer self plugin output_type properties w
      = initialize_configured lib ops self1 output_type properties w1"
  have "wf_ledger w1" using assms(2) w1 by (simp add: wf_ledger_def)
  then obtain r conf w2 where p: "RTI_TSFM_TransformationConfig_parse_from_properties_alloc lib properties None w1
      = Inr (r, conf, w2)"
    and own: "if r = DDS_RETCODE_OK then (\<exists>x. conf = Some x \<and> owned w1 [tc_addr x] w2) else conf = None \<and> untouched w1 w2"
    using tconfig.parse_fresh by blast
  show ?thesis
  proof (cases "r = DDS_RETCODE_OK")
    case False
    then have "conf = None" "untouched w w2" using own w1 by (auto simp: untouched_def)
    moreover from this have "\<exists>self'. initialize_failed lib ops False (self1\<lparr>tr_config := None\<rparr>) w2
        = Inr (DDS_RETCODE_ERROR, self', w2) \<and> tr_config self' = None"
      using ptr_seq.initialize_failed_empty [OF assms(1), of "self1\<lparr>tr_config := None\<rparr>" lib w2 w2 False] started
      by (simp add: RTI_TSFM_TransformationConfig_delete_def started_def)
    ultimately show ?thesis
      using run False p assms(3) config by (auto simp: initialize_configured_def initialised_def)
  next
    case True
    with own obtain c where c: "conf = Some c" "owned w [tc_addr c] w2" using w1 by (auto simp: owned_def)
    obtain n where n: "tc_output_type c = Some n"
      using TransformationConfig_parse_output_type p True c(1) by blast
    show ?thesis using assms(3) config run c started p True by (intro initialize_parsed [OF assms(1) _ n]) simp_all
  qed
qed

section \<open>Concrete transformations\<close>

text \<open>The samples are numbers, serialising adds one, and clearing stores zero.\<close>

definition succ_plugin :: "nat RTI_TSFM_UserTypePlugin" where
  "succ_plugin = \<lparr>serialize_sample = (\<lambda>x y. (DDS_RETCODE_OK, Suc x)),
     deserialize_sample = (\<lambda>x y. if x = 0 then (DDS_RETCODE_ERROR, y) else (DDS_RETCODE_OK, x - 1)),
     blank = 0, clear_all_members = (\<lambda>x. 0)\<rparr>"

definition test_transformation :: "addr option lseq RTI_TSFM_Transformation" where
  "test_transformation = \<lparr>tr_config = Some \<lparr>tc_addr = 0, tc_type = RTI_TSFM_TransformationKind_SERIALIZER,
       tc_input_type = Some ''A'', tc_output_type = Some ''B''\<rparr>, tr_plugin = 0, tr_tsupport = Some 1,
     tr_read_buffer = empty_lseq, tr_read_buffer_loaned = False, tr_lock = Mutex_Free\<rparr>"

definition test_heap :: "nat heap" where
  "test_heap = \<lparr>next_id = 2, live = [0 \<mapsto> Config_Block, 1 \<mapsto> TypeSupport_Object], sched = []\<rparr>"

lemma test_inv: "transformation_inv lseq_wf lseq_elems lseq_cap test_transformation test_heap"
  by (simp add: transformation_inv_def sample_buffer_def test_transformation_def test_heap_def
      empty_lseq_def lseq_wf_def lseq_elems_def lseq_cap_def wf_ledger_def)

lemma ptr_init_None: "snd (RTI_TSFM_DDS_DynamicDataPtr_initialize_w_params None) = None"
  by (simp add: RTI_TSFM_DDS_DynamicDataPtr_initialize_w_params_def)

theorem transform_safe_witness:
  "\<exists>r self' out w'. RTI_TSFM_Transformation_transform (lseq_ops None) succ_plugin test_transformation
      [(Some 5, True), (None, True)] test_heap = Inr (r, self', out, w')
    \<and> transformation_inv lseq_wf lseq_elems lseq_cap self' w'"
proof -
  have "seq_ensure_length (lseq_ops None) (tr_read_buffer test_transformation) m m = (False, s) \<Longrightarrow>
      s = tr_read_buffer test_transformation" for m s
    by (auto simp: lseq_ops_def lseq_resize_def split: if_splits)
  with transform_safe [OF sample_seq.ptr_seq_axioms ptr_init_None test_inv _ _ _ refl,
      of "[(Some 5, True), (None, True)]" succ_plugin]
  show ?thesis by (auto simp: test_transformation_def)
qed

lemma replicate_two: "replicate 2 x = [x, x]"
  by (simp add: numeral_2_eq_2)

lemma transform_test:
  "RTI_TSFM_Transformation_transform (lseq_ops None) succ_plugin test_transformation
      [(None, False), (Some 5, True)] test_heap
   = Inr (DDS_RETCODE_OK, test_transformation\<lparr>tr_read_buffer := \<lparr>l_mem = [None, Some 2], l_len = 2, l_loaned = False\<rparr>,
         tr_read_buffer_loaned := True\<rparr>, Some ([None, Some 2], 1),
       \<lparr>next_id = 3, live = [0 \<mapsto> Config_Block, 1 \<mapsto> TypeSupport_Object, 2 \<mapsto> Sample_Object 6], sched = []\<rparr>)"
  by (simp add: RTI_TSFM_Transformation_transform_def test_transformation_def test_heap_def lseq_ops_def
      empty_lseq_def lseq_resize_def output_sample_def run_user_plugin_def succ_plugin_def alloc_def
      alloc_ok_def acquire_def Let_def replicate_two)

theorem transform_correct_witness:
  "\<exists>self' out w'. RTI_TSFM_Transformation_transform (lseq_ops None) succ_plugin test_transformation
      [(None, False), (Some 5, True)] test_heap = Inr (DDS_RETCODE_OK, self', Some (out, 1), w')
    \<and> (\<exists>a. out ! 1 = Some a \<and> live w' a = Some (Sample_Object 6))"
proof -
  let ?ins = "[(None, False), (Some 5, True)] :: (nat option \<times> bool) list"
  let ?n = "if seq_get_maximum (lseq_ops None) (tr_read_buffer test_transformation) > word_of_nat (length ?ins)
              then seq_get_maximum (lseq_ops None) (tr_read_buffer test_transformation) else word_of_nat (length ?ins)"
  let ?c = "\<lparr>tc_addr = 0, tc_type = RTI_TSFM_TransformationKind_SERIALIZER,
       tc_input_type = Some ''A'', tc_output_type = Some ''B''\<rparr>"
  have cfg: "tr_config test_transformation = Some ?c" by (simp add: test_transformation_def)
  have grow: "fst (seq_ensure_length (lseq_ops None) (tr_read_buffer test_transformation) ?n ?n)"
    by (simp add: lseq_ops_def test_transformation_def empty_lseq_def lseq_resize_def)
  have good: "\<forall>k < length ?ins. snd (?ins ! k) \<longrightarrow> (\<exists>x. fst (?ins ! k) = Some x
      \<and> (\<forall>y. run_user_plugin succ_plugin (tc_type ?c) x y = (DDS_RETCODE_OK, Suc x)))"
    by (simp add: run_user_plugin_def succ_plugin_def less_Suc_eq)
  from transform_correct [OF sample_seq.ptr_seq_axioms ptr_init_None test_inv _ cfg _ _ _ _ good refl grow]
  show ?thesis by (auto simp: test_transformation_def test_heap_def)
qed

theorem transform_count_misses_last_witness:
  "\<exists>self' out count w'. RTI_TSFM_Transformation_transform (lseq_ops None) succ_plugin test_transformation
      [(None, False), (Some 5, True)] test_heap = Inr (DDS_RETCODE_OK, self', Some (out, count), w')
    \<and> count \<le> 1 \<and> out ! 1 \<noteq> None"
proof -
  have "(1::nat) \<le> 1"
    by (rule transform_count_misses_last [OF _ _ _ _ _ transform_test, of 1 0]) (simp_all add: less_Suc_eq)
  then show ?thesis by (simp add: transform_test)
qed

theorem return_loan_ends_loan_witness:
  "\<exists>w'. RTI_TSFM_Transformation_return_loan succ_plugin test_transformation [] 0 test_heap
     = Inr (test_transformation\<lparr>tr_read_buffer_loaned := False\<rparr>, w')"
  using return_loan_ends_loan [OF test_inv refl, of 0 succ_plugin]
  by (auto simp: test_transformation_def empty_lseq_def lseq_elems_def)

theorem finalize_frees_owned_witness:
  "\<exists>r self' w'. RTI_TSFM_Transformation_finalize assoc_lib (lseq_ops None) test_transformation test_heap
      = Inr (r, self', w') \<and> live w' 0 = None \<and> live w' 1 = None"
  using finalize_frees_owned [OF sample_seq.ptr_seq_axioms test_inv, of _ 1 assoc_lib]
  by (fastforce simp: test_transformation_def test_heap_def)

theorem initialize_outcome_witness:
  "\<exists>r self' w'. RTI_TSFM_Transformation_initialize assoc_lib (lseq_ops None) empty_lseq
      (test_transformation\<lparr>tr_config := None\<rparr>) 0 ''B'' [] (empty_heap [True, True, False] :: nat heap)
      = Inr (r, self', w')
    \<and> initialised lseq_wf lseq_elems lseq_cap ''B'' (empty_heap [True, True, False] :: nat heap) r self' w'"
  by (rule initialize_outcome [OF sample_seq.ptr_seq_axioms wf_empty_heap])
    (simp_all add: lseq_ops_def)

end
