(* ===== verification/Tsfm_Plugin.thy ===== *)
theory Tsfm_Plugin
  imports Tsfm_Transformation
begin

text \<open>
  The plugin of the transformation library, the second half of
  \<^verbatim>\<open>common/transformation/srcC/TransformationPlugin.c\<close>, and the user's plugin object of
  \<^verbatim>\<open>TransformationUserPlugin.c\<close>. A plugin keeps the pointers to its transformations in a
  sequence, in the order of their creation; it can be finalised only when there are none.
\<close>

section \<open>The user's plugin\<close>

record 'd user_plugin_object =
  uo_addr :: addr
  uo_functions :: "'d RTI_TSFM_UserTypePlugin"
  uo_has_delete :: bool

definition RTI_TSFM_UserTypePlugin_create_static ::
  "'d RTI_TSFM_UserTypePlugin \<Rightarrow> 'd heap \<Rightarrow> 'd user_plugin_object option \<times> 'd heap" where
  "RTI_TSFM_UserTypePlugin_create_static functions w =
     (case alloc UserPlugin_Block w of
        (None, w) \<Rightarrow> (None, w)
      | (Some a, w) \<Rightarrow> (Some \<lparr>uo_addr = a, uo_functions = functions, uo_has_delete = True\<rparr>, w))"

definition RTI_TSFM_UserTypePlugin_create_dynamic :: "string option \<Rightarrow> string option \<Rightarrow> 'd user_plugin_object option" where
  "RTI_TSFM_UserTypePlugin_create_dynamic plugin_lib plugin_create_fn = None"

definition RTI_TSFM_UserTypePlugin_delete_default :: "'d user_plugin_object \<Rightarrow> 'd heap \<Rightarrow> fault + 'd heap" where
  "RTI_TSFM_UserTypePlugin_delete_default self w = release (uo_addr self) w"

section \<open>The plugin\<close>

record ('s, 'd) RTI_TSFM_TransformationPlugin =
  tp_transforms :: 's
  tp_config :: "RTI_TSFM_TransformationPluginConfig option"
  tp_user_plugin :: "'d user_plugin_object option"
  tp_lock :: RTI_TSFM_Mutex

definition RTI_TSFM_TransformationPlugin_finalize ::
  "tsfm_lib \<Rightarrow> ('s, addr option) seq_ops \<Rightarrow> ('s, 'd) RTI_TSFM_TransformationPlugin \<Rightarrow> 'd heap \<Rightarrow>
   fault + retcode \<times> ('s, 'd) RTI_TSFM_TransformationPlugin \<times> 'd heap" where
  "RTI_TSFM_TransformationPlugin_finalize lib ops self w =
     (if seq_get_length ops (tp_transforms self) > 0 then Inr (DDS_RETCODE_ERROR, self, w)
      else
        let (_, s) = seq_finalize ops (tp_transforms self); self = self\<lparr>tp_transforms := s\<rparr> in
        bindF (case tp_user_plugin self of
                 Some up \<Rightarrow> if uo_has_delete up
                   then bindF (RTI_TSFM_UserTypePlugin_delete_default up w)
                          (\<lambda>w. Inr (self\<lparr>tp_user_plugin := None\<rparr>, w))
                   else Inr (self, w)
               | None \<Rightarrow> Inr (self, w)) (\<lambda>(self, w).
        bindF (RTI_TSFM_TransformationPluginConfig_delete (tp_config self) w) (\<lambda>w.
        let self = self\<lparr>tp_config := None\<rparr> in
        if use_mutex lib
        then bindF (RTI_TSFM_Mutex_finalize (tp_lock self)) (\<lambda>(_, lock).
               Inr (DDS_RETCODE_OK, self\<lparr>tp_lock := lock\<rparr>, w))
        else Inr (DDS_RETCODE_OK, self, w))))"

text \<open>The end of a failed \<open>initialize_static\<close>.\<close>

definition initialize_static_failed ::
  "tsfm_lib \<Rightarrow> ('s, addr option) seq_ops \<Rightarrow> bool \<Rightarrow> ('s, 'd) RTI_TSFM_TransformationPlugin \<Rightarrow> 'd heap \<Rightarrow>
   fault + retcode \<times> ('s, 'd) RTI_TSFM_TransformationPlugin \<times> 'd heap" where
  "initialize_static_failed lib ops parsed_config self w =
     (let config = (if parsed_config then None else tp_config self) in
      bindF (RTI_TSFM_TransformationPlugin_finalize lib ops
               (if parsed_config then self else self\<lparr>tp_config := None\<rparr>) w) (\<lambda>(_, self, w).
        Inr (DDS_RETCODE_ERROR, self\<lparr>tp_config := config\<rparr>, w)))"

definition RTI_TSFM_TransformationPlugin_initialize_static ::
  "tsfm_lib \<Rightarrow> ('s, addr option) seq_ops \<Rightarrow> 's \<Rightarrow> ('s, 'd) RTI_TSFM_TransformationPlugin \<Rightarrow>
   'd user_plugin_object \<Rightarrow> RTI_TSFM_TransformationPluginConfig option \<Rightarrow> rs_properties \<Rightarrow> 'd heap \<Rightarrow>
   fault + retcode \<times> ('s, 'd) RTI_TSFM_TransformationPlugin \<times> 'd heap" where
  "RTI_TSFM_TransformationPlugin_initialize_static lib ops def_transforms self user_plugin config properties w =
     (let self = self\<lparr>tp_transforms := def_transforms, tp_user_plugin := Some user_plugin, tp_config := config\<rparr>;
          (r, lock, w) = (if use_mutex lib then RTI_TSFM_Mutex_initialize w
                          else (DDS_RETCODE_OK, tp_lock self, w));
          self = self\<lparr>tp_lock := lock\<rparr> in
      if r \<noteq> DDS_RETCODE_OK then Inr (DDS_RETCODE_ERROR, self, w)
      else
        let (ok, s) = seq_initialize ops (tp_transforms self); self = self\<lparr>tp_transforms := s\<rparr> in
        if \<not> ok then initialize_static_failed lib ops False self w
        else
          (case tp_config self of
             Some _ \<Rightarrow> Inr (DDS_RETCODE_OK, self, w)
           | None \<Rightarrow>
               bindF (RTI_TSFM_TransformationPluginConfig_parse_from_properties_alloc lib properties None w)
                 (\<lambda>(r, config, w).
                   let self = self\<lparr>tp_config := config\<rparr> in
                   if r \<noteq> DDS_RETCODE_OK then initialize_static_failed lib ops False self w
                   else Inr (DDS_RETCODE_OK, self, w))))"

definition RTI_TSFM_TransformationPlugin_initialize ::
  "tsfm_lib \<Rightarrow> ('s, addr option) seq_ops \<Rightarrow> 's \<Rightarrow> ('s, 'd) RTI_TSFM_TransformationPlugin \<Rightarrow> rs_properties \<Rightarrow>
   'd heap \<Rightarrow> fault + retcode \<times> ('s, 'd) RTI_TSFM_TransformationPlugin \<times> 'd heap" where
  "RTI_TSFM_TransformationPlugin_initialize lib ops def_transforms self properties w =
     (let parsed_config = (tp_config self = None);
          failed = (\<lambda>self w. if parsed_config
            then bindF (RTI_TSFM_TransformationPluginConfig_delete (tp_config self) w)
                   (\<lambda>w. Inr (DDS_RETCODE_ERROR, self\<lparr>tp_config := None\<rparr>, w))
            else Inr (DDS_RETCODE_ERROR, self, w)) in
      bindF (case tp_config self of
               Some c \<Rightarrow> Inr (DDS_RETCODE_OK, Some c, w)
             | None \<Rightarrow> RTI_TSFM_TransformationPluginConfig_parse_from_properties_alloc lib properties None w)
        (\<lambda>(r, config, w).
          let self = self\<lparr>tp_config := config\<rparr> in
          if r \<noteq> DDS_RETCODE_OK then Inr (DDS_RETCODE_ERROR, self, w)
          else
            (case config of
               None \<Rightarrow> Inl Null_Deref
             | Some c \<Rightarrow>
                 (case RTI_TSFM_UserTypePlugin_create_dynamic (pc_dll c) (pc_create_fn c) of
                    None \<Rightarrow> failed self w
                  | Some up \<Rightarrow>
                      bindF (RTI_TSFM_TransformationPlugin_initialize_static lib ops def_transforms self up
                               (tp_config self) properties w) (\<lambda>(r, self, w).
                        if r \<noteq> DDS_RETCODE_OK then failed self w else Inr (DDS_RETCODE_OK, self, w))))))"

section \<open>The registry of transformations\<close>

text \<open>
  The clean-up of \<open>initialize_transformation\<close> is unreachable: nothing fails after the pointer
  was stored.
\<close>

definition RTI_TSFM_TransformationPlugin_initialize_transformation ::
  "('s, addr option) seq_ops \<Rightarrow> ('s, 'd) RTI_TSFM_TransformationPlugin \<Rightarrow> addr \<Rightarrow>
   retcode \<times> ('s, 'd) RTI_TSFM_TransformationPlugin" where
  "RTI_TSFM_TransformationPlugin_initialize_transformation ops self transform =
     (let cur_transform_len = seq_get_length ops (tp_transforms self);
          (ok, s) = seq_ensure_length ops (tp_transforms self) (cur_transform_len + 1) (cur_transform_len + 1) in
      if \<not> ok then (DDS_RETCODE_ERROR, self\<lparr>tp_transforms := s\<rparr>)
      else (DDS_RETCODE_OK, self\<lparr>tp_transforms := seq_put ops s cur_transform_len (Some transform)\<rparr>))"

text \<open>The search for the pointer, and the loop that moves the later ones down.\<close>

fun find_transform :: "('s, addr option) seq_ops \<Rightarrow> 's \<Rightarrow> addr \<Rightarrow> nat \<Rightarrow> nat \<Rightarrow> nat option" where
  "find_transform ops s t i 0 = None"
| "find_transform ops s t i (Suc n) =
     (if seq_get ops s (word_of_nat i) = Some t then Some i else find_transform ops s t (Suc i) n)"

fun shift_down :: "('s, addr option) seq_ops \<Rightarrow> nat \<Rightarrow> nat \<Rightarrow> 's \<Rightarrow> 's" where
  "shift_down ops i 0 s = s"
| "shift_down ops i (Suc n) s =
     shift_down ops (Suc i) n (seq_put ops s (word_of_nat i) (seq_get ops s (word_of_nat (Suc i))))"

definition RTI_TSFM_TransformationPlugin_finalize_transformation ::
  "('s, addr option) seq_ops \<Rightarrow> ('s, 'd) RTI_TSFM_TransformationPlugin \<Rightarrow> addr \<Rightarrow>
   retcode \<times> ('s, 'd) RTI_TSFM_TransformationPlugin" where
  "RTI_TSFM_TransformationPlugin_finalize_transformation ops self transform =
     (let seq_len = unat (seq_get_length ops (tp_transforms self)) in
      case find_transform ops (tp_transforms self) transform 0 seq_len of
        None \<Rightarrow> (DDS_RETCODE_ERROR, self)
      | Some rm_i \<Rightarrow>
          (let s = shift_down ops rm_i (seq_len - 1 - rm_i) (tp_transforms self);
               (ok, s) = seq_set_length ops s (word_of_nat (seq_len - 1)) in
           (if ok then DDS_RETCODE_OK else DDS_RETCODE_ERROR, self\<lparr>tp_transforms := s\<rparr>)))"

text \<open>
  What a registry of transformations promises its plugin: adding appends, removing takes
  the first occurrence out and fails when there is none.
\<close>

locale transform_registry =
  fixes add :: "'p \<Rightarrow> addr \<Rightarrow> retcode \<times> 'p"
    and remove :: "'p \<Rightarrow> addr \<Rightarrow> retcode \<times> 'p"
    and ok :: "'p \<Rightarrow> bool"
    and entries :: "'p \<Rightarrow> addr option list"
  assumes add_ok: "ok p \<Longrightarrow> add p t = (DDS_RETCODE_OK, p') \<Longrightarrow> ok p' \<and> entries p' = entries p @ [Some t]"
    and remove_ok: "ok p \<Longrightarrow> remove p t = (DDS_RETCODE_OK, p') \<Longrightarrow>
          ok p' \<and> Some t \<in> set (entries p) \<and> entries p' = remove1 (Some t) (entries p)"
    and remove_missing: "ok p \<Longrightarrow> Some t \<notin> set (entries p) \<Longrightarrow> remove p t = (DDS_RETCODE_ERROR, p)"
begin

text \<open>A transformation that was added and removed again leaves no trace.\<close>

lemma add_remove:
  assumes "ok p" and "Some t \<notin> set (entries p)" and "add p t = (DDS_RETCODE_OK, p')"
    and "remove p' t = (DDS_RETCODE_OK, p'')"
  shows "ok p'' \<and> entries p'' = entries p"
  using add_ok [OF assms(1,3)] remove_ok [of p' t p''] assms(2,4) by (simp add: remove1_append)

text \<open>A transformation is removed at most as often as it was added.\<close>

lemma remove_twice:
  assumes "ok p" and "distinct (entries p)" and "remove p t = (DDS_RETCODE_OK, p')"
  shows "remove p' t = (DDS_RETCODE_ERROR, p')"
  using remove_ok [OF assms(1,3)] assms(2) by (intro remove_missing) auto

end

context dds_seq
begin

text \<open>Growing with \<open>ensure_length\<close> and storing the new element appends it.\<close>

lemma ensure_and_put:
  assumes "valid s"
    and "seq_ensure_length ops s (seq_get_length ops s + 1) (seq_get_length ops s + 1) = (True, s')"
  shows "valid (seq_put ops s' (seq_get_length ops s) v)
    \<and> elems (seq_put ops s' (seq_get_length ops s) v) = elems s @ [v]"
proof -
  let ?n = "length (elems s)"
  have "?n < 2 ^ 31" using assms(1) by (rule length_bound)
  then have len: "unat (seq_get_length ops s + 1) = Suc ?n"
    using unat_get_length [OF assms(1)] by (simp add: unat_word_ariths)
  have s': "valid s'" "length (elems s') = Suc ?n" "take ?n (elems s') = elems s"
    using ensure_length_ok [OF assms] len by simp_all
  have "elems s' = elems s @ [elems s' ! ?n]"
    using take_Suc_conv_app_nth [of ?n "elems s'"] s' by simp
  then have "(elems s')[?n := v] = elems s @ [v]" by (metis list_update_length)
  then show ?thesis using put_elem [OF s'(1), of ?n v] s'(2) by (simp add: get_length [OF assms(1)])
qed

end

text \<open>The first index at which a pointer is stored.\<close>

lemma find_transform_index:
  assumes "dds_seq ops valid elems cap" and "valid s" and "i + n = length (elems s)"
  shows "find_transform ops s t i n =
    (if Some t \<in> set (drop i (elems s)) then Some (i + length (takeWhile (\<lambda>p. p \<noteq> Some t) (drop i (elems s)))) else None)"
  using assms(3)
proof (induction n arbitrary: i)
  case 0
  then show ?case by simp
next
  case (Suc n)
  then have i: "i < length (elems s)" by simp
  have drop: "drop i (elems s) = elems s ! i # drop (Suc i) (elems s)" using i by (simp add: Cons_nth_drop_Suc)
  have "seq_get ops s (word_of_nat i) = elems s ! i" using dds_seq.get_elem [OF assms(1,2) i] .
  then show ?case using Suc.IH [of "Suc i"] Suc.prems drop by auto
qed

lemma shift_down_list:
  assumes "dds_seq ops valid elems cap" and "valid s" and "i + n < length (elems s)"
  shows "valid (shift_down ops i n s) \<and> length (elems (shift_down ops i n s)) = length (elems s)
    \<and> take (i + n) (elems (shift_down ops i n s)) = take i (elems s) @ take n (drop (Suc i) (elems s))"
  using assms(2,3)
proof (induction n arbitrary: i s)
  case 0
  then show ?case by simp
next
  case (Suc n)
  let ?v = "elems s ! Suc i"
  let ?s = "seq_put ops s (word_of_nat i) (seq_get ops s (word_of_nat (Suc i)))"
  have get: "seq_get ops s (word_of_nat (Suc i)) = ?v"
    using dds_seq.get_elem [OF assms(1) Suc.prems(1), of "Suc i"] Suc.prems(2) by simp
  have s: "valid ?s" "elems ?s = (elems s)[i := ?v]"
    using dds_seq.put_elem [OF assms(1) Suc.prems(1), of i ?v] Suc.prems(2) get by auto
  then have len: "Suc i + n < length (elems ?s)" using Suc.prems(2) by simp
  have "drop (Suc i) (elems s) = ?v # drop (Suc (Suc i)) (elems s)"
    using Suc.prems(2) by (simp add: Cons_nth_drop_Suc)
  moreover have "take (Suc i) ((elems s)[i := ?v]) = take i (elems s) @ [?v]"
    using Suc.prems(2) by (simp add: take_Suc_conv_app_nth)
  ultimately show ?case
    using Suc.IH [OF s(1) len] s(2) by simp
qed

lemma takeWhile_neq_length: "x \<in> set xs \<Longrightarrow> length (takeWhile (\<lambda>y. y \<noteq> x) xs) < length xs"
  by (induction xs) auto

lemma remove1_take_drop:
  assumes "x \<in> set xs"
  shows "remove1 x xs = take (length (takeWhile (\<lambda>y. y \<noteq> x) xs)) xs
    @ drop (Suc (length (takeWhile (\<lambda>y. y \<noteq> x) xs))) xs"
  using assms by (induction xs) auto

lemma finalize_transformation_list:
  assumes "dds_seq ops valid elems cap" and "valid (tp_transforms self)"
    and "Some t \<in> set (elems (tp_transforms self))"
    and "RTI_TSFM_TransformationPlugin_finalize_transformation ops self t = (DDS_RETCODE_OK, self')"
  shows "valid (tp_transforms self') \<and> elems (tp_transforms self') = remove1 (Some t) (elems (tp_transforms self))
    \<and> tp_config self' = tp_config self \<and> tp_user_plugin self' = tp_user_plugin self"
proof -
  let ?s = "tp_transforms self" let ?xs = "elems ?s"
  let ?i = "length (takeWhile (\<lambda>p. p \<noteq> Some t) ?xs)" and ?n = "length ?xs"
  have n: "unat (seq_get_length ops ?s) = ?n" using dds_seq.unat_get_length [OF assms(1,2)] .
  have find: "find_transform ops ?s t 0 ?n = Some ?i"
    using find_transform_index [OF assms(1,2), of 0 ?n t] assms(3) by simp
  have i: "?i < ?n" using assms(3) by (rule takeWhile_neq_length)
  let ?s1 = "shift_down ops ?i (?n - 1 - ?i) ?s"
  have s1: "valid ?s1" "length (elems ?s1) = ?n"
      "take (?n - 1) (elems ?s1) = take ?i ?xs @ take (?n - 1 - ?i) (drop (Suc ?i) ?xs)"
    using shift_down_list [OF assms(1,2), of ?i "?n - 1 - ?i"] i by simp_all
  obtain s2 where s2: "seq_set_length ops ?s1 (word_of_nat (?n - 1)) = (True, s2)"
      and self': "self' = self\<lparr>tp_transforms := s2\<rparr>"
    using assms(4) n find
    by (auto simp: RTI_TSFM_TransformationPlugin_finalize_transformation_def Let_def split: prod.splits if_splits)
  have un: "unat (word_of_nat (?n - 1) :: DDS_Long) = ?n - 1"
    using dds_seq.length_bound [OF assms(1,2)] by (simp add: unat_of_nat)
  have v2: "valid s2" "length (elems s2) = ?n - 1" "elems s2 = take (?n - 1) (elems ?s1)"
    using dds_seq.set_length_ok [OF assms(1) s1(1) s2] s1(2) un by auto
  have "elems s2 = take ?i ?xs @ drop (Suc ?i) ?xs" using v2(3) s1(3) i by simp
  then show ?thesis using remove1_take_drop [OF assms(3)] v2(1) self' by simp
qed

lemma finalize_transformation_succeeds:
  assumes "dds_seq ops valid elems cap" and "valid (tp_transforms self)"
    and "Some t \<in> set (elems (tp_transforms self))"
    and shrink: "\<And>s n. valid s \<Longrightarrow> unat n \<le> length (elems s) \<Longrightarrow> fst (seq_set_length ops s n)"
  shows "\<exists>self'. RTI_TSFM_TransformationPlugin_finalize_transformation ops self t = (DDS_RETCODE_OK, self')
    \<and> tp_lock self' = tp_lock self"
proof -
  let ?s = "tp_transforms self" let ?xs = "elems ?s"
  let ?i = "length (takeWhile (\<lambda>p. p \<noteq> Some t) ?xs)" and ?n = "length ?xs"
  have find: "find_transform ops ?s t 0 ?n = Some ?i"
    using find_transform_index [OF assms(1,2), of 0 ?n t] assms(3) by simp
  have i: "?i < ?n" using assms(3) by (rule takeWhile_neq_length)
  let ?s1 = "shift_down ops ?i (?n - 1 - ?i) ?s"
  have "valid ?s1" "length (elems ?s1) = ?n"
    using shift_down_list [OF assms(1,2), of ?i "?n - 1 - ?i"] i by simp_all
  moreover have "unat (word_of_nat (?n - 1) :: DDS_Long) = ?n - 1"
    using dds_seq.length_bound [OF assms(1,2)] by (simp add: unat_of_nat)
  ultimately have "fst (seq_set_length ops ?s1 (word_of_nat (?n - 1)))" using i by (intro shrink) simp_all
  then show ?thesis
    using find dds_seq.unat_get_length [OF assms(1,2)]
    by (auto simp: RTI_TSFM_TransformationPlugin_finalize_transformation_def Let_def split: prod.splits)
qed

interpretation plugin_registry: transform_registry
  "RTI_TSFM_TransformationPlugin_initialize_transformation (lseq_ops None)"
  "RTI_TSFM_TransformationPlugin_finalize_transformation (lseq_ops None)"
  "\<lambda>p. lseq_wf (tp_transforms p)" "\<lambda>p. lseq_elems (tp_transforms p)"
proof (unfold_locales, goal_cases)
  case (1 p t p')
  then show ?case
    using lseq.ensure_and_put [of "tp_transforms p" None _ "Some t"]
    by (auto simp: RTI_TSFM_TransformationPlugin_initialize_transformation_def Let_def
        split: prod.splits if_splits)
next
  case (2 p t p')
  have "Some t \<in> set (lseq_elems (tp_transforms p))"
    using 2 find_transform_index [OF lseq.dds_seq_axioms 2(1), of 0 _ None t]
      lseq.unat_get_length [OF 2(1), of None]
    by (auto simp: RTI_TSFM_TransformationPlugin_finalize_transformation_def Let_def split: if_splits)
  then show ?case
    using finalize_transformation_list [OF lseq.dds_seq_axioms 2(1) _ 2(2)] by simp
next
  case (3 p t)
  then show ?case
    using find_transform_index [OF lseq.dds_seq_axioms 3(1), of 0 _ None t]
      lseq.unat_get_length [OF 3(1), of None]
    by (simp add: RTI_TSFM_TransformationPlugin_finalize_transformation_def Let_def)
qed

section \<open>Properties\<close>

text \<open>
  C36. The registry refines a list: registering a transformation appends its pointer, or
  fails when the sequence cannot grow, and unregistering removes its first occurrence and
  keeps the order of the others; a transformation that is not registered is an error that
  changes nothing. The rest of the plugin is kept.
\<close>

theorem registry_refines_list:
  assumes "dds_seq ops valid elems cap" and "valid (tp_transforms self)"
  shows "(\<forall>self'. RTI_TSFM_TransformationPlugin_initialize_transformation ops self t = (DDS_RETCODE_OK, self') \<longrightarrow>
        valid (tp_transforms self') \<and> elems (tp_transforms self') = elems (tp_transforms self) @ [Some t]
        \<and> tp_config self' = tp_config self \<and> tp_user_plugin self' = tp_user_plugin self)
    \<and> (\<forall>self'. RTI_TSFM_TransformationPlugin_finalize_transformation ops self t = (DDS_RETCODE_OK, self') \<longrightarrow>
        Some t \<in> set (elems (tp_transforms self))
        \<and> valid (tp_transforms self') \<and> elems (tp_transforms self') = remove1 (Some t) (elems (tp_transforms self))
        \<and> tp_config self' = tp_config self \<and> tp_user_plugin self' = tp_user_plugin self)
    \<and> (Some t \<notin> set (elems (tp_transforms self)) \<longrightarrow>
        RTI_TSFM_TransformationPlugin_finalize_transformation ops self t = (DDS_RETCODE_ERROR, self))"
proof -
  note find = find_transform_index [OF assms, of 0 "length (elems (tp_transforms self))" t]
    dds_seq.unat_get_length [OF assms]
  have "valid (tp_transforms self') \<and> elems (tp_transforms self') = elems (tp_transforms self) @ [Some t]
        \<and> tp_config self' = tp_config self \<and> tp_user_plugin self' = tp_user_plugin self"
    if "RTI_TSFM_TransformationPlugin_initialize_transformation ops self t = (DDS_RETCODE_OK, self')" for self'
    using that dds_seq.ensure_and_put [OF assms, of _ "Some t"]
    by (auto simp: RTI_TSFM_TransformationPlugin_initialize_transformation_def Let_def
        split: prod.splits if_splits)
  moreover have "Some t \<notin> set (elems (tp_transforms self)) \<Longrightarrow>
      RTI_TSFM_TransformationPlugin_finalize_transformation ops self t = (DDS_RETCODE_ERROR, self)"
    using find by (simp add: RTI_TSFM_TransformationPlugin_finalize_transformation_def Let_def)
  moreover from this have "Some t \<in> set (elems (tp_transforms self))"
    if "RTI_TSFM_TransformationPlugin_finalize_transformation ops self t = (DDS_RETCODE_OK, self')" for self'
    using that by fastforce
  ultimately show ?thesis
    using finalize_transformation_list [OF assms] by blast
qed

theorem registry_refines_list_witness:
  "RTI_TSFM_TransformationPlugin_finalize_transformation (lseq_ops None)
      (\<lparr>tp_transforms = empty_lseq, tp_config = None, tp_user_plugin = None, tp_lock = Mutex_Free\<rparr>
        :: (addr option lseq, nat) RTI_TSFM_TransformationPlugin) 7
    = (DDS_RETCODE_ERROR, \<lparr>tp_transforms = empty_lseq, tp_config = None, tp_user_plugin = None, tp_lock = Mutex_Free\<rparr>)"
  using registry_refines_list [OF lseq.dds_seq_axioms, of
      "\<lparr>tp_transforms = empty_lseq, tp_config = None, tp_user_plugin = None, tp_lock = Mutex_Free\<rparr>
        :: (addr option lseq, nat) RTI_TSFM_TransformationPlugin" None 7]
  by (simp add: empty_lseq_def lseq_wf_def lseq_elems_def)

lemma plugin_finalize_ok:
  assumes "seq_get_length ops (tp_transforms self) = 0"
    and "use_mutex lib \<Longrightarrow> tp_lock self \<noteq> Mutex_Uninitialised"
    and "tp_user_plugin self = Some up" and "uo_has_delete up" and "live w (uo_addr up) \<noteq> None"
    and "tp_config self = None \<or> (\<exists>c. tp_config self = Some c \<and> live w (pc_addr c) \<noteq> None \<and> pc_addr c \<noteq> uo_addr up)"
  shows "\<exists>self' w'. RTI_TSFM_TransformationPlugin_finalize lib ops self w = Inr (DDS_RETCODE_OK, self', w')
    \<and> tp_config self' = None \<and> tp_user_plugin self' = None \<and> next_id w' = next_id w
    \<and> live w' = (live w) |` (- (insert (uo_addr up) (pc_addr ` set_option (tp_config self))))"
proof -
  have m: "use_mutex lib \<Longrightarrow> \<exists>r l. RTI_TSFM_Mutex_finalize (tp_lock self) = Inr (r, l)"
    using assms(2) by (cases "tp_lock self") (auto simp: RTI_TSFM_Mutex_finalize_def)
  from assms(6) show ?thesis
  proof (elim disjE exE conjE)
    assume "tp_config self = None"
    then show ?thesis
      using assms(1,3,4,5) m
      by (cases "use_mutex lib")
        (auto simp: RTI_TSFM_TransformationPlugin_finalize_def RTI_TSFM_UserTypePlugin_delete_default_def
          RTI_TSFM_TransformationPluginConfig_delete_def release_def restrict_map_def Let_def fun_eq_iff
          split: prod.splits)
  next
    fix c assume "tp_config self = Some c" "live w (pc_addr c) \<noteq> None" "pc_addr c \<noteq> uo_addr up"
    then show ?thesis
      using assms(1,3,4,5) m
      by (cases "use_mutex lib")
        (auto simp: RTI_TSFM_TransformationPlugin_finalize_def RTI_TSFM_UserTypePlugin_delete_default_def
          RTI_TSFM_TransformationPluginConfig_delete_def release_def restrict_map_def Let_def fun_eq_iff
          split: prod.splits)
  qed
qed

text \<open>
  Finalising a plugin is refused, and changes nothing, while a transformation is
  registered; with none left it frees the user's plugin and the configuration, once each,
  and no other resource.
\<close>

theorem plugin_finalize_outcome:
  assumes "dds_seq ops valid elems cap" and "valid (tp_transforms self)"
    and "use_mutex lib \<longrightarrow> tp_lock self \<noteq> Mutex_Uninitialised"
    and "tp_user_plugin self = Some up" and "uo_has_delete up" and "live w (uo_addr up) \<noteq> None"
    and "tp_config self = Some c" and "live w (pc_addr c) \<noteq> None" and "pc_addr c \<noteq> uo_addr up"
  shows "if elems (tp_transforms self) \<noteq> []
    then RTI_TSFM_TransformationPlugin_finalize lib ops self w = Inr (DDS_RETCODE_ERROR, self, w)
    else \<exists>self' w'. RTI_TSFM_TransformationPlugin_finalize lib ops self w = Inr (DDS_RETCODE_OK, self', w')
      \<and> tp_config self' = None \<and> tp_user_plugin self' = None
      \<and> live w' = (live w)(uo_addr up := None, pc_addr c := None)"
proof -
  have len: "unat (seq_get_length ops (tp_transforms self)) = length (elems (tp_transforms self))"
    using dds_seq.unat_get_length [OF assms(1,2)] .
  show ?thesis
  proof (cases "elems (tp_transforms self) = []")
    case False
    then have "seq_get_length ops (tp_transforms self) \<noteq> 0" using len by auto
    then have "0 < seq_get_length ops (tp_transforms self)" by (simp add: word_neq_0_conv)
    then show ?thesis using False by (simp add: RTI_TSFM_TransformationPlugin_finalize_def)
  next
    case True
    then have "seq_get_length ops (tp_transforms self) = 0" using len by (metis list.size(3) unat_eq_zero)
    moreover have "(live w) |` (- (insert (uo_addr up) (pc_addr ` set_option (Some c))))
        = (live w)(uo_addr up := None, pc_addr c := None)"
      by (auto simp: restrict_map_def fun_eq_iff)
    ultimately show ?thesis
      using True plugin_finalize_ok [of ops self lib up w] assms(3-9) by auto
  qed
qed

definition test_user_plugin :: "nat user_plugin_object" where
  "test_user_plugin = \<lparr>uo_addr = 0, uo_functions = succ_plugin, uo_has_delete = True\<rparr>"

definition test_plugin :: "(addr option lseq, nat) RTI_TSFM_TransformationPlugin" where
  "test_plugin = \<lparr>tp_transforms = empty_lseq,
     tp_config = Some \<lparr>pc_addr = 1, pc_dll = Some [], pc_create_fn = Some []\<rparr>,
     tp_user_plugin = Some test_user_plugin, tp_lock = Mutex_Free\<rparr>"

theorem plugin_finalize_outcome_witness:
  "\<exists>self' w'. RTI_TSFM_TransformationPlugin_finalize assoc_lib (lseq_ops None) test_plugin
      \<lparr>next_id = 2, live = [0 \<mapsto> UserPlugin_Block, 1 \<mapsto> PluginConfig_Block], sched = []\<rparr>
    = Inr (DDS_RETCODE_OK, self', w') \<and> live w' = Map.empty"
  using plugin_finalize_outcome [OF lseq.dds_seq_axioms, of test_plugin assoc_lib test_user_plugin
      "\<lparr>next_id = 2, live = [0 \<mapsto> UserPlugin_Block, 1 \<mapsto> PluginConfig_Block], sched = []\<rparr>" _ None]
  by (auto simp: test_plugin_def test_user_plugin_def empty_lseq_def lseq_wf_def lseq_elems_def)

text \<open>
  The dynamic way to initialise a plugin never succeeds, because loading the user's
  plugin from a library is not implemented: it returns an error, whatever the properties,
  and leaves no configuration and no resource behind.
\<close>

theorem plugin_initialize_dynamic_fails:
  assumes "wf_ledger w" and "tp_config self = None"
  shows "\<exists>self' w'. RTI_TSFM_TransformationPlugin_initialize lib ops def_transforms self properties w
      = Inr (DDS_RETCODE_ERROR, self', w') \<and> tp_config self' = None \<and> untouched w w'"
proof -
  obtain r c w1 where p: "RTI_TSFM_TransformationPluginConfig_parse_from_properties_alloc lib properties None w
      = Inr (r, c, w1)"
    and own: "if r = DDS_RETCODE_OK then (\<exists>x. c = Some x \<and> owned w [pc_addr x] w1) else c = None \<and> untouched w w1"
    using pconfig.parse_fresh [OF assms(1)] by blast
  show ?thesis
  proof (cases "r = DDS_RETCODE_OK")
    case True
    with own obtain x where x: "c = Some x" "owned w [pc_addr x] w1" by auto
    then obtain w2 where "release (pc_addr x) w1 = Inr w2" "untouched w w2" using owned_free by blast
    then show ?thesis
      using p x True assms(2)
      by (simp add: RTI_TSFM_TransformationPlugin_initialize_def RTI_TSFM_UserTypePlugin_create_dynamic_def
          RTI_TSFM_TransformationPluginConfig_delete_def Let_def)
  next
    case False
    then show ?thesis
      using p own assms(2) by (simp add: RTI_TSFM_TransformationPlugin_initialize_def Let_def)
  qed
qed

theorem plugin_initialize_dynamic_fails_witness:
  "\<exists>self' w'. RTI_TSFM_TransformationPlugin_initialize assoc_lib (lseq_ops None) empty_lseq
      (test_plugin\<lparr>tp_config := None\<rparr>) [(''dll'', ''a.so'')] (empty_heap [] :: nat heap)
      = Inr (DDS_RETCODE_ERROR, self', w')"
proof -
  have "tp_config (test_plugin\<lparr>tp_config := None\<rparr>) = None" by simp
  from plugin_initialize_dynamic_fails [OF wf_empty_heap this] show ?thesis by blast
qed

text \<open>
  The outcome of a static initialisation without a configuration. A failure after the mutex
  was made has deleted the user's plugin, a failure of the mutex has not.
\<close>

definition static_outcome ::
  "('s \<Rightarrow> addr option list) \<Rightarrow> tsfm_lib \<Rightarrow> 'd user_plugin_object \<Rightarrow> 'd heap \<Rightarrow> retcode \<Rightarrow>
   ('s, 'd) RTI_TSFM_TransformationPlugin \<Rightarrow> 'd heap \<Rightarrow> bool" where
  "static_outcome elems lib up w r self' w' \<longleftrightarrow>
     (if r = DDS_RETCODE_OK
      then (\<exists>c. tp_config self' = Some c \<and> owned w [pc_addr c] w') \<and> tp_user_plugin self' = Some up
        \<and> elems (tp_transforms self') = [] \<and> (use_mutex lib \<longrightarrow> tp_lock self' = Mutex_Free)
      else tp_config self' = None
        \<and> (if use_mutex lib \<and> \<not> alloc_ok w then live w' = live w \<and> next_id w' = next_id w
           else live w' (uo_addr up) = None \<and> (\<forall>a < next_id w. a \<noteq> uo_addr up \<longrightarrow> live w' a = live w a)))"

lemma initialize_static_steps:
  assumes "seq_initialize ops def_transforms = (True, s)" and "\<not> use_mutex lib \<or> alloc_ok w"
  shows "RTI_TSFM_TransformationPlugin_initialize_static lib ops def_transforms self up None properties w
    = (let w1 = (if use_mutex lib then w\<lparr>sched := tl (sched w)\<rparr> else w);
           self1 = self\<lparr>tp_transforms := s, tp_user_plugin := Some up, tp_config := None,
             tp_lock := (if use_mutex lib then Mutex_Free else tp_lock self)\<rparr> in
       bindF (RTI_TSFM_TransformationPluginConfig_parse_from_properties_alloc lib properties None w1)
         (\<lambda>(r, config, w). if r \<noteq> DDS_RETCODE_OK
            then initialize_static_failed lib ops False (self1\<lparr>tp_config := config\<rparr>) w
            else Inr (DDS_RETCODE_OK, self1\<lparr>tp_config := config\<rparr>, w)))"
  using assms
  by (cases self; cases "use_mutex lib")
    (simp_all add: RTI_TSFM_TransformationPlugin_initialize_static_def RTI_TSFM_Mutex_initialize_def draw_def
      Let_def cong: if_cong)

lemma initialize_static_mutex_failed:
  assumes "use_mutex lib" and "\<not> alloc_ok w"
  shows "RTI_TSFM_TransformationPlugin_initialize_static lib ops def_transforms self up None properties w
    = Inr (DDS_RETCODE_ERROR, self\<lparr>tp_transforms := def_transforms, tp_user_plugin := Some up, tp_config := None,
        tp_lock := Mutex_Uninitialised\<rparr>, w\<lparr>sched := tl (sched w)\<rparr>)"
  using assms
  by (cases self)
    (simp add: RTI_TSFM_TransformationPlugin_initialize_static_def RTI_TSFM_Mutex_initialize_def draw_def Let_def)

lemma initialize_static_outcome:
  assumes "ptr_seq ops valid elems cap init" and "wf_ledger w" and "fst (seq_initialize ops def_transforms)"
    and "live w (uo_addr up) \<noteq> None" and "uo_has_delete up"
  shows "\<exists>r self' w'. RTI_TSFM_TransformationPlugin_initialize_static lib ops def_transforms self up None properties w
      = Inr (r, self', w') \<and> static_outcome elems lib up w r self' w'"
proof (cases "use_mutex lib \<and> \<not> alloc_ok w")
  case True
  then show ?thesis by (simp add: initialize_static_mutex_failed static_outcome_def)
next
  case False
  obtain s where s: "seq_initialize ops def_transforms = (True, s)" using assms(3) by (metis prod.collapse)
  then have buf: "valid s" "elems s = []" using ptr_seq.initialize_ok [OF assms(1)] by blast+
  from assms(1) have seq: "dds_seq ops valid elems cap" by (simp add: ptr_seq_def)
  have len: "seq_get_length ops s = 0" using dds_seq.get_length [OF seq buf(1)] buf(2) by simp
  define w1 where "w1 = (if use_mutex lib then w\<lparr>sched := tl (sched w)\<rparr> else w)"
  have w1: "live w1 = live w" "next_id w1 = next_id w" "wf_ledger w1"
    using assms(2) by (simp_all add: w1_def wf_ledger_def)
  define self1 where "self1 = self\<lparr>tp_transforms := s, tp_user_plugin := Some up, tp_config := None,
             tp_lock := (if use_mutex lib then Mutex_Free else tp_lock self)\<rparr>"
  obtain rp config wp where p: "RTI_TSFM_TransformationPluginConfig_parse_from_properties_alloc lib properties None w1
      = Inr (rp, config, wp)"
    and own: "if rp = DDS_RETCODE_OK then (\<exists>x. config = Some x \<and> owned w1 [pc_addr x] wp)
      else config = None \<and> untouched w1 wp"
    using pconfig.parse_fresh [OF w1(3)] by blast
  have run: "RTI_TSFM_TransformationPlugin_initialize_static lib ops def_transforms self up None properties w
      = (if rp \<noteq> DDS_RETCODE_OK then initialize_static_failed lib ops False (self1\<lparr>tp_config := config\<rparr>) wp
         else Inr (DDS_RETCODE_OK, self1\<lparr>tp_config := config\<rparr>, wp))"
    using initialize_static_steps [OF s, of lib w self up properties] False p
    by (simp add: w1_def self1_def Let_def)
  show ?thesis
  proof (cases "rp = DDS_RETCODE_OK")
    case True
    with own obtain x where "config = Some x" "owned w [pc_addr x] wp" using w1 by (auto simp: owned_def)
    with run True buf show ?thesis by (auto simp: static_outcome_def self1_def)
  next
    case rp: False
    have keep: "\<forall>a < next_id w. live wp a = live w a" and c: "config = None"
      using own rp w1 by (auto simp: untouched_def)
    have up: "live wp (uo_addr up) \<noteq> None"
      using keep assms(2,4) by (metis leI wf_ledger_def)
    have "\<exists>self' w'. RTI_TSFM_TransformationPlugin_finalize lib ops (self1\<lparr>tp_config := None\<rparr>) wp
        = Inr (DDS_RETCODE_OK, self', w') \<and> tp_config self' = None
        \<and> live w' = (live wp) |` (- {uo_addr up})"
      using plugin_finalize_ok [of ops "self1\<lparr>tp_config := None\<rparr>" lib up wp] len assms(5) up
      by (auto simp: self1_def)
    with run rp c keep False show ?thesis
      by (auto simp: static_outcome_def initialize_static_failed_def restrict_map_def)
  qed
qed

text \<open>
  Initialising a plugin with the user's functions, whatever allocations fail: it does
  not fault; a success owns a parsed configuration, has no transformation and, with
  mutexes, a free one; a failure frees the user's plugin, except when the mutex could not
  be made: then nothing is freed.
\<close>

theorem plugin_initialize_static:
  assumes "ptr_seq ops valid elems cap init" and "wf_ledger w" and "fst (seq_initialize ops def_transforms)"
    and "live w (uo_addr up) \<noteq> None" and "uo_has_delete up"
  shows "\<exists>r self' w'. RTI_TSFM_TransformationPlugin_initialize_static lib ops def_transforms self up None properties w
      = Inr (r, self', w') \<and> static_outcome elems lib up w r self' w'"
  using assms by (rule initialize_static_outcome)

theorem plugin_initialize_static_witness:
  "\<exists>r self' w'. RTI_TSFM_TransformationPlugin_initialize_static assoc_lib (lseq_ops None) empty_lseq
      (test_plugin\<lparr>tp_config := None\<rparr>) test_user_plugin None []
      (\<lparr>next_id = 1, live = [0 \<mapsto> UserPlugin_Block], sched = [True, False]\<rparr> :: nat heap)
      = Inr (r, self', w')
    \<and> static_outcome lseq_elems assoc_lib test_user_plugin
      (\<lparr>next_id = 1, live = [0 \<mapsto> UserPlugin_Block], sched = [True, False]\<rparr> :: nat heap) r self' w'"
  by (rule plugin_initialize_static [OF sample_seq.ptr_seq_axioms])
    (simp_all add: lseq_ops_def test_user_plugin_def wf_ledger_def)

end
