(* ===== verification/Tsfm_Template.thy ===== *)
theory Tsfm_Template
  imports Tsfm_Plugin
begin

text \<open>
  The template \<^verbatim>\<open>common/transformation/srcC/TransformationTemplateDefine.h\<close>, which a transformation
  plugin includes to get its entry points: the life cycle of the plugin and of its
  transformations, and the calls of the Routing Service, each under the mutex of its object.
  \<open>has_config\<close> and \<open>has_state\<close> tell whether the including file defines \<open>TConfig\<close> and \<open>TState\<close>;
  \<open>T_initialize\<close> is the function the file defines for the initialisation, if any. \<open>T_static\<close> is
  defined, \<open>TPluginConfig\<close> and \<open>TPluginState\<close> are not.
\<close>

section \<open>State and parameters\<close>

text \<open>\<open>T\<close>: the block, the user's configuration with the base configuration in it, the user's state.\<close>

record 's T =
  t_addr :: addr
  t_config :: "addr option"
  t_state :: "addr option"
  t_parent :: "'s RTI_TSFM_Transformation"

record ('s, 'd) TPlugin =
  p_addr :: addr
  p_parent :: "('s, 'd) RTI_TSFM_TransformationPlugin"

record ('s, 'd) template =
  has_config :: bool
  has_state :: bool
  TConfig_parse :: "rs_properties \<Rightarrow> RTI_TSFM_TransformationConfig \<Rightarrow> bool \<times> RTI_TSFM_TransformationConfig"
  t_lib :: tsfm_lib
  t_seq_ops :: "('s, addr option) seq_ops"
  t_seq_initializer :: 's
  t_functions :: "'d RTI_TSFM_UserTypePlugin"
  T_initialize :: "('s RTI_TSFM_Transformation \<Rightarrow> addr \<Rightarrow> string \<Rightarrow> rs_properties \<Rightarrow> 'd heap \<Rightarrow>
    fault + retcode \<times> 's RTI_TSFM_Transformation \<times> 'd heap) option"

section \<open>Transformations\<close>

definition T_delete :: "('s, 'd) template \<Rightarrow> 's T \<Rightarrow> 'd heap \<Rightarrow> fault + 'd heap" where
  "T_delete tm self w =
     bindF (release_opt (t_config self) w) (\<lambda>w.
     let self = (if t_config self = None then self
                 else self\<lparr>t_config := None, t_parent := (t_parent self)\<lparr>tr_config := None\<rparr>\<rparr>) in
     bindF (release_opt (t_state self) w) (\<lambda>w.
     bindF (RTI_TSFM_Transformation_finalize (t_lib tm) (t_seq_ops tm) (t_parent self) w) (\<lambda>(_, _, w).
     release (t_addr self) w)))"

text \<open>The end of \<open>T_new\<close> when the base was not initialised.\<close>

definition T_new_failed ::
  "addr \<Rightarrow> addr option \<Rightarrow> addr option \<Rightarrow> 'd heap \<Rightarrow> fault + retcode \<times> 's T option \<times> 'd heap" where
  "T_new_failed self state config w =
     bindF (release_opt state w) (\<lambda>w. bindF (release_opt config w) (\<lambda>w.
       bindF (release self w) (\<lambda>w. Inr (DDS_RETCODE_ERROR, None, w))))"

text \<open>
  The block comes from \<open>malloc\<close>: without \<open>TConfig\<close> nothing sets the configuration that the
  initialisation of the base reads. What a plugin does with its configuration beyond the part of the
  base is a function of it here; for the protobuf plugin, whose configuration has strings of its own
  and lies in memory that is not set, see \<open>Protobuf_Transformation\<close>.
\<close>

definition T_new ::
  "('s, 'd) template \<Rightarrow> addr \<Rightarrow> string \<Rightarrow> rs_properties \<Rightarrow> 'd heap \<Rightarrow> fault + retcode \<times> 's T option \<times> 'd heap" where
  "T_new tm plugin output_type properties w =
     (case alloc Transform_Block w of
        (None, w) \<Rightarrow> Inr (DDS_RETCODE_ERROR, None, w)
      | (Some self, w) \<Rightarrow>
          (let (state, w) = (if has_state tm then alloc State_Object w else (None, w)) in
           if has_state tm \<and> state = None then T_new_failed self None None w
           else if \<not> has_config tm then Inl Uninitialised
           else
             (case alloc UserConfig_Object w of
                (None, w) \<Rightarrow> T_new_failed self state None w
              | (Some config, w) \<Rightarrow>
                  (let (ok, parent_config) = TConfig_parse tm properties
                         \<lparr>tc_addr = config, tc_type = RTI_TSFM_TransformationKind_SERIALIZER,
                          tc_input_type = Some [], tc_output_type = Some []\<rparr> in
                   if \<not> ok then T_new_failed self state (Some config) w
                   else
                     bindF ((case T_initialize tm of
                               None \<Rightarrow> RTI_TSFM_Transformation_initialize (t_lib tm) (t_seq_ops tm) (t_seq_initializer tm)
                             | Some initialize \<Rightarrow> initialize)
                              \<lparr>tr_config = Some parent_config, tr_plugin = plugin, tr_tsupport = None,
                               tr_read_buffer = t_seq_initializer tm, tr_read_buffer_loaned = False,
                               tr_lock = Mutex_Uninitialised\<rparr> plugin output_type properties w)
                       (\<lambda>(r, parent, w).
                         if r \<noteq> DDS_RETCODE_OK then T_new_failed self state (Some config) w
                         else Inr (DDS_RETCODE_OK,
                                   Some \<lparr>t_addr = self, t_config = Some config, t_state = state, t_parent = parent\<rparr>, w))))))"

text \<open>
  Running an operation under a mutex, when the library is built with one: an operation returns at
  once when the mutex cannot be taken, and ignores what giving it returns.
\<close>

definition lock_if :: "tsfm_lib \<Rightarrow> RTI_TSFM_Mutex \<Rightarrow> fault + bool \<times> RTI_TSFM_Mutex" where
  "lock_if lib m =
     (if use_mutex lib then bindF (RTI_TSFM_Mutex_take lib m) (\<lambda>(r, m). Inr (r = DDS_RETCODE_OK, m))
      else Inr (True, m))"

definition unlock_if :: "tsfm_lib \<Rightarrow> RTI_TSFM_Mutex \<Rightarrow> fault + RTI_TSFM_Mutex" where
  "unlock_if lib m = (if use_mutex lib then bindF (RTI_TSFM_Mutex_give m) (\<lambda>(_, m). Inr m) else Inr m)"

definition T_transform ::
  "('s, 'd) template \<Rightarrow> 's T \<Rightarrow> ('d option \<times> bool) list \<Rightarrow> 'd heap \<Rightarrow>
   fault + 's T \<times> (addr option list \<times> nat) option \<times> 'd heap" where
  "T_transform tm self ins w =
     bindF (lock_if (t_lib tm) (tr_lock (t_parent self))) (\<lambda>(ok, m).
     if \<not> ok then Inr (self\<lparr>t_parent := (t_parent self)\<lparr>tr_lock := m\<rparr>\<rparr>, None, w) else
     bindF (RTI_TSFM_Transformation_transform (t_seq_ops tm) (t_functions tm) ((t_parent self)\<lparr>tr_lock := m\<rparr>) ins w)
       (\<lambda>(r, parent, out, w).
     bindF (unlock_if (t_lib tm) (tr_lock parent)) (\<lambda>m.
       Inr (self\<lparr>t_parent := parent\<lparr>tr_lock := m\<rparr>\<rparr>, out, w))))"

definition T_return_loan ::
  "('s, 'd) template \<Rightarrow> 's T \<Rightarrow> addr option list \<Rightarrow> nat \<Rightarrow> 'd heap \<Rightarrow> fault + 's T \<times> 'd heap" where
  "T_return_loan tm self sample_lst count w =
     bindF (lock_if (t_lib tm) (tr_lock (t_parent self))) (\<lambda>(ok, m).
     if \<not> ok then Inr (self\<lparr>t_parent := (t_parent self)\<lparr>tr_lock := m\<rparr>\<rparr>, w) else
     bindF (RTI_TSFM_Transformation_return_loan (t_functions tm) ((t_parent self)\<lparr>tr_lock := m\<rparr>) sample_lst count w)
       (\<lambda>(parent, w).
     bindF (unlock_if (t_lib tm) (tr_lock parent)) (\<lambda>m.
       Inr (self\<lparr>t_parent := parent\<lparr>tr_lock := m\<rparr>\<rparr>, w))))"

text \<open>Here the mutex is taken a second time where the other operations give it.\<close>

definition T_update :: "('s, 'd) template \<Rightarrow> 's T \<Rightarrow> rs_properties \<Rightarrow> fault + 's T" where
  "T_update tm self properties =
     bindF (lock_if (t_lib tm) (tr_lock (t_parent self))) (\<lambda>(ok, m).
     if \<not> ok then Inr (self\<lparr>t_parent := (t_parent self)\<lparr>tr_lock := m\<rparr>\<rparr>) else
     let _ = RTI_TSFM_Transformation_update (t_parent self) properties in
     bindF (lock_if (t_lib tm) m) (\<lambda>(_, m).
       Inr (self\<lparr>t_parent := (t_parent self)\<lparr>tr_lock := m\<rparr>\<rparr>)))"

section \<open>The plugin\<close>

definition TPlugin_new ::
  "('s, 'd) template \<Rightarrow> rs_properties \<Rightarrow> 'd heap \<Rightarrow> fault + retcode \<times> ('s, 'd) TPlugin option \<times> 'd heap" where
  "TPlugin_new tm properties w =
     (case alloc TPlugin_Block w of
        (None, w) \<Rightarrow> Inr (DDS_RETCODE_ERROR, None, w)
      | (Some self, w) \<Rightarrow>
          (case RTI_TSFM_UserTypePlugin_create_static (t_functions tm) w of
             (None, w) \<Rightarrow> bindF (release self w) (\<lambda>w. Inr (DDS_RETCODE_ERROR, None, w))
           | (Some user_plugin, w) \<Rightarrow>
               bindF (RTI_TSFM_TransformationPlugin_initialize_static (t_lib tm) (t_seq_ops tm)
                        (t_seq_initializer tm)
                        \<lparr>tp_transforms = t_seq_initializer tm, tp_config = None, tp_user_plugin = None,
                         tp_lock = Mutex_Uninitialised\<rparr> user_plugin None properties w)
                 (\<lambda>(r, parent, w).
                   if r \<noteq> DDS_RETCODE_OK
                   then bindF (RTI_TSFM_UserTypePlugin_delete_default user_plugin w) (\<lambda>w.
                          bindF (release self w) (\<lambda>w. Inr (DDS_RETCODE_ERROR, None, w)))
                   else Inr (DDS_RETCODE_OK, Some \<lparr>p_addr = self, p_parent = parent\<rparr>, w))))"

definition TPlugin_create ::
  "('s, 'd) template \<Rightarrow> rs_properties \<Rightarrow> 'd heap \<Rightarrow> fault + ('s, 'd) TPlugin option \<times> 'd heap" where
  "TPlugin_create tm properties w =
     bindF (TPlugin_new tm properties w) (\<lambda>(r, self, w).
       Inr (if r \<noteq> DDS_RETCODE_OK then None else self, w))"

definition TPlugin_delete :: "('s, 'd) template \<Rightarrow> ('s, 'd) TPlugin \<Rightarrow> 'd heap \<Rightarrow> fault + 'd heap" where
  "TPlugin_delete tm self w =
     bindF (RTI_TSFM_TransformationPlugin_finalize (t_lib tm) (t_seq_ops tm) (p_parent self) w) (\<lambda>(_, _, w).
       release (p_addr self) w)"

definition TPlugin_create_transformation ::
  "('s, 'd) template \<Rightarrow> ('s, 'd) TPlugin \<Rightarrow> string \<Rightarrow> rs_properties \<Rightarrow> 'd heap \<Rightarrow>
   fault + 's T option \<times> ('s, 'd) TPlugin \<times> 'd heap" where
  "TPlugin_create_transformation tm self output_type properties w =
     bindF (lock_if (t_lib tm) (tp_lock (p_parent self))) (\<lambda>(ok, m).
     let self = self\<lparr>p_parent := (p_parent self)\<lparr>tp_lock := m\<rparr>\<rparr> in
     if \<not> ok then Inr (None, self, w) else
     bindF (T_new tm (p_addr self) output_type properties w) (\<lambda>(r, transform, w).
     bindF (case transform of
              None \<Rightarrow> Inr (None, self, w)
            | Some t \<Rightarrow>
                (let (r, parent) = RTI_TSFM_TransformationPlugin_initialize_transformation (t_seq_ops tm)
                       (p_parent self) (t_addr t);
                     self = self\<lparr>p_parent := parent\<rparr> in
                 if r \<noteq> DDS_RETCODE_OK then bindF (T_delete tm t w) (\<lambda>w. Inr (None, self, w))
                 else Inr (Some t, self, w))) (\<lambda>(transform_out, self, w).
     bindF (unlock_if (t_lib tm) (tp_lock (p_parent self))) (\<lambda>m.
       Inr (transform_out, self\<lparr>p_parent := (p_parent self)\<lparr>tp_lock := m\<rparr>\<rparr>, w)))))"

definition TPlugin_delete_transformation ::
  "('s, 'd) template \<Rightarrow> ('s, 'd) TPlugin \<Rightarrow> 's T \<Rightarrow> 'd heap \<Rightarrow> fault + ('s, 'd) TPlugin \<times> 'd heap" where
  "TPlugin_delete_transformation tm self transform w =
     bindF (lock_if (t_lib tm) (tp_lock (p_parent self))) (\<lambda>(ok, m).
     if \<not> ok then Inr (self\<lparr>p_parent := (p_parent self)\<lparr>tp_lock := m\<rparr>\<rparr>, w) else
     let (r, parent) = RTI_TSFM_TransformationPlugin_finalize_transformation (t_seq_ops tm)
           ((p_parent self)\<lparr>tp_lock := m\<rparr>) (t_addr transform) in
     bindF (if r \<noteq> DDS_RETCODE_OK then Inr w else T_delete tm transform w) (\<lambda>w.
     bindF (unlock_if (t_lib tm) (tp_lock parent)) (\<lambda>m.
       Inr (self\<lparr>p_parent := parent\<lparr>tp_lock := m\<rparr>\<rparr>, w))))"

section \<open>Resources of a transformation\<close>

text \<open>
  The initialisation of the base with a configuration of the caller: a success adds the
  type support and nothing else, a failure keeps the ledger as it was.
\<close>

definition given_outcome ::
  "('s \<Rightarrow> bool) \<Rightarrow> ('s \<Rightarrow> addr option list) \<Rightarrow> ('s \<Rightarrow> nat) \<Rightarrow> tsfm_lib \<Rightarrow> string \<Rightarrow>
   RTI_TSFM_TransformationConfig \<Rightarrow> 'd heap \<Rightarrow> retcode \<Rightarrow> 's RTI_TSFM_Transformation \<Rightarrow> 'd heap \<Rightarrow> bool" where
  "given_outcome valid elems cap lib output_type c w r self' w' \<longleftrightarrow>
     (if r = DDS_RETCODE_OK
      then tr_tsupport self' = Some (next_id w) \<and> live w' = (live w)(next_id w \<mapsto> TypeSupport_Object)
        \<and> next_id w' = Suc (next_id w)
        \<and> tr_config self' = Some (c\<lparr>tc_output_type := Some output_type\<rparr>)
        \<and> valid (tr_read_buffer self') \<and> elems (tr_read_buffer self') = [] \<and> cap (tr_read_buffer self') = 0
        \<and> \<not> tr_read_buffer_loaned self' \<and> (use_mutex lib \<longrightarrow> tr_lock self' = Mutex_Free)
      else live w' = live w \<and> next_id w' = next_id w)"

lemma initialize_failed_given:
  assumes "ptr_seq ops valid elems cap init"
    and "valid (tr_read_buffer self)" and "elems (tr_read_buffer self) = []"
    and "use_mutex lib \<Longrightarrow> tr_lock self = Mutex_Free" and "tr_tsupport self = None"
  shows "\<exists>self'. initialize_failed lib ops False self w = Inr (DDS_RETCODE_ERROR, self', w)"
proof -
  have "\<exists>r self'. RTI_TSFM_Transformation_finalize lib ops (self\<lparr>tr_config := None\<rparr>) w = Inr (r, self', w)"
    using assms(2-5)
    by (intro ptr_seq.finalize_empty [OF assms(1)])
      (simp_all add: RTI_TSFM_TransformationConfig_delete_def release_opt_def)
  then show ?thesis by (auto simp: initialize_failed_def)
qed

lemma initialize_given:
  assumes "ptr_seq ops valid elems cap init" and "wf_ledger w" and "tr_config self = Some c"
    and "tc_output_type c = Some n" and "fst (seq_initialize ops def_buffer)"
  shows "\<exists>r self' w'. RTI_TSFM_Transformation_initialize lib ops def_buffer self plugin output_type properties w
        = Inr (r, self', w') \<and> given_outcome valid elems cap lib output_type c w r self' w'"
proof (rule initialize_start [OF assms(1,5), of w self lib plugin output_type properties])
  fix self0 w1
  assume "live w1 = live w" "next_id w1 = next_id w"
    "RTI_TSFM_Transformation_initialize lib ops def_buffer self plugin output_type properties w
      = Inr (DDS_RETCODE_ERROR, self0, w1)"
  then show ?thesis by (auto simp: given_outcome_def)
next
  fix self1 w1
  assume w1: "live w1 = live w" "next_id w1 = next_id w" and config: "tr_config self1 = tr_config self"
    and started: "started valid elems cap lib self1"
    and run: "RTI_TSFM_Transformation_initialize lib ops def_buffer self plugin output_type properties w
      = initialize_configured lib ops self1 output_type properties w1"
  have wf: "wf_ledger w1" using assms(2) w1 by (simp add: wf_ledger_def)
  show ?thesis
  proof (rule configured_run [OF wf assms(4), where self = self1 and lib = lib and properties = properties
        and start = w1 and ops = ops and output_type = output_type])
    fix name w'
    assume "live w' = live w1" "next_id w' = next_id w1"
      "initialize_configured lib ops self1 output_type properties w1 = initialize_failed lib ops (tr_config self1 = None)
        (self1\<lparr>tr_config := Some (c\<lparr>tc_output_type := name\<rparr>), tr_tsupport := None\<rparr>) w'"
    moreover have "\<exists>self'. initialize_failed lib ops False
        (self1\<lparr>tr_config := Some (c\<lparr>tc_output_type := name\<rparr>), tr_tsupport := None\<rparr>) w' = Inr (DDS_RETCODE_ERROR, self', w')"
      using started by (intro initialize_failed_given [OF assms(1)]) (simp_all add: started_def)
    ultimately show ?thesis using run w1 config assms(3) by (auto simp: given_outcome_def)
  qed (use run w1 started config assms(3) in \<open>auto simp: given_outcome_def started_def\<close>)
qed

text \<open>What a transformation owns: its block, the user's objects and the type support.\<close>

definition T_blocks :: "'s T \<Rightarrow> addr list" where
  "T_blocks t = opt_list (t_config t) @ opt_list (t_state t) @ opt_list (tr_tsupport (t_parent t)) @ [t_addr t]"

text \<open>A transformation that was made and not used: its buffer is empty and its mutex free.\<close>

definition T_unused ::
  "('s \<Rightarrow> bool) \<Rightarrow> ('s \<Rightarrow> addr option list) \<Rightarrow> ('s, 'd) template \<Rightarrow> 's T \<Rightarrow> bool" where
  "T_unused valid elems tm t \<longleftrightarrow>
     valid (tr_read_buffer (t_parent t)) \<and> elems (tr_read_buffer (t_parent t)) = [] \<and> t_config t \<noteq> None
     \<and> (use_mutex (t_lib tm) \<longrightarrow> tr_lock (t_parent t) = Mutex_Free)"

lemma T_delete_unused:
  assumes "ptr_seq (t_seq_ops tm) valid elems cap init" and "T_unused valid elems tm t"
    and "owns_exactly w (T_blocks t) w'"
  shows "\<exists>w''. T_delete tm t w' = Inr w'' \<and> live w'' = live w \<and> untouched w w''"
proof -
  have "owns_exactly w (T_blocks t @ []) w'" using assms(3) by simp
  then obtain w'' where rel: "release_all (T_blocks t) w' = Inr w''" and fin: "owns_exactly w [] w''"
    using owns_exactly_release by blast
  then obtain w1 w2 w3 where steps: "release_opt (t_config t) w' = Inr w1" "release_opt (t_state t) w1 = Inr w2"
      "release_opt (tr_tsupport (t_parent t)) w2 = Inr w3" "release (t_addr t) w3 = Inr w''"
    by (auto simp: T_blocks_def release_all_append release_opt_all bindF_eq_Inr release_all_single
        simp del: release_all.simps)
  have "\<exists>r self'. RTI_TSFM_Transformation_finalize (t_lib tm) (t_seq_ops tm)
      ((t_parent t)\<lparr>tr_config := None\<rparr>) w2 = Inr (r, self', w3)"
    using assms(2) steps(3)
    by (intro ptr_seq.finalize_empty [OF assms(1)])
      (simp_all add: T_unused_def RTI_TSFM_TransformationConfig_delete_def)
  then have "T_delete tm t w' = Inr w''"
    using steps assms(2) by (auto simp: T_delete_def T_unused_def Let_def)
  then show ?thesis using owns_exactly_nothing [OF fin] by simp
qed

lemma T_new_failed_owns:
  assumes "owns_exactly w ((opt_list state @ opt_list config @ [self]) @ bs) w1"
  shows "\<exists>w'. T_new_failed self state config w1 = Inr (DDS_RETCODE_ERROR, None, w') \<and> owns_exactly w bs w'
    \<and> (\<forall>b \<in> set bs. live w' b = live w1 b)"
proof -
  obtain w' where "release_all (opt_list state @ opt_list config @ [self]) w1 = Inr w'" and "owns_exactly w bs w'"
    and "\<forall>b \<in> set bs. live w' b = live w1 b"
    using owns_exactly_release_kinds [OF assms] by blast
  then show ?thesis
    by (auto simp: T_new_failed_def release_all_append release_opt_all bindF_eq_Inr release_all_single
        simp del: release_all.simps)
qed

lemma T_new_failed_restores:
  assumes "owns_exactly w (opt_list state @ opt_list config @ [self]) w1"
  shows "\<exists>w'. T_new_failed self state config w1 = Inr (DDS_RETCODE_ERROR, None, w') \<and> live w' = live w"
  using T_new_failed_owns [of w state config self "[]" w1] assms owns_exactly_nothing by auto

text \<open>The user's parser of a template: it keeps an output type in the configuration.\<close>

definition parser_keeps_type :: "('s, 'd) template \<Rightarrow> bool" where
  "parser_keeps_type tm \<longleftrightarrow> (\<forall>properties c c'. TConfig_parse tm properties c = (True, c') \<longrightarrow>
     tc_output_type c \<noteq> None \<longrightarrow> tc_output_type c' \<noteq> None)"

text \<open>
  A plugin may define \<open>T_initialize\<close>; it calls the initialisation of the base and then does a part of
  its own, which keeps the base and leaves no resource of its own on the ledger.
\<close>

abbreviation base_initialize ::
  "('s, 'd) template \<Rightarrow> 's RTI_TSFM_Transformation \<Rightarrow> addr \<Rightarrow> string \<Rightarrow> rs_properties \<Rightarrow> 'd heap \<Rightarrow>
   fault + retcode \<times> 's RTI_TSFM_Transformation \<times> 'd heap" where
  "base_initialize tm \<equiv> RTI_TSFM_Transformation_initialize (t_lib tm) (t_seq_ops tm) (t_seq_initializer tm)"

definition extends_base :: "('s, 'd) template \<Rightarrow> bool" where
  "extends_base tm \<longleftrightarrow> (\<forall>initialize. T_initialize tm = Some initialize \<longrightarrow>
     (\<forall>parent plugin output_type properties w r parent' w'.
        base_initialize tm parent plugin output_type properties w = Inr (r, parent', w') \<longrightarrow>
        (if r = DDS_RETCODE_OK
         then \<exists>r' w''. initialize parent plugin output_type properties w = Inr (r', parent', w'')
                \<and> live w'' = live w' \<and> next_id w'' = next_id w'
         else initialize parent plugin output_type properties w = Inr (r, parent', w'))))"

text \<open>
  What a failure to make a transformation leaves: nothing, or, when the part of the plugin failed, the
  type support of the base.
\<close>

definition left_by_failure :: "('s, 'd) template \<Rightarrow> 'd heap \<Rightarrow> 'd heap \<Rightarrow> bool" where
  "left_by_failure tm w w' \<longleftrightarrow> live w' = live w
     \<or> T_initialize tm \<noteq> None \<and> (\<exists>ts. live w ts = None \<and> live w' = (live w)(ts \<mapsto> TypeSupport_Object))"

lemma initialize_extended:
  assumes "ptr_seq (t_seq_ops tm) valid elems cap init" and "fst (seq_initialize (t_seq_ops tm) (t_seq_initializer tm))"
    and "extends_base tm" and "wf_ledger w" and "tr_config self = Some c" and "tc_output_type c = Some n"
  obtains (ok) parent w' where "(case T_initialize tm of None \<Rightarrow> base_initialize tm | Some initialize \<Rightarrow> initialize)
        self plugin output_type properties w = Inr (DDS_RETCODE_OK, parent, w')"
      "given_outcome valid elems cap (t_lib tm) output_type c w DDS_RETCODE_OK parent w'"
    | (failed) r parent w' where "(case T_initialize tm of None \<Rightarrow> base_initialize tm | Some initialize \<Rightarrow> initialize)
        self plugin output_type properties w = Inr (r, parent, w')" "r \<noteq> DDS_RETCODE_OK"
      "live w' = live w" "next_id w' = next_id w"
    | (leaked) r parent w' where "(case T_initialize tm of None \<Rightarrow> base_initialize tm | Some initialize \<Rightarrow> initialize)
        self plugin output_type properties w = Inr (r, parent, w')" "r \<noteq> DDS_RETCODE_OK" "T_initialize tm \<noteq> None"
      "live w' = (live w)(next_id w \<mapsto> TypeSupport_Object)" "next_id w' = Suc (next_id w)"
proof -
  obtain r parent w1 where base: "base_initialize tm self plugin output_type properties w = Inr (r, parent, w1)"
    and out: "given_outcome valid elems cap (t_lib tm) output_type c w r parent w1"
    using initialize_given [OF assms(1,4,5,6,2)] by blast
  show thesis
  proof (cases "T_initialize tm")
    case None
    then show ?thesis using base out ok failed by (cases "r = DDS_RETCODE_OK") (auto simp: given_outcome_def)
  next
    case (Some initialize)
    show ?thesis
    proof (cases "r = DDS_RETCODE_OK")
      case True
      obtain r' w2 where own: "initialize self plugin output_type properties w = Inr (r', parent, w2)"
        "live w2 = live w1" "next_id w2 = next_id w1"
        using assms(3) Some base True unfolding extends_base_def by (metis (no_types, lifting))
      then have "given_outcome valid elems cap (t_lib tm) output_type c w DDS_RETCODE_OK parent w2"
        using out True by (simp add: given_outcome_def)
      then show ?thesis
        using own Some out True ok leaked by (cases "r' = DDS_RETCODE_OK") (auto simp: given_outcome_def)
    next
      case False
      have "initialize self plugin output_type properties w = Inr (r, parent, w1)"
        using assms(3) Some base False unfolding extends_base_def by (metis (no_types, lifting))
      then show ?thesis using Some out False failed by (auto simp: given_outcome_def)
    qed
  qed
qed

lemma T_new_initialize:
  assumes "ptr_seq (t_seq_ops tm) valid elems cap init" and "fst (seq_initialize (t_seq_ops tm) (t_seq_initializer tm))"
    and "extends_base tm" and "owns_exactly w (config # opt_list state @ [self]) w1" and "tc_output_type pc = Some n"
  shows "\<exists>r t w'. bindF ((case T_initialize tm of None \<Rightarrow> base_initialize tm | Some initialize \<Rightarrow> initialize)
        \<lparr>tr_config = Some pc, tr_plugin = plugin, tr_tsupport = None, tr_read_buffer = t_seq_initializer tm,
         tr_read_buffer_loaned = False, tr_lock = Mutex_Uninitialised\<rparr> plugin output_type properties w1)
      (\<lambda>(r, parent, w). if r \<noteq> DDS_RETCODE_OK then T_new_failed self state (Some config) w
         else Inr (DDS_RETCODE_OK,
           Some \<lparr>t_addr = self, t_config = Some config, t_state = state, t_parent = parent\<rparr>, w))
      = Inr (r, t, w')
    \<and> (if r = DDS_RETCODE_OK then \<exists>x. t = Some x \<and> owns_exactly w (T_blocks x) w' \<and> T_unused valid elems tm x
       else t = None \<and> left_by_failure tm w w')"
proof -
  let ?base = "\<lparr>tr_config = Some pc, tr_plugin = plugin, tr_tsupport = None, tr_read_buffer = t_seq_initializer tm,
         tr_read_buffer_loaned = False, tr_lock = Mutex_Uninitialised\<rparr>"
  have base: "tr_config ?base = Some pc" by simp
  have acquired: "owns_exactly w (next_id w1 # config # opt_list state @ [self]) w2"
    if "live w2 = (live w1)(next_id w1 \<mapsto> TypeSupport_Object)" "next_id w2 = Suc (next_id w1)" for w2 :: "'b heap"
    using owns_exactly_acquire [OF assms(4), of TypeSupport_Object "next_id w1" "snd (acquire TypeSupport_Object w1)"]
      owns_exactly_cong [of w2 "snd (acquire TypeSupport_Object w1)" w] that by (simp add: acquire_def)
  show ?thesis
  proof (rule initialize_extended [OF assms(1-3) owns_exactly_wf [OF assms(4)] base assms(5), of plugin output_type properties])
    fix parent w2
    assume run: "(case T_initialize tm of None \<Rightarrow> base_initialize tm | Some initialize \<Rightarrow> initialize)
        ?base plugin output_type properties w1 = Inr (DDS_RETCODE_OK, parent, w2)"
      and out: "given_outcome valid elems cap (t_lib tm) output_type pc w1 DDS_RETCODE_OK parent w2"
    have own: "owns_exactly w (next_id w1 # config # opt_list state @ [self]) w2"
      using acquired out by (simp add: given_outcome_def)
    have ts: "tr_tsupport parent = Some (next_id w1)" using out by (simp add: given_outcome_def)
    have "owns_exactly w (T_blocks \<lparr>t_addr = self, t_config = Some config, t_state = state, t_parent = parent\<rparr>) w2"
      by (rule owns_exactly_perm [OF own]; use owns_exactly_distinct [OF own] ts in \<open>cases state\<close>)
        (auto simp: T_blocks_def)
    then show ?thesis using run out by (simp add: T_unused_def given_outcome_def)
  next
    fix r parent w2
    assume run: "(case T_initialize tm of None \<Rightarrow> base_initialize tm | Some initialize \<Rightarrow> initialize)
        ?base plugin output_type properties w1 = Inr (r, parent, w2)" "r \<noteq> DDS_RETCODE_OK"
      and w2: "live w2 = live w1" "next_id w2 = next_id w1"
    have own: "owns_exactly w (config # opt_list state @ [self]) w2"
      using assms(4) owns_exactly_cong [of w2 w1 w] w2 by simp
    have "owns_exactly w (opt_list state @ opt_list (Some config) @ [self]) w2"
      by (rule owns_exactly_perm [OF own]; use owns_exactly_distinct [OF own] in \<open>cases state\<close>) auto
    from T_new_failed_restores [OF this] show ?thesis using run by (auto simp: left_by_failure_def)
  next
    fix r parent w2
    assume run: "(case T_initialize tm of None \<Rightarrow> base_initialize tm | Some initialize \<Rightarrow> initialize)
        ?base plugin output_type properties w1 = Inr (r, parent, w2)" "r \<noteq> DDS_RETCODE_OK" "T_initialize tm \<noteq> None"
      and w2: "live w2 = (live w1)(next_id w1 \<mapsto> TypeSupport_Object)" "next_id w2 = Suc (next_id w1)"
    note own = acquired [OF w2]
    have "owns_exactly w ((opt_list state @ opt_list (Some config) @ [self]) @ [next_id w1]) w2"
      by (rule owns_exactly_perm [OF own]; use owns_exactly_distinct [OF own] in \<open>cases state\<close>) auto
    from T_new_failed_owns [OF this] obtain w3 where
      f: "T_new_failed self state (Some config) w2 = Inr (DDS_RETCODE_ERROR, None :: 'a T option, w3)"
      and "owns_exactly w [next_id w1] w3" "live w3 (next_id w1) = Some TypeSupport_Object" using w2(1) by auto
    then have "left_by_failure tm w w3" using owns_exactly_one run(3) by (fastforce simp: left_by_failure_def)
    then show ?thesis
      by (intro exI [of _ DDS_RETCODE_ERROR] exI [of _ None] exI [of _ w3]) (use run f in auto)
  qed
qed

lemma T_new_parse:
  assumes "ptr_seq (t_seq_ops tm) valid elems cap init" and "fst (seq_initialize (t_seq_ops tm) (t_seq_initializer tm))"
    and "has_config tm \<and> extends_base tm" and "parser_keeps_type tm"
    and "alloc Transform_Block w = (Some self, w1)"
    and "(if has_state tm then alloc State_Object w1 else (None, w1)) = (state, w2)"
    and "\<not> (has_state tm \<and> state = None)" and "alloc UserConfig_Object w2 = (Some config, w3)"
    and "owns_exactly w (config # opt_list state @ [self]) w3"
  shows "\<exists>r t w'. T_new tm plugin output_type properties w = Inr (r, t, w')
    \<and> (if r = DDS_RETCODE_OK then \<exists>x. t = Some x \<and> owns_exactly w (T_blocks x) w' \<and> T_unused valid elems tm x
       else t = None \<and> left_by_failure tm w w')"
proof -
  let ?c = "\<lparr>tc_addr = config, tc_type = RTI_TSFM_TransformationKind_SERIALIZER,
                      tc_input_type = Some [], tc_output_type = Some []\<rparr>"
  obtain ok pc where pc: "TConfig_parse tm properties ?c = (ok, pc)" by fastforce
  show ?thesis
  proof (cases ok)
    case False
    then have new: "T_new tm plugin output_type properties w = T_new_failed self state (Some config) w3"
      using assms(3,5-8) pc by (auto simp: T_new_def)
    have "owns_exactly w (opt_list state @ opt_list (Some config) @ [self]) w3"
      by (rule owns_exactly_perm [OF assms(9)]; use owns_exactly_distinct [OF assms(9)] in \<open>cases state\<close>) auto
    from T_new_failed_restores [OF this] show ?thesis unfolding new by (auto simp: left_by_failure_def)
  next
    case True
    then obtain n where n: "tc_output_type pc = Some n"
      using assms(4) pc by (fastforce simp: parser_keeps_type_def)
    show ?thesis
      using T_new_initialize [OF assms(1,2) _ assms(9) n] assms(3,5-8) pc True by (auto simp: T_new_def)
  qed
qed

lemma T_new_outcome:
  assumes "ptr_seq (t_seq_ops tm) valid elems cap init" and "fst (seq_initialize (t_seq_ops tm) (t_seq_initializer tm))"
    and "wf_ledger w" and "has_config tm \<and> extends_base tm" and "parser_keeps_type tm"
  shows "\<exists>r t w'. T_new tm plugin output_type properties w = Inr (r, t, w')
    \<and> (if r = DDS_RETCODE_OK then \<exists>x. t = Some x \<and> owns_exactly w (T_blocks x) w' \<and> T_unused valid elems tm x
       else t = None \<and> left_by_failure tm w w')"
proof -
  obtain p w1 where a1: "alloc Transform_Block w = (p, w1)" by fastforce
  have own1: "owns_exactly w (opt_list p) w1"
    using owns_exactly_alloc [OF owns_exactly_start [OF assms(3)] a1] by simp
  show ?thesis
  proof (cases p)
    case None
    then show ?thesis using a1 own1 by (simp add: T_new_def owns_exactly_nothing left_by_failure_def)
  next
    case (Some self)
    obtain state w2 where a2: "(if has_state tm then alloc State_Object w1 else (None, w1)) = (state, w2)" by fastforce
    have own2: "owns_exactly w (opt_list state @ [self]) w2"
      using own1 Some a2 owns_exactly_alloc [of w "[self]" w1 State_Object state w2]
      by (cases "has_state tm") auto
    obtain q w3 where a3: "alloc UserConfig_Object w2 = (q, w3)" by fastforce
    have own3: "owns_exactly w (opt_list q @ opt_list state @ [self]) w3"
      using owns_exactly_alloc [OF own2 a3] .
    consider (state) "has_state tm" "state = None" | (config) "\<not> (has_state tm \<and> state = None)" "q = None"
      | (parse) config where "\<not> (has_state tm \<and> state = None)" "q = Some config" by fastforce
    then show ?thesis
    proof cases
      case state
      then show ?thesis
        using a1 a2 Some T_new_failed_restores [of w None None self w2] own2 by (auto simp: T_new_def left_by_failure_def)
    next
      case config
      then have new: "T_new tm plugin output_type properties w = T_new_failed self state None w3"
        using a1 a2 a3 Some assms(4) by (auto simp: T_new_def)
      show ?thesis
        using T_new_failed_restores [of w state None self w3] own3 config(2) unfolding new by (auto simp: left_by_failure_def)
    next
      case (parse config)
      show ?thesis
        by (rule T_new_parse [OF assms(1,2,4,5), of w self w1 state w2 config w3]) (use a1 a2 a3 own3 Some parse in simp_all)
    qed
  qed
qed

lemma base_initialize_ok:
  assumes "sched w = []" and "fst (seq_initialize ops buffer)" and "tr_config self = Some c"
    and "tc_output_type c = Some output_type" and "output_type \<noteq> []"
  shows "\<exists>self'. RTI_TSFM_Transformation_initialize lib ops buffer self plugin output_type properties w =
    Inr (DDS_RETCODE_OK, self', w\<lparr>next_id := Suc (next_id w), live := (live w)(next_id w \<mapsto> TypeSupport_Object)\<rparr>)"
  using assms
  by (cases w) (auto simp: RTI_TSFM_Transformation_initialize_def initialize_configured_def RTI_TSFM_Mutex_initialize_def draw_def alloc_ok_def
      RTI_TSFM_Transformation_create_type_support_def alloc_sched_Nil Let_def split: prod.splits)

section \<open>Properties\<close>


text \<open>Without \<open>TConfig\<close> the base reads a configuration that nothing has set.\<close>

lemma T_new_without_config:
  assumes "\<not> has_config tm" and "\<not> has_state tm" and "alloc_ok w"
  shows "T_new tm plugin output_type properties w = Inl Uninitialised"
  using assms by (auto simp: T_new_def alloc_def acquire_def)

definition test_template :: "(addr option lseq, nat) template" where
  "test_template = \<lparr>has_config = True, has_state = True,
     TConfig_parse = (\<lambda>properties c. case map_of properties ''output_type'' of
       None \<Rightarrow> (False, c) | Some name \<Rightarrow> (True, c\<lparr>tc_output_type := Some name\<rparr>)),
     t_lib = assoc_lib, t_seq_ops = lseq_ops None, t_seq_initializer = empty_lseq, t_functions = succ_plugin,
     T_initialize = None\<rparr>"

lemma test_template_sel [simp]:
  "has_config test_template" "T_initialize test_template = None" "has_state test_template" "t_lib test_template = assoc_lib"
  "t_seq_ops test_template = lseq_ops None" "t_seq_initializer test_template = empty_lseq"
  "t_functions test_template = succ_plugin" "use_mutex assoc_lib" "take_ok assoc_lib"
  by (simp_all add: test_template_def assoc_lib_def)

lemma test_template_laws:
  "ptr_seq (t_seq_ops test_template) lseq_wf lseq_elems lseq_cap RTI_TSFM_DDS_DynamicDataPtr_initialize_w_params"
  "fst (seq_initialize (t_seq_ops test_template) (t_seq_initializer test_template))"
  "parser_keeps_type test_template"
  using sample_seq.ptr_seq_axioms
  by (auto simp: lseq_ops_def parser_keeps_type_def test_template_def split: option.splits)

text \<open>A plugin whose own part fails.\<close>

definition refusing_initialize ::
  "addr option lseq RTI_TSFM_Transformation \<Rightarrow> addr \<Rightarrow> string \<Rightarrow> rs_properties \<Rightarrow> nat heap \<Rightarrow>
   fault + retcode \<times> addr option lseq RTI_TSFM_Transformation \<times> nat heap" where
  "refusing_initialize parent plugin output_type properties w =
     bindF (RTI_TSFM_Transformation_initialize assoc_lib (lseq_ops None) empty_lseq parent plugin output_type properties w)
       (\<lambda>(r, parent, w). Inr (if r = DDS_RETCODE_OK then DDS_RETCODE_ERROR else r, parent, w))"

definition refusing_template :: "(addr option lseq, nat) template" where
  "refusing_template = test_template\<lparr>T_initialize := Some refusing_initialize\<rparr>"

lemma refusing_template_sel:
  "has_config refusing_template" "T_initialize refusing_template = Some refusing_initialize"
  "t_lib refusing_template = assoc_lib" "t_seq_ops refusing_template = lseq_ops None"
  "t_seq_initializer refusing_template = empty_lseq" "TConfig_parse refusing_template = TConfig_parse test_template"
  by (simp_all add: refusing_template_def)

lemma refusing_template_laws:
  "ptr_seq (t_seq_ops refusing_template) lseq_wf lseq_elems lseq_cap RTI_TSFM_DDS_DynamicDataPtr_initialize_w_params"
  "fst (seq_initialize (t_seq_ops refusing_template) (t_seq_initializer refusing_template))"
  "has_config refusing_template \<and> extends_base refusing_template" "parser_keeps_type refusing_template"
  using test_template_laws
  by (auto simp: extends_base_def refusing_template_sel refusing_initialize_def parser_keeps_type_def)


lemma transform_keeps_lock:
  assumes "RTI_TSFM_Transformation_transform ops up self ins w = Inr (r, self', out, w')"
  shows "tr_lock self' = tr_lock self"
  using assms
  by (auto simp: RTI_TSFM_Transformation_transform_def Let_def bindF_eq_Inr
      split: option.splits prod.splits if_splits)

lemma return_loan_keeps_lock:
  "RTI_TSFM_Transformation_return_loan up self lst n w = Inr (self', w') \<Longrightarrow> tr_lock self' = tr_lock self"
  by (auto simp: RTI_TSFM_Transformation_return_loan_def bindF_eq_Inr split: if_splits)

text \<open>
  Transforming and returning a loan leave the mutex as they found it, free, on every
  path, error paths included: the lock is taken once and given once.
\<close>

theorem entry_points_give_lock:
  assumes "tr_lock (t_parent self) = Mutex_Free"
  shows "(\<forall>self' out w'. T_transform tm self ins w = Inr (self', out, w') \<longrightarrow> tr_lock (t_parent self') = Mutex_Free)
    \<and> (\<forall>self' w'. T_return_loan tm self lst n w = Inr (self', w') \<longrightarrow> tr_lock (t_parent self') = Mutex_Free)"
  using assms transform_keeps_lock return_loan_keeps_lock
  by (cases "use_mutex (t_lib tm)"; cases "take_ok (t_lib tm)")
    (fastforce simp: T_transform_def T_return_loan_def lock_if_def unlock_if_def RTI_TSFM_Mutex_take_def
      RTI_TSFM_Mutex_give_def bindF_eq_Inr)+

text \<open>
  With mutexes, updating a transformation takes the mutex again while it holds it, where the other
  entry points give it.
\<close>

lemma T_update_takes_twice:
  assumes "use_mutex (t_lib tm)" and "take_ok (t_lib tm)" and "tr_lock (t_parent self) = Mutex_Free"
  shows "T_update tm self properties = Inl Undefined_Behaviour"
  using assms by (simp add: T_update_def lock_if_def RTI_TSFM_Mutex_take_def)

definition test_T :: "addr option lseq T" where
  "test_T = \<lparr>t_addr = 5, t_config = Some 6, t_state = Some 7, t_parent = test_transformation\<rparr>"

theorem entry_points_give_lock_witness:
  "\<exists>self' out w'. T_transform test_template test_T [(None, False), (Some 5, True)] test_heap = Inr (self', out, w')
    \<and> tr_lock (t_parent self') = Mutex_Free"
proof -
  have "tr_lock (t_parent test_T) = Mutex_Free" by (simp add: test_T_def test_transformation_def)
  note lock = entry_points_give_lock [OF this]
  have "\<exists>r parent out w'. RTI_TSFM_Transformation_transform (lseq_ops None) succ_plugin
      (test_transformation\<lparr>tr_lock := Mutex_Held\<rparr>) [(None, False), (Some 5, True)] test_heap = Inr (r, parent, out, w')
      \<and> tr_lock parent = Mutex_Held"
    by (simp add: RTI_TSFM_Transformation_transform_def test_transformation_def test_heap_def lseq_ops_def
        empty_lseq_def lseq_resize_def output_sample_def run_user_plugin_def succ_plugin_def alloc_def
        alloc_ok_def acquire_def Let_def replicate_two)
  then obtain self' out w' where "T_transform test_template test_T [(None, False), (Some 5, True)] test_heap
      = Inr (self', out, w')"
    by (auto simp: T_transform_def lock_if_def unlock_if_def RTI_TSFM_Mutex_take_def RTI_TSFM_Mutex_give_def
        test_T_def test_transformation_def)
  with lock show ?thesis by blast
qed

text \<open>
  When the plugin's configuration cannot be parsed, making the plugin frees the user's
  plugin twice: the failed initialisation has freed it already. This is the case for every
  failure but one, that of the mutex.
\<close>

theorem TPlugin_new_double_free:
  assumes "ptr_seq (t_seq_ops tm) valid elems cap init"
    and "fst (seq_initialize (t_seq_ops tm) (t_seq_initializer tm))" and "wf_ledger w"
    and "alloc TPlugin_Block w = (Some self, w1)"
    and "RTI_TSFM_UserTypePlugin_create_static (t_functions tm) w1 = (Some up, w2)"
    and "RTI_TSFM_TransformationPlugin_initialize_static (t_lib tm) (t_seq_ops tm) (t_seq_initializer tm)
           \<lparr>tp_transforms = t_seq_initializer tm, tp_config = None, tp_user_plugin = None,
            tp_lock = Mutex_Uninitialised\<rparr> up None properties w2 = Inr (DDS_RETCODE_ERROR, parent, w3)"
    and "\<not> use_mutex (t_lib tm) \<or> alloc_ok w2"
  shows "TPlugin_new tm properties w = Inl Double_Free"
proof -
  have wf1: "wf_ledger w1" using wf_ledger_alloc [OF assms(3,4)] .
  obtain a where "alloc UserPlugin_Block w1 = (Some a, w2)" and up: "uo_addr up = a" "uo_has_delete up"
    using assms(5) by (auto simp: RTI_TSFM_UserTypePlugin_create_static_def split: prod.splits option.splits)
  then have w2: "live w2 (uo_addr up) \<noteq> None" "wf_ledger w2"
    using wf_ledger_alloc [OF wf1] by (auto simp: alloc_def acquire_def split: if_splits)
  have "static_outcome elems (t_lib tm) up w2 DDS_RETCODE_ERROR parent w3"
    using initialize_static_outcome [OF assms(1) w2(2) assms(2) w2(1) up(2), of "t_lib tm"
        "\<lparr>tp_transforms = t_seq_initializer tm, tp_config = None, tp_user_plugin = None,
          tp_lock = Mutex_Uninitialised\<rparr>" properties] assms(6) by auto
  then have "live w3 (uo_addr up) = None" using assms(7) by (auto simp: static_outcome_def)
  then show ?thesis
    using assms(4,5,6) by (simp add: TPlugin_new_def RTI_TSFM_UserTypePlugin_delete_default_def release_def)
qed

theorem TPlugin_new_double_free_witness:
  "TPlugin_new test_template [] (empty_heap [True, True, True, False] :: nat heap) = Inl Double_Free"
proof -
  let ?w1 = "\<lparr>next_id = 1, live = [0 \<mapsto> TPlugin_Block], sched = [True, True, False]\<rparr> :: nat heap"
  let ?w2 = "\<lparr>next_id = 2, live = [0 \<mapsto> TPlugin_Block, 1 \<mapsto> UserPlugin_Block], sched = [True, False]\<rparr> :: nat heap"
  let ?up = "\<lparr>uo_addr = 1, uo_functions = succ_plugin, uo_has_delete = True\<rparr>"
  have a: "alloc TPlugin_Block (empty_heap [True, True, True, False] :: nat heap) = (Some 0, ?w1)"
    and u: "RTI_TSFM_UserTypePlugin_create_static succ_plugin ?w1 = (Some ?up, ?w2)"
    by (simp_all add: alloc_def alloc_ok_def acquire_def empty_heap_def
        RTI_TSFM_UserTypePlugin_create_static_def)
  have i: "\<exists>parent w3. RTI_TSFM_TransformationPlugin_initialize_static assoc_lib (lseq_ops None) empty_lseq
      \<lparr>tp_transforms = empty_lseq, tp_config = None, tp_user_plugin = None, tp_lock = Mutex_Uninitialised\<rparr>
      ?up None [] ?w2 = Inr (DDS_RETCODE_ERROR, parent, w3)"
    by (simp add: initialize_static_steps [of _ _ empty_lseq] alloc_ok_def lseq_ops_def Let_def
        RTI_TSFM_TransformationPluginConfig_parse_from_properties_alloc_def
        RTI_TSFM_TransformationPluginConfig_default_def RTI_TSFM_TransformationPluginConfig_new_def alloc_def
        initialize_static_failed_def RTI_TSFM_TransformationPlugin_finalize_def
        RTI_TSFM_UserTypePlugin_delete_default_def RTI_TSFM_TransformationPluginConfig_delete_def release_def
        RTI_TSFM_Mutex_finalize_def empty_lseq_def)
  then obtain parent w3 where "RTI_TSFM_TransformationPlugin_initialize_static (t_lib test_template)
      (t_seq_ops test_template) (t_seq_initializer test_template)
      \<lparr>tp_transforms = t_seq_initializer test_template, tp_config = None, tp_user_plugin = None,
       tp_lock = Mutex_Uninitialised\<rparr> ?up None [] ?w2 = Inr (DDS_RETCODE_ERROR, parent, w3)" by auto
  from TPlugin_new_double_free [OF test_template_laws(1,2) wf_empty_heap a _ this] u
  show ?thesis by (simp add: alloc_ok_def)
qed

text \<open>
  Deleting a plugin that still has transformations frees its block only: the base
  refuses to be finalised, the error is ignored, and the user's plugin, the configuration
  and the transformations are left behind, with nothing leading to them.
\<close>

theorem TPlugin_delete_leaks:
  assumes "dds_seq (t_seq_ops tm) valid elems cap" and "valid (tp_transforms (p_parent self))"
    and "elems (tp_transforms (p_parent self)) \<noteq> []" and "live w (p_addr self) \<noteq> None"
  shows "TPlugin_delete tm self w = Inr (w\<lparr>live := (live w)(p_addr self := None)\<rparr>)"
proof -
  have "unat (seq_get_length (t_seq_ops tm) (tp_transforms (p_parent self))) \<noteq> 0"
    using dds_seq.unat_get_length [OF assms(1,2)] assms(3) by simp
  then have "seq_get_length (t_seq_ops tm) (tp_transforms (p_parent self)) > 0"
    by (metis unat_0 word_neq_0_conv)
  then show ?thesis
    using assms(4) by (auto simp: TPlugin_delete_def RTI_TSFM_TransformationPlugin_finalize_def release_def)
qed

theorem TPlugin_delete_leaks_witness:
  "TPlugin_delete test_template \<lparr>p_addr = 2, p_parent = test_plugin\<lparr>tp_transforms :=
       \<lparr>l_mem = [Some 3], l_len = 1, l_loaned = False\<rparr>\<rparr>\<rparr>
     \<lparr>next_id = 4, live = [0 \<mapsto> UserPlugin_Block, 1 \<mapsto> PluginConfig_Block, 2 \<mapsto> TPlugin_Block, 3 \<mapsto> Transform_Block],
      sched = []\<rparr>
   = Inr \<lparr>next_id = 4, live = [0 \<mapsto> UserPlugin_Block, 1 \<mapsto> PluginConfig_Block, 3 \<mapsto> Transform_Block], sched = []\<rparr>"
  using TPlugin_delete_leaks [of test_template lseq_wf lseq_elems lseq_cap
      "\<lparr>p_addr = 2, p_parent = test_plugin\<lparr>tp_transforms := \<lparr>l_mem = [Some 3], l_len = 1, l_loaned = False\<rparr>\<rparr>\<rparr>"
      "\<lparr>next_id = 4, live = [0 \<mapsto> UserPlugin_Block, 1 \<mapsto> PluginConfig_Block, 2 \<mapsto> TPlugin_Block, 3 \<mapsto> Transform_Block],
        sched = []\<rparr>"]
  by (auto simp: lseq.dds_seq_axioms lseq_wf_def lseq_elems_def fun_upd_twist)

section \<open>Making and deleting a transformation through the plugin\<close>

text \<open>What \<open>create_transformation\<close> did when it returned a transformation.\<close>

lemma create_transformation_steps:
  assumes "use_mutex (t_lib tm) \<Longrightarrow> tp_lock (p_parent self) = Mutex_Free"
    and "TPlugin_create_transformation tm self output_type properties w = Inr (Some t, self', w')"
  obtains r m parent where "T_new tm (p_addr self) output_type properties w = Inr (r, Some t, w')"
    and "RTI_TSFM_TransformationPlugin_initialize_transformation (t_seq_ops tm)
      ((p_parent self)\<lparr>tp_lock := m\<rparr>) (t_addr t) = (DDS_RETCODE_OK, parent)"
    and "tp_transforms (p_parent self') = tp_transforms parent"
    and "use_mutex (t_lib tm) \<Longrightarrow> tp_lock (p_parent self') = Mutex_Free \<and> take_ok (t_lib tm)"
proof -
  obtain m r x w1 q m' where l: "lock_if (t_lib tm) (tp_lock (p_parent self)) = Inr (True, m)"
    and n: "T_new tm (p_addr self) output_type properties w = Inr (r, x, w1)"
    and q: "(case x of None \<Rightarrow> Inr (None, self\<lparr>p_parent := (p_parent self)\<lparr>tp_lock := m\<rparr>\<rparr>, w1)
       | Some t \<Rightarrow> (let (r, parent) = RTI_TSFM_TransformationPlugin_initialize_transformation (t_seq_ops tm)
                       (p_parent (self\<lparr>p_parent := (p_parent self)\<lparr>tp_lock := m\<rparr>\<rparr>)) (t_addr t);
                     self = self\<lparr>p_parent := (p_parent self)\<lparr>tp_lock := m\<rparr>\<rparr>\<lparr>p_parent := parent\<rparr> in
                 if r \<noteq> DDS_RETCODE_OK then bindF (T_delete tm t w1) (\<lambda>w. Inr (None, self, w))
                 else Inr (Some t, self, w1))) = Inr (Some t, q, w')"
    and u: "unlock_if (t_lib tm) (tp_lock (p_parent q)) = Inr m'"
      "self' = q\<lparr>p_parent := (p_parent q)\<lparr>tp_lock := m'\<rparr>\<rparr>"
    using assms(2) by (auto simp: TPlugin_create_transformation_def Let_def bindF_eq_Inr split: if_splits)
  obtain parent where x: "x = Some t" "w1 = w'" "q = self\<lparr>p_parent := parent\<rparr>"
    and p: "RTI_TSFM_TransformationPlugin_initialize_transformation (t_seq_ops tm)
      ((p_parent self)\<lparr>tp_lock := m\<rparr>) (t_addr t) = (DDS_RETCODE_OK, parent)"
    using q by (auto simp: Let_def bindF_eq_Inr split: option.splits prod.splits if_splits)
  have "tp_lock parent = m"
    using p by (auto simp: RTI_TSFM_TransformationPlugin_initialize_transformation_def Let_def
        split: prod.splits if_splits)
  then have "use_mutex (t_lib tm) \<Longrightarrow> tp_lock (p_parent self') = Mutex_Free \<and> take_ok (t_lib tm)"
    using l u x(3) assms(1)
    by (auto simp: lock_if_def unlock_if_def RTI_TSFM_Mutex_take_def RTI_TSFM_Mutex_give_def split: if_splits)
  then show ?thesis using that [OF _ p] n x u(2) by simp
qed

lemma delete_transformation_steps:
  assumes "use_mutex (t_lib tm) \<Longrightarrow> tp_lock (p_parent self) = Mutex_Free \<and> take_ok (t_lib tm)"
    and "\<And>m. \<exists>p'. RTI_TSFM_TransformationPlugin_finalize_transformation (t_seq_ops tm)
      ((p_parent self)\<lparr>tp_lock := m\<rparr>) (t_addr t) = (DDS_RETCODE_OK, p') \<and> tp_lock p' = m
      \<and> elems (tp_transforms p') = xs"
    and "T_delete tm t w = Inr w'"
  shows "\<exists>self'. TPlugin_delete_transformation tm self t w = Inr (self', w')
    \<and> elems (tp_transforms (p_parent self')) = xs"
proof (cases "use_mutex (t_lib tm)")
  case True
  obtain p' where "RTI_TSFM_TransformationPlugin_finalize_transformation (t_seq_ops tm)
      ((p_parent self)\<lparr>tp_lock := Mutex_Held\<rparr>) (t_addr t) = (DDS_RETCODE_OK, p')" "tp_lock p' = Mutex_Held"
      "elems (tp_transforms p') = xs"
    using assms(2) by blast
  then show ?thesis
    using True assms(1,3)
    by (simp add: TPlugin_delete_transformation_def lock_if_def unlock_if_def RTI_TSFM_Mutex_take_def
        RTI_TSFM_Mutex_give_def Let_def)
next
  case False
  obtain p' where "RTI_TSFM_TransformationPlugin_finalize_transformation (t_seq_ops tm)
      ((p_parent self)\<lparr>tp_lock := tp_lock (p_parent self)\<rparr>) (t_addr t) = (DDS_RETCODE_OK, p')"
      "elems (tp_transforms p') = xs"
    using assms(2) by blast
  then show ?thesis
    using False assms(3) by (simp add: TPlugin_delete_transformation_def lock_if_def unlock_if_def Let_def)
qed


definition test_TPlugin :: "(addr option lseq, nat) TPlugin" where
  "test_TPlugin = \<lparr>p_addr = 0, p_parent = test_plugin\<rparr>"

lemma create_test:
  "\<exists>t self' w'. TPlugin_create_transformation test_template test_TPlugin ''B'' [(''output_type'', ''B'')]
     (empty_heap [] :: nat heap) = Inr (Some t, self', w')"
  by (simp add: TPlugin_create_transformation_def T_new_def test_template_def assoc_lib_def test_TPlugin_def
      test_plugin_def empty_heap_def lock_if_def unlock_if_def RTI_TSFM_Mutex_take_def RTI_TSFM_Mutex_give_def
      RTI_TSFM_Mutex_initialize_def draw_def alloc_def alloc_ok_def acquire_def Let_def
      RTI_TSFM_Transformation_initialize_def initialize_configured_def RTI_TSFM_Transformation_create_type_support_def
      RTI_TSFM_TransformationPlugin_initialize_transformation_def lseq_ops_def empty_lseq_def lseq_resize_def)


text \<open>
  A plugin that defines \<open>T_initialize\<close> calls the initialisation of the base in it. When its own
  part fails afterwards, making the transformation fails and leaks the type support of the
  base: the base counts as not initialised.
\<close>

theorem failed_T_initialize_leaks:
  assumes "T_initialize tm = Some initialize" and "has_config tm" and "wf_ledger w" and "sched w = []"
    and "fst (seq_initialize (t_seq_ops tm) (t_seq_initializer tm))" and "output_type \<noteq> []"
    and "\<And>c. \<exists>c'. TConfig_parse tm properties c = (True, c') \<and> tc_output_type c' = Some output_type"
    and "\<And>parent w. initialize parent plugin output_type properties w =
          bindF (RTI_TSFM_Transformation_initialize (t_lib tm) (t_seq_ops tm) (t_seq_initializer tm) parent plugin
            output_type properties w) (\<lambda>(r, parent, w). Inr (DDS_RETCODE_ERROR, parent, w))"
  shows "\<exists>w' ts. T_new tm plugin output_type properties w = Inr (DDS_RETCODE_ERROR, None, w') \<and> owns_exactly w [ts] w'"
proof -
  obtain self w1 where a1: "alloc Transform_Block w = (Some self, w1)" "sched w1 = []"
    using alloc_sched_Nil [OF assms(4)] assms(4) by auto
  obtain state w2 where a2: "(if has_state tm then alloc State_Object w1 else (None, w1)) = (state, w2)" by fastforce
  have s2: "sched w2 = []" "has_state tm \<Longrightarrow> state \<noteq> None"
    using a1(2) a2 alloc_sched_Nil [OF a1(2)] by (auto split: if_splits)
  obtain config w3 where a3: "alloc UserConfig_Object w2 = (Some config, w3)" "sched w3 = []"
    using alloc_sched_Nil [OF s2(1)] s2(1) by auto
  have "owns_exactly w [self] w1" using owns_exactly_alloc [OF owns_exactly_start [OF assms(3)] a1(1)] by simp
  then have "owns_exactly w (opt_list state @ [self]) w2"
    using a2 owns_exactly_alloc [of w "[self]" w1 State_Object state w2] by (cases "has_state tm") auto
  then have own3: "owns_exactly w (config # opt_list state @ [self]) w3" using owns_exactly_alloc [OF _ a3(1)] by fastforce
  obtain c' where c': "TConfig_parse tm properties \<lparr>tc_addr = config, tc_type = RTI_TSFM_TransformationKind_SERIALIZER,
      tc_input_type = Some [], tc_output_type = Some []\<rparr> = (True, c')" "tc_output_type c' = Some output_type"
    using assms(7) by blast
  let ?base = "\<lparr>tr_config = Some c', tr_plugin = plugin, tr_tsupport = None, tr_read_buffer = t_seq_initializer tm,
      tr_read_buffer_loaned = False, tr_lock = Mutex_Uninitialised\<rparr>"
  obtain parent ts w4 where i: "RTI_TSFM_Transformation_initialize (t_lib tm) (t_seq_ops tm) (t_seq_initializer tm)
      ?base plugin output_type properties w3 = Inr (DDS_RETCODE_OK, parent, w4)" "acquire TypeSupport_Object w3 = (ts, w4)"
    using base_initialize_ok [OF a3(2) assms(5) _ c'(2) assms(6), of ?base] by (fastforce simp: acquire_def)
  have new: "T_new tm plugin output_type properties w = T_new_failed self state (Some config) w4"
    using a1 a2 a3 s2(2) assms(1,2) c' i(1) by (auto simp: T_new_def assms(8))
  have own: "owns_exactly w (ts # config # opt_list state @ [self]) w4" by (rule owns_exactly_acquire [OF own3 i(2)])
  have "owns_exactly w ((opt_list state @ opt_list (Some config) @ [self]) @ [ts]) w4"
    by (rule owns_exactly_perm [OF own]; use owns_exactly_distinct [OF own] in \<open>cases state\<close>) auto
  then show ?thesis using T_new_failed_owns unfolding new by blast
qed

definition failing_initialize ::
  "addr option lseq RTI_TSFM_Transformation \<Rightarrow> addr \<Rightarrow> string \<Rightarrow> rs_properties \<Rightarrow> nat heap \<Rightarrow>
   fault + retcode \<times> addr option lseq RTI_TSFM_Transformation \<times> nat heap" where
  "failing_initialize parent plugin output_type properties w =
     bindF (RTI_TSFM_Transformation_initialize assoc_lib (lseq_ops None) empty_lseq parent plugin output_type properties w)
       (\<lambda>(r, parent, w). Inr (DDS_RETCODE_ERROR, parent, w))"

theorem failed_T_initialize_leaks_witness:
  "\<exists>w' ts. T_new (test_template\<lparr>T_initialize := Some failing_initialize\<rparr>) 0 ''B'' [(''output_type'', ''B'')] (empty_heap [])
      = Inr (DDS_RETCODE_ERROR, None, w')
    \<and> owns_exactly (empty_heap [] :: nat heap) [ts] w'"
  by (rule failed_T_initialize_leaks [where initialize = failing_initialize, OF _ _ wf_empty_heap])
    (simp_all add: failing_initialize_def, simp_all add: test_template_def empty_heap_def lseq_ops_def)

end
