(* ===== verification/Protobuf_Transformation.thy ===== *)
theory Protobuf_Transformation
  imports Protobuf_Converter Tsfm_Template Dynamic_Helpers
begin

text \<open>
  \<^verbatim>\<open>plugins/transformations/protobuf/srcCxx/ProtobufTransformation.cxx\<close>, up to the
  initialisation of a transformation: its configuration and its state, the validation of the
  types of its streams, and its life cycle, which is the template with the functions defined
  here. The transformation of samples is in \<open>Protobuf_Samples\<close>.
\<close>

section \<open>Data\<close>

text \<open>
  The configuration starts with that of the base, which the base transformation shares through a
  pointer. Its five strings are pointers; \<open>cf_garbage\<close> names those that hold what the memory held
  before and are neither NULL nor a string. The objects that the state points to are pairs of their
  address and their content.
\<close>

record RTI_TSFM_ProtobufTransformationConfig =
  cf_addr :: addr
  cf_parent :: RTI_TSFM_TransformationConfig
  cf_buffer_member :: "string option"
  cf_descriptor_file :: "string option"
  cf_message_type :: "string option"
  cf_garbage :: "string list"

record ('m, 'tc, 'q) RTI_TSFM_ProtobufTransformationState =
  st_addr :: addr
  st_msg_converter :: "(addr \<times> ('m, 'tc) ProtobufDynamicDataConverter) option"
  st_message_type :: "(addr \<times> string) option"
  st_pb_buffer :: "(addr \<times> byte list) option"
  st_octet_seq :: 'q
  st_char_seq :: 'q

record ('s, 'm, 'tc, 'q) RTI_TSFM_ProtobufTransformation =
  pt_addr :: addr
  pt_config :: RTI_TSFM_ProtobufTransformationConfig
  pt_state :: "('m, 'tc, 'q) RTI_TSFM_ProtobufTransformationState"
  pt_parent :: "'s RTI_TSFM_Transformation"

text \<open>What the Routing Service tells about a stream: the type's name, whether it is a dynamic type, and its code.\<close>

record 'tc type_info =
  ti_name :: string
  ti_dynamic :: bool
  ti_type :: 'tc

text \<open>
  What the transformation takes from outside: Connext's type codes (\<open>None\<close>: an exception) and
  octet and char sequences, the memory that \<open>RTIOsapiHeap_allocateStructure\<close> and the allocation
  of the state give out, the set of descriptors parsed from a file, and protobuf.
\<close>

record ('s, 'pool, 'fdp, 'fd, 'd, 'm, 'tc, 'q) pbt_lib =
  pl_tsfm :: tsfm_lib
  pl_base_seq :: "('s, addr option) seq_ops"
  pl_base_seq_init :: 's
  pl_raw_config :: "addr \<Rightarrow> RTI_TSFM_ProtobufTransformationConfig"
  pl_octet_seq :: "('q, DDS_Octet) seq_ops"
  pl_char_seq :: "('q, DDS_Char) seq_ops"
  pl_raw_seq :: 'q
  pl_names :: "'tc typecode_ops"
  pl_tc :: "'tc tc_ops"
  pl_dimensions :: "'tc \<Rightarrow> DDS_UnsignedLong option"
  pl_member_count :: "'tc \<Rightarrow> DDS_UnsignedLong option"
  pl_length :: "'tc \<Rightarrow> DDS_UnsignedLong option"
  pl_parse_descriptor_set :: "string \<Rightarrow> 'fdp list"
  pl_descriptors :: "('pool, 'fdp, 'fd, 'd, 'm) descriptor_ops"
  pl_pool :: 'pool
  pl_wire :: "'m wire_ops"

section \<open>The configuration\<close>

text \<open>
  A string member when it is not NULL: \<open>DDS_String_free\<close>, then NULL. Strings are not on the ledger;
  freeing a pointer that was never set is a fault.
\<close>

definition String_free_member ::
  "RTI_TSFM_ProtobufTransformationConfig \<Rightarrow> string \<Rightarrow> string option \<Rightarrow> fault + string option" where
  "String_free_member sample name s = (if name \<in> set (cf_garbage sample) then Inl Uninitialised else Inr None)"

definition RTI_TSFM_ProtobufTransformationConfigTypeSupport_delete_data ::
  "RTI_TSFM_ProtobufTransformationConfig \<Rightarrow> 'd heap \<Rightarrow> fault + 'd heap" where
  "RTI_TSFM_ProtobufTransformationConfigTypeSupport_delete_data sample w =
     bindF (String_free_member sample ''input_type'' (tc_input_type (cf_parent sample))) (\<lambda>s.
     let sample = sample\<lparr>cf_parent := (cf_parent sample)\<lparr>tc_input_type := s\<rparr>\<rparr> in
     bindF (String_free_member sample ''output_type'' (tc_output_type (cf_parent sample))) (\<lambda>s.
     let sample = sample\<lparr>cf_parent := (cf_parent sample)\<lparr>tc_output_type := s\<rparr>\<rparr> in
     bindF (String_free_member sample ''buffer_member'' (cf_buffer_member sample)) (\<lambda>s.
     let sample = sample\<lparr>cf_buffer_member := s\<rparr> in
     bindF (String_free_member sample ''descriptor_file'' (cf_descriptor_file sample)) (\<lambda>s.
     let sample = sample\<lparr>cf_descriptor_file := s\<rparr> in
     bindF (String_free_member sample ''message_type'' (cf_message_type sample)) (\<lambda>s.
     let sample = sample\<lparr>cf_message_type := s\<rparr> in
     release (cf_addr sample) w)))))"

text \<open>A string member: \<open>DDS_String_alloc\<close>, then the copy of the empty string into it.\<close>

definition empty_string :: "'d heap \<Rightarrow> string option \<times> 'd heap" where
  "empty_string w = (let (s, w) = String_alloc w; (ok, s, w) = copyStringEx s [] w in (s, w))"

text \<open>A pointer that is set no longer holds what the memory held.\<close>

abbreviation pointer_set :: "string \<Rightarrow> RTI_TSFM_ProtobufTransformationConfig \<Rightarrow> RTI_TSFM_ProtobufTransformationConfig" where
  "pointer_set name sample \<equiv> sample\<lparr>cf_garbage := removeAll name (cf_garbage sample)\<rparr>"

text \<open>Nothing is stored in the part of the base: it holds what the memory held.\<close>

definition RTI_TSFM_ProtobufTransformationConfigTypeSupport_create_data ::
  "(addr \<Rightarrow> RTI_TSFM_ProtobufTransformationConfig) \<Rightarrow> 'd heap \<Rightarrow>
   fault + RTI_TSFM_ProtobufTransformationConfig option \<times> 'd heap" where
  "RTI_TSFM_ProtobufTransformationConfigTypeSupport_create_data raw_config w =
     (case alloc UserConfig_Object w of
        (None, w) \<Rightarrow> Inr (None, w)
      | (Some a, w) \<Rightarrow>
          (let sample = (raw_config a)\<lparr>cf_addr := a, cf_parent := (cf_parent (raw_config a))\<lparr>tc_addr := a\<rparr>\<rparr>;
               failed = (\<lambda>sample w. bindF (RTI_TSFM_ProtobufTransformationConfigTypeSupport_delete_data sample w)
                 (\<lambda>w. Inr (None, w)));
               (s, w) = empty_string w; sample = pointer_set ''buffer_member'' (sample\<lparr>cf_buffer_member := s\<rparr>) in
           if s = None then failed sample w
           else let (s, w) = empty_string w; sample = pointer_set ''descriptor_file'' (sample\<lparr>cf_descriptor_file := s\<rparr>) in
           if s = None then failed sample w
           else let (s, w) = empty_string w; sample = pointer_set ''message_type'' (sample\<lparr>cf_message_type := s\<rparr>) in
           if s = None then failed sample w
           else Inr (Some sample, w)))"

text \<open>A property that overrides a string; \<open>False\<close>: the string became NULL.\<close>

definition replace_from_property ::
  "tsfm_lib \<Rightarrow> rs_properties \<Rightarrow> string \<Rightarrow> string option \<Rightarrow> 'd heap \<Rightarrow> bool \<times> string option \<times> 'd heap" where
  "replace_from_property lib properties name s w =
     (case ts_lookup lib properties name of
        None \<Rightarrow> (True, s, w)
      | Some pval \<Rightarrow> (let (_, s, w) = String_replace lib s pval w in (s \<noteq> None, s, w)))"

text \<open>
  The base first copies its defaults over the strings of the base, the second one when the first
  copy succeeds: \<open>RTICdrType_copyStringEx\<close> reuses or frees what the pointer holds, so a pointer
  that was never set is a fault. The other three strings were set by \<open>create_data\<close>.
\<close>

definition RTI_TSFM_ProtobufTransformationConfig_parse_from_properties ::
  "tsfm_lib \<Rightarrow> RTI_TSFM_ProtobufTransformationConfig \<Rightarrow> rs_properties \<Rightarrow> 'd heap \<Rightarrow>
   fault + retcode \<times> RTI_TSFM_ProtobufTransformationConfig \<times> 'd heap" where
  "RTI_TSFM_ProtobufTransformationConfig_parse_from_properties lib self properties w =
     (if ''input_type'' \<in> set (cf_garbage self) \<or> ''output_type'' \<in> set (cf_garbage self) \<and> fst (draw w)
      then Inl Uninitialised
      else bindF (RTI_TSFM_TransformationConfig_parse_from_properties lib (cf_parent self) properties w)
       (\<lambda>(r, parent, w).
         let self = (case parent of None \<Rightarrow> self | Some p \<Rightarrow> self\<lparr>cf_parent := p\<rparr>) in
         if r \<noteq> DDS_RETCODE_OK then Inr (DDS_RETCODE_ERROR, self, w)
         else let (ok, s, w) = replace_from_property lib properties ''buffer_member'' (cf_buffer_member self) w;
                  self = self\<lparr>cf_buffer_member := s\<rparr> in
         if \<not> ok then Inr (DDS_RETCODE_ERROR, self, w)
         else let (ok, s, w) = replace_from_property lib properties ''descriptor_file'' (cf_descriptor_file self) w;
                  self = self\<lparr>cf_descriptor_file := s\<rparr> in
         if \<not> ok then Inr (DDS_RETCODE_ERROR, self, w)
         else let (ok, s, w) = replace_from_property lib properties ''message_type'' (cf_message_type self) w;
                  self = self\<lparr>cf_message_type := s\<rparr> in
         if \<not> ok then Inr (DDS_RETCODE_ERROR, self, w)
         else Inr (DDS_RETCODE_OK, self, w)))"

section \<open>The state\<close>

definition RTI_TSFM_ProtobufTransformationState_create_data ::
  "('q, DDS_Octet) seq_ops \<Rightarrow> ('q, DDS_Char) seq_ops \<Rightarrow> 'q \<Rightarrow> 'd heap \<Rightarrow>
   fault + ('m, 'tc, 'q) RTI_TSFM_ProtobufTransformationState option \<times> 'd heap" where
  "RTI_TSFM_ProtobufTransformationState_create_data octets chars raw w =
     (case alloc State_Object w of
        (None, w) \<Rightarrow> Inr (None, w)
      | (Some a, w) \<Rightarrow>
          (let state = \<lparr>st_addr = a, st_msg_converter = None, st_message_type = None, st_pb_buffer = None,
                 st_octet_seq = raw, st_char_seq = raw\<rparr>;
               (ok, s) = seq_initialize octets (st_octet_seq state); state = state\<lparr>st_octet_seq := s\<rparr> in
           if \<not> ok then bindF (release (st_addr state) w) (\<lambda>w. Inr (None, w))
           else let (ok, s) = seq_initialize chars (st_char_seq state); state = state\<lparr>st_char_seq := s\<rparr> in
           if \<not> ok then bindF (release (st_addr state) w) (\<lambda>w. Inr (None, w))
           else Inr (Some state, w)))"

definition RTI_TSFM_ProtobufTransformationState_delete_data ::
  "('q, DDS_Octet) seq_ops \<Rightarrow> ('q, DDS_Char) seq_ops \<Rightarrow>
   ('m, 'tc, 'q) RTI_TSFM_ProtobufTransformationState \<Rightarrow> 'd heap \<Rightarrow> fault + 'd heap" where
  "RTI_TSFM_ProtobufTransformationState_delete_data octets chars data w =
     bindF (release_opt (map_option fst (st_msg_converter data)) w) (\<lambda>w.
     let data = data\<lparr>st_msg_converter := None\<rparr> in
     bindF (release_opt (map_option fst (st_message_type data)) w) (\<lambda>w.
     let data = data\<lparr>st_message_type := None\<rparr> in
     bindF (release_opt (map_option fst (st_pb_buffer data)) w) (\<lambda>w.
     let data = data\<lparr>st_pb_buffer := None\<rparr>;
         data = data\<lparr>st_octet_seq := snd (seq_finalize octets (st_octet_seq data)),
                     st_char_seq := snd (seq_finalize chars (st_char_seq data))\<rparr> in
     release (st_addr data) w)))"

section \<open>Validation of the types\<close>

text \<open>A search that does not return is the fault \<open>Never_Returns\<close>; the name NULL is dereferenced.\<close>

definition member_type :: "'tc typecode_ops \<Rightarrow> 'tc \<Rightarrow> string option \<Rightarrow> fault + 'tc option" where
  "member_type names tc name =
     (case name of
        None \<Rightarrow> Inl Null_Deref
      | Some name \<Rightarrow>
          (case RTI_COMMON_TypeCode_get_member_type names tc name of None \<Rightarrow> Inl Never_Returns | Some r \<Rightarrow> Inr r))"

definition RTI_TSFM_ProtobufTransformation_validate_buffer_member ::
  "('s, 'pool, 'fdp, 'fd, 'd, 'm, 'tc, 'q) pbt_lib \<Rightarrow> 'tc \<Rightarrow> string option \<Rightarrow> fault + retcode" where
  "RTI_TSFM_ProtobufTransformation_validate_buffer_member lib base_type name =
     bindF (member_type (pl_names lib) base_type name) (\<lambda>tc.
       case tc of
         None \<Rightarrow> Inr DDS_RETCODE_ERROR
       | Some tc \<Rightarrow>
           (case tc_kind (pl_tc lib) tc of
              None \<Rightarrow> Inr DDS_RETCODE_ERROR
            | Some tckind \<Rightarrow>
                if tckind = DDS_TK_ARRAY \<and> pl_dimensions lib tc \<noteq> Some 1 then Inr DDS_RETCODE_ERROR
                else if tckind \<noteq> DDS_TK_ARRAY \<and> tckind \<noteq> DDS_TK_SEQUENCE then Inr DDS_RETCODE_ERROR
                else
                  (case Option.bind (tc_content_type (pl_tc lib) tc) (tc_kind (pl_tc lib)) of
                     None \<Rightarrow> Inr DDS_RETCODE_ERROR
                   | Some content \<Rightarrow>
                       Inr (if content \<noteq> DDS_TK_OCTET \<and> content \<noteq> DDS_TK_CHAR then DDS_RETCODE_ERROR
                            else DDS_RETCODE_OK))))"

definition RTI_TSFM_ProtobufTransformation_validate_input_type ::
  "('s, 'pool, 'fdp, 'fd, 'd, 'm, 'tc, 'q) pbt_lib \<Rightarrow> RTI_TSFM_ProtobufTransformationConfig \<Rightarrow> 'tc \<Rightarrow>
   fault + retcode" where
  "RTI_TSFM_ProtobufTransformation_validate_input_type lib config input_type =
     (if tc_type (cf_parent config) = RTI_TSFM_TransformationKind_SERIALIZER then Inr DDS_RETCODE_OK
      else RTI_TSFM_ProtobufTransformation_validate_buffer_member lib input_type (cf_buffer_member config))"

definition RTI_TSFM_ProtobufTransformation_validate_output_type ::
  "('s, 'pool, 'fdp, 'fd, 'd, 'm, 'tc, 'q) pbt_lib \<Rightarrow> RTI_TSFM_ProtobufTransformationConfig \<Rightarrow> 'tc \<Rightarrow>
   fault + retcode" where
  "RTI_TSFM_ProtobufTransformation_validate_output_type lib config output_type =
     (if tc_type (cf_parent config) = RTI_TSFM_TransformationKind_SERIALIZER
      then bindF (RTI_TSFM_ProtobufTransformation_validate_buffer_member lib output_type (cf_buffer_member config))
             (\<lambda>r. Inr (if r \<noteq> DDS_RETCODE_OK then DDS_RETCODE_ERROR else DDS_RETCODE_OK))
      else
        (case tc_kind (pl_tc lib) output_type of
           None \<Rightarrow> Inr DDS_RETCODE_ERROR
         | Some tckind \<Rightarrow>
             if tckind \<noteq> DDS_TK_STRUCT \<and> tckind \<noteq> DDS_TK_VALUE then Inr DDS_RETCODE_ERROR
             else
               (case pl_member_count lib output_type of
                  None \<Rightarrow> Inr DDS_RETCODE_ERROR
                | Some members_count \<Rightarrow>
                    Inr (if members_count = 0 then DDS_RETCODE_ERROR else DDS_RETCODE_OK))))"

section \<open>Initialisation\<close>

text \<open>The buffer was allocated before the condition of \<open>resize\<close> asks that it is NULL.\<close>

definition RTI_TSFM_ProtobufTransformation_preallocate_buffers ::
  "('s, 'pool, 'fdp, 'fd, 'd, 'm, 'tc, 'q) pbt_lib \<Rightarrow> RTI_TSFM_ProtobufTransformationConfig \<Rightarrow>
   ('m, 'tc, 'q) RTI_TSFM_ProtobufTransformationState \<Rightarrow> 'tc \<Rightarrow> 'v heap \<Rightarrow>
   fault + bool \<times> ('m, 'tc, 'q) RTI_TSFM_ProtobufTransformationState \<times> 'v heap" where
  "RTI_TSFM_ProtobufTransformation_preallocate_buffers lib config state tc w =
     bindF (member_type (pl_names lib) tc (cf_buffer_member config)) (\<lambda>member_tc.
       case member_tc of
         None \<Rightarrow> Inr (False, state, w)
       | Some member_tc \<Rightarrow>
           (case (pl_length lib member_tc, tc_kind (pl_tc lib) member_tc) of
              (Some buffer_size, Some kind) \<Rightarrow>
                (let (p, w) = alloc String_Object w;
                     state = state\<lparr>st_pb_buffer := map_option (\<lambda>a. (a, [])) p\<rparr> in
                 if p = None then Inr (False, state, w)
                 else if unat buffer_size < 2 ^ 31 - 1 \<and> st_pb_buffer state = None
                   \<and> (kind \<noteq> DDS_TK_SEQUENCE
                      \<or> tc_type (cf_parent config) \<noteq> RTI_TSFM_TransformationKind_DESERIALIZER)
                 then Inl Null_Deref
                 else Inr (True, state, w))
            | _ \<Rightarrow> Inr (False, state, w)))"

text \<open>\<open>std::string::find\<close> of two colons, from a position on.\<close>

fun find_colons :: "string \<Rightarrow> nat option" where
  "find_colons (a # b # s) = (if a = CHR '':'' \<and> b = CHR '':'' then Some 0 else map_option Suc (find_colons (b # s)))"
| "find_colons s = None"

lemma find_colons_bound: "find_colons s = Some i \<Longrightarrow> i + 2 \<le> length s"
  by (induction s arbitrary: i rule: find_colons.induct) (auto split: if_splits)

function replace_colons :: "string \<Rightarrow> nat \<Rightarrow> string" where
  "replace_colons message_type pos =
     (case find_colons (drop pos message_type) of
        None \<Rightarrow> message_type
      | Some i \<Rightarrow> (let pos = pos + i in
                    replace_colons (take pos message_type @ ''.'' @ drop (pos + 2) message_type) (pos + 1)))"
  by pat_completeness auto
termination
  by (relation "measure (\<lambda>(s, _). length s)") (auto dest: find_colons_bound)

declare replace_colons.simps [simp del]

text \<open>
  The name of the message: the configured one, or that of the DDS type with dots for the double
  colons. In the second case the string is used before it is compared with NULL.
\<close>

definition message_type_name ::
  "string option \<Rightarrow> string \<Rightarrow> 'v heap \<Rightarrow> fault + (addr \<times> string) option \<times> 'v heap" where
  "message_type_name config_type type_name w =
     (let (p, w) = alloc String_Object w in
      if config_type \<noteq> None \<and> config_type \<noteq> Some []
      then Inr (map_option (\<lambda>a. (a, the config_type)) p, w)
      else (case p of
              None \<Rightarrow> Inl Null_Deref
            | Some a \<Rightarrow> Inr (Some (a, replace_colons type_name 0), w)))"

text \<open>
  The converter, made in a \<open>try\<close> block: when the constructor throws, \<open>new\<close> gives the memory
  back. \<open>None\<close>: an exception was caught. A file name NULL makes \<open>std::string\<close> throw.
\<close>

definition create_converter ::
  "('s, 'pool, 'fdp, 'fd, 'd, 'm, 'tc, 'q) pbt_lib \<Rightarrow> string option \<Rightarrow> string \<Rightarrow> 'v heap \<Rightarrow>
   fault + (addr \<times> ('m, 'tc) ProtobufDynamicDataConverter) option \<times> 'v heap" where
  "create_converter lib descriptor_file message_type w =
     (case descriptor_file of
        None \<Rightarrow> Inr (None, w)
      | Some descriptor_file \<Rightarrow>
          (case alloc Converter_Object w of
             (None, w) \<Rightarrow> Inr (None, w)
           | (Some a, w) \<Rightarrow>
               bindF (ProtobufDynamicDataConverter_new (pl_descriptors lib) (pl_wire lib) (pl_pool lib)
                        (pl_parse_descriptor_set lib descriptor_file) message_type) (\<lambda>c.
                 case c of
                   None \<Rightarrow> bindF (release a w) (\<lambda>w. Inr (None, w))
                 | Some c \<Rightarrow> Inr (Some (a, c), w))))"

definition create_message_converter ::
  "('s, 'pool, 'fdp, 'fd, 'd, 'm, 'tc, 'q) pbt_lib \<Rightarrow> RTI_TSFM_ProtobufTransformationConfig \<Rightarrow>
   ('m, 'tc, 'q) RTI_TSFM_ProtobufTransformationState \<Rightarrow> string \<Rightarrow> 'v heap \<Rightarrow>
   fault + retcode \<times> ('m, 'tc, 'q) RTI_TSFM_ProtobufTransformationState \<times> 'v heap" where
  "create_message_converter lib config state type_name w =
     bindF (message_type_name (cf_message_type config) type_name w) (\<lambda>(name, w).
       let state = state\<lparr>st_message_type := name\<rparr> in
       case name of
         None \<Rightarrow> Inr (DDS_RETCODE_ERROR, state, w)
       | Some (_, message_type) \<Rightarrow>
           bindF (create_converter lib (cf_descriptor_file config) message_type w) (\<lambda>(c, w).
             Inr (if c = None then DDS_RETCODE_ERROR else DDS_RETCODE_OK, state\<lparr>st_msg_converter := c\<rparr>, w)))"

text \<open>After the base: the types, the buffer, the name and the converter.\<close>

definition initialize_state ::
  "('s, 'pool, 'fdp, 'fd, 'd, 'm, 'tc, 'q) pbt_lib \<Rightarrow> RTI_TSFM_ProtobufTransformationConfig \<Rightarrow>
   ('m, 'tc, 'q) RTI_TSFM_ProtobufTransformationState \<Rightarrow> 'tc type_info \<Rightarrow> 'tc type_info \<Rightarrow> 'v heap \<Rightarrow>
   fault + retcode \<times> ('m, 'tc, 'q) RTI_TSFM_ProtobufTransformationState \<times> 'v heap" where
  "initialize_state lib config state input_type_info output_type_info w =
     (if \<not> ti_dynamic input_type_info then Inr (DDS_RETCODE_ERROR, state, w)
      else
        bindF (RTI_TSFM_ProtobufTransformation_validate_input_type lib config (ti_type input_type_info)) (\<lambda>r.
        if r \<noteq> DDS_RETCODE_OK then Inr (r, state, w)
        else
        bindF (RTI_TSFM_ProtobufTransformation_validate_output_type lib config (ti_type output_type_info)) (\<lambda>r.
        if r \<noteq> DDS_RETCODE_OK then Inr (r, state, w)
        else
        let (serialized_type_info, dds_type_info) =
          (if tc_type (cf_parent config) = RTI_TSFM_TransformationKind_SERIALIZER
           then (output_type_info, input_type_info) else (input_type_info, output_type_info)) in
        bindF (RTI_TSFM_ProtobufTransformation_preallocate_buffers lib config state (ti_type serialized_type_info) w)
          (\<lambda>(ok, state, w).
        if \<not> ok then Inr (DDS_RETCODE_ERROR, state, w)
        else create_message_converter lib config state (ti_name dds_type_info) w))))"

definition RTI_TSFM_ProtobufTransformation_initialize ::
  "('s, 'pool, 'fdp, 'fd, 'd, 'm, 'tc, 'q) pbt_lib \<Rightarrow> ('s, 'm, 'tc, 'q) RTI_TSFM_ProtobufTransformation \<Rightarrow>
   addr \<Rightarrow> 'tc type_info \<Rightarrow> 'tc type_info \<Rightarrow> rs_properties \<Rightarrow> 'v heap \<Rightarrow>
   fault + retcode \<times> ('s, 'm, 'tc, 'q) RTI_TSFM_ProtobufTransformation \<times> 'v heap" where
  "RTI_TSFM_ProtobufTransformation_initialize lib self plugin input_type_info output_type_info properties w =
     bindF (RTI_TSFM_Transformation_initialize (pl_tsfm lib) (pl_base_seq lib) (pl_base_seq_init lib)
              (pt_parent self) plugin (ti_name output_type_info) properties w) (\<lambda>(r, parent, w).
       let self = self\<lparr>pt_parent := parent,
             pt_config := (case tr_config parent of
                None \<Rightarrow> pt_config self | Some c \<Rightarrow> (pt_config self)\<lparr>cf_parent := c\<rparr>)\<rparr> in
       if r \<noteq> DDS_RETCODE_OK then Inr (r, self, w)
       else bindF (initialize_state lib (pt_config self) (pt_state self) input_type_info output_type_info w)
              (\<lambda>(r, state, w). Inr (r, self\<lparr>pt_state := state\<rparr>, w)))"

section \<open>The template, with these functions\<close>

text \<open>
  When the transformation was initialised up to its base, the type support of the base, its sequence
  and its mutex stay behind: only the object and what the plugin itself made are taken back. Of
  the three, the ledger shows the type support.
\<close>

definition new_failed ::
  "('s, 'pool, 'fdp, 'fd, 'd, 'm, 'tc, 'q) pbt_lib \<Rightarrow> addr \<Rightarrow>
   ('m, 'tc, 'q) RTI_TSFM_ProtobufTransformationState option \<Rightarrow> RTI_TSFM_ProtobufTransformationConfig option \<Rightarrow>
   'v heap \<Rightarrow> fault + retcode \<times> ('s, 'm, 'tc, 'q) RTI_TSFM_ProtobufTransformation option \<times> 'v heap" where
  "new_failed lib self state config w =
     bindF (case state of
              None \<Rightarrow> Inr w
            | Some s \<Rightarrow> RTI_TSFM_ProtobufTransformationState_delete_data (pl_octet_seq lib) (pl_char_seq lib) s w) (\<lambda>w.
     bindF (case config of
              None \<Rightarrow> Inr w
            | Some c \<Rightarrow> RTI_TSFM_ProtobufTransformationConfigTypeSupport_delete_data c w) (\<lambda>w.
     bindF (release self w) (\<lambda>w. Inr (DDS_RETCODE_ERROR, None, w))))"

definition RTI_TSFM_ProtobufTransformation_new ::
  "('s, 'pool, 'fdp, 'fd, 'd, 'm, 'tc, 'q) pbt_lib \<Rightarrow> addr \<Rightarrow> 'tc type_info \<Rightarrow> 'tc type_info \<Rightarrow>
   rs_properties \<Rightarrow> 'v heap \<Rightarrow>
   fault + retcode \<times> ('s, 'm, 'tc, 'q) RTI_TSFM_ProtobufTransformation option \<times> 'v heap" where
  "RTI_TSFM_ProtobufTransformation_new lib plugin input_type_info output_type_info properties w =
     (case alloc Transform_Block w of
        (None, w) \<Rightarrow> Inr (DDS_RETCODE_ERROR, None, w)
      | (Some self, w) \<Rightarrow>
          bindF (RTI_TSFM_ProtobufTransformationState_create_data (pl_octet_seq lib) (pl_char_seq lib)
                   (pl_raw_seq lib) w) (\<lambda>(state, w).
          case state of
            None \<Rightarrow> new_failed lib self None None w
          | Some state \<Rightarrow>
              bindF (RTI_TSFM_ProtobufTransformationConfigTypeSupport_create_data (pl_raw_config lib) w) (\<lambda>(config, w).
              case config of
                None \<Rightarrow> new_failed lib self (Some state) None w
              | Some config \<Rightarrow>
                  bindF (RTI_TSFM_ProtobufTransformationConfig_parse_from_properties (pl_tsfm lib) config properties w)
                    (\<lambda>(r, config, w).
                  if r \<noteq> DDS_RETCODE_OK then new_failed lib self (Some state) (Some config) w
                  else
                  bindF (RTI_TSFM_ProtobufTransformation_initialize lib
                           \<lparr>pt_addr = self, pt_config = config, pt_state = state,
                            pt_parent = \<lparr>tr_config = Some (cf_parent config), tr_plugin = plugin, tr_tsupport = None,
                              tr_read_buffer = pl_base_seq_init lib, tr_read_buffer_loaned = False,
                              tr_lock = Mutex_Uninitialised\<rparr>\<rparr>
                           plugin input_type_info output_type_info properties w) (\<lambda>(r, t, w).
                  if r \<noteq> DDS_RETCODE_OK then new_failed lib self (Some (pt_state t)) (Some (pt_config t)) w
                  else Inr (DDS_RETCODE_OK, Some t, w))))))"

definition RTI_TSFM_ProtobufTransformation_delete ::
  "('s, 'pool, 'fdp, 'fd, 'd, 'm, 'tc, 'q) pbt_lib \<Rightarrow> ('s, 'm, 'tc, 'q) RTI_TSFM_ProtobufTransformation \<Rightarrow>
   'v heap \<Rightarrow> fault + 'v heap" where
  "RTI_TSFM_ProtobufTransformation_delete lib self w =
     bindF (RTI_TSFM_ProtobufTransformationConfigTypeSupport_delete_data (pt_config self) w) (\<lambda>w.
     bindF (RTI_TSFM_ProtobufTransformationState_delete_data (pl_octet_seq lib) (pl_char_seq lib) (pt_state self) w) (\<lambda>w.
     bindF (RTI_TSFM_Transformation_finalize (pl_tsfm lib) (pl_base_seq lib)
              ((pt_parent self)\<lparr>tr_config := None\<rparr>) w) (\<lambda>(_, _, w).
     release (pt_addr self) w)))"

end
