(* ===== verification/Protobuf_Samples.thy ===== *)
theory Protobuf_Samples
  imports Protobuf_Transformation
begin

text \<open>
  The transformation of samples of \<^verbatim>\<open>plugins/transformations/protobuf/srcCxx/ProtobufTransformation.cxx\<close>:
  a serialiser converts its input to a message and stores the bytes in a member of its output, a
  deserialiser takes the bytes from a member of its input and converts them to its output.
\<close>

section \<open>Parameters\<close>

text \<open>
  Connext's functions on members by name. An array is read into memory for a number of elements;
  the result is the return code, the bytes written there and the new number.
\<close>

record ('v, 'tc, 's, 'm, 'q) sample_lib =
  sl_conv :: "('v, 'tc, 's, 'm) converter_lib"
  sl_wire :: "'m wire_ops"
  sl_octet_seq :: "('q, DDS_Octet) seq_ops"
  sl_char_seq :: "('q, DDS_Char) seq_ops"
  sl_get_member_info :: "'v \<Rightarrow> string \<Rightarrow> retcode \<times> DDS_DynamicDataMemberInfo"
  sl_octets :: "('v, 'q) member_ops"
  sl_chars :: "('v, 'q) member_ops"
  sl_set_octet_array :: "'v \<Rightarrow> string \<Rightarrow> DDS_UnsignedLong \<Rightarrow> byte list \<Rightarrow> retcode \<times> 'v"
  sl_set_char_array :: "'v \<Rightarrow> string \<Rightarrow> DDS_UnsignedLong \<Rightarrow> byte list \<Rightarrow> retcode \<times> 'v"
  sl_get_octet_array :: "'v \<Rightarrow> string \<Rightarrow> DDS_UnsignedLong \<Rightarrow> retcode \<times> byte list \<times> DDS_UnsignedLong"
  sl_get_char_array :: "'v \<Rightarrow> string \<Rightarrow> DDS_UnsignedLong \<Rightarrow> retcode \<times> byte list \<times> DDS_UnsignedLong"

section \<open>Serialisation\<close>

text \<open>
  The bytes go into a member of the output. The data of a \<open>std::string\<close> end in a nul byte, and its
  size is converted to 32 bits.
\<close>

definition store_buffer ::
  "('v, 'tc, 's, 'm, 'q) sample_lib \<Rightarrow> string \<Rightarrow> DDS_DynamicDataMemberInfo \<Rightarrow> byte list \<Rightarrow>
   ('m, 'tc, 'q) RTI_TSFM_ProtobufTransformationState \<Rightarrow> 'v \<Rightarrow>
   fault + retcode \<times> 'v \<times> ('m, 'tc, 'q) RTI_TSFM_ProtobufTransformationState" where
  "store_buffer lib member info buffer state sample_out =
     (let size = word_of_nat (length buffer) in
      if member_kind info = DDS_TK_SEQUENCE then
        if element_kind info = DDS_TK_CHAR then
          bindF (RTI_COMMON_DynamicData_set_char_seq_from_string (sl_char_seq lib) (sl_chars lib) sample_out
                   (st_char_seq state) member (buffer @ [0]) size size)
            (\<lambda>(r, sample_out, s). Inr (r, sample_out, state\<lparr>st_char_seq := s\<rparr>))
        else if element_kind info = DDS_TK_OCTET then
          bindF (RTI_COMMON_DynamicData_set_octet_seq_from_string (sl_octet_seq lib) (sl_octets lib) sample_out
                   (st_octet_seq state) member (buffer @ [0]) size size)
            (\<lambda>(r, sample_out, s). Inr (r, sample_out, state\<lparr>st_octet_seq := s\<rparr>))
        else Inr (DDS_RETCODE_ERROR, sample_out, state)
      else if member_kind info = DDS_TK_ARRAY then
        if element_kind info = DDS_TK_CHAR then
          (let (r, sample_out) = sl_set_char_array lib sample_out member size buffer in Inr (r, sample_out, state))
        else if element_kind info = DDS_TK_OCTET then
          (let (r, sample_out) = sl_set_octet_array lib sample_out member size buffer in Inr (r, sample_out, state))
        else Inr (DDS_RETCODE_ERROR, sample_out, state)
      else Inr (DDS_RETCODE_ERROR, sample_out, state))"

text \<open>Without a member name the lookup fails, and the log message prints the name NULL.\<close>

definition RTI_TSFM_ProtobufTransformation_serialize ::
  "('v, 'tc, 's, 'm, 'q) sample_lib \<Rightarrow> nat \<Rightarrow> RTI_TSFM_ProtobufTransformationConfig \<Rightarrow>
   ('m, 'tc, 'q) RTI_TSFM_ProtobufTransformationState \<Rightarrow> 'v \<Rightarrow> 'v \<Rightarrow>
   fault + retcode \<times> 'v \<times> ('m, 'tc, 'q) RTI_TSFM_ProtobufTransformationState" where
  "RTI_TSFM_ProtobufTransformation_serialize lib n config state sample_in sample_out =
     (case (st_msg_converter state, st_pb_buffer state) of
        (Some (ca, converter), Some (ba, buffer)) \<Rightarrow>
          bindF (ProtobufDynamicDataConverter_serialize (sl_conv lib) (sl_wire lib) n converter sample_in buffer)
            (\<lambda>(ok, buffer, converter).
              let state = state\<lparr>st_msg_converter := Some (ca, converter), st_pb_buffer := Some (ba, buffer)\<rparr> in
              if \<not> ok then Inr (DDS_RETCODE_ERROR, sample_out, state)
              else
                (case cf_buffer_member config of
                   None \<Rightarrow> Inl Null_Deref
                 | Some member \<Rightarrow>
                     (let (r, info) = sl_get_member_info lib sample_out member in
                      if r \<noteq> DDS_RETCODE_OK then Inr (DDS_RETCODE_ERROR, sample_out, state)
                      else store_buffer lib member info buffer state sample_out)))
      | _ \<Rightarrow> Inl Null_Deref)"

section \<open>Deserialisation\<close>

text \<open>
  The pointer and the length for the converter, when the code gets there; otherwise the return
  code it leaves with, which is still that of the lookup of the member when the kind of the member
  or of its elements is not supported. An array is read into the memory of the string, with zero as
  the number of elements it can take.
\<close>

definition array_buffer ::
  "retcode \<times> byte list \<times> DDS_UnsignedLong \<Rightarrow> (addr \<times> byte list) option \<Rightarrow>
   ('m, 'tc, 'q) RTI_TSFM_ProtobufTransformationState \<Rightarrow>
   fault + retcode \<times> (byte list \<times> DDS_UnsignedLong) option \<times> ('m, 'tc, 'q) RTI_TSFM_ProtobufTransformationState" where
  "array_buffer result pb_buffer state =
     (case (result, pb_buffer) of
        ((r, bytes, len), Some (a, buffer)) \<Rightarrow>
          if length buffer < length bytes then Inl Out_Of_Bounds
          else
            (let buffer = bytes @ drop (length bytes) buffer; state = state\<lparr>st_pb_buffer := Some (a, buffer)\<rparr> in
             Inr (r, if r \<noteq> DDS_RETCODE_OK then None else Some (buffer @ [0], len), state))
      | _ \<Rightarrow> Inl Null_Deref)"

definition sequence_buffer ::
  "'q buffer_result \<Rightarrow> ('m, 'tc, 'q) RTI_TSFM_ProtobufTransformationState \<Rightarrow>
   fault + retcode \<times> (byte list \<times> DDS_UnsignedLong) option \<times> ('m, 'tc, 'q) RTI_TSFM_ProtobufTransformationState" where
  "sequence_buffer result state =
     (if br_retcode result \<noteq> DDS_RETCODE_OK then Inr (br_retcode result, None, state)
      else (case br_buffer result of
              None \<Rightarrow> Inl Null_Deref
            | Some b \<Rightarrow> Inr (DDS_RETCODE_OK, Some (b, br_len result), state)))"

definition fetch_buffer ::
  "('v, 'tc, 's, 'm, 'q) sample_lib \<Rightarrow> string \<Rightarrow> DDS_DynamicDataMemberInfo \<Rightarrow>
   ('m, 'tc, 'q) RTI_TSFM_ProtobufTransformationState \<Rightarrow> 'v \<Rightarrow>
   fault + retcode \<times> (byte list \<times> DDS_UnsignedLong) option \<times> ('m, 'tc, 'q) RTI_TSFM_ProtobufTransformationState" where
  "fetch_buffer lib member info state sample_in =
     (if member_kind info = DDS_TK_ARRAY then
        if element_kind info = DDS_TK_CHAR
        then array_buffer (sl_get_char_array lib sample_in member 0) (st_pb_buffer state) state
        else if element_kind info = DDS_TK_OCTET
        then array_buffer (sl_get_octet_array lib sample_in member 0) (st_pb_buffer state) state
        else if st_pb_buffer state = None then Inl Null_Deref
        else Inr (DDS_RETCODE_OK, None, state)
      else if member_kind info = DDS_TK_SEQUENCE then
        if element_kind info = DDS_TK_CHAR
        then (let r = RTI_COMMON_DynamicData_get_char_seq_contiguous_buffer (sl_char_seq lib) (sl_chars lib) sample_in
                        None True 0 (st_char_seq state) member in
              sequence_buffer r (state\<lparr>st_char_seq := br_seq r\<rparr>))
        else if element_kind info = DDS_TK_OCTET
        then (let r = RTI_COMMON_DynamicData_get_octet_seq_contiguous_buffer (sl_octet_seq lib) (sl_octets lib) sample_in
                        None True 0 (st_octet_seq state) member in
              sequence_buffer r (state\<lparr>st_octet_seq := br_seq r\<rparr>))
        else Inr (DDS_RETCODE_OK, None, state)
      else Inr (DDS_RETCODE_OK, None, state))"

text \<open>The return code is that of the last call when the conversion fails: success.\<close>

definition RTI_TSFM_ProtobufTransformation_deserialize ::
  "('v, 'tc, 's, 'm, 'q) sample_lib \<Rightarrow> nat \<Rightarrow> RTI_TSFM_ProtobufTransformationConfig \<Rightarrow>
   ('m, 'tc, 'q) RTI_TSFM_ProtobufTransformationState \<Rightarrow> 'v \<Rightarrow> 'v \<Rightarrow>
   fault + retcode \<times> 'v \<times> ('m, 'tc, 'q) RTI_TSFM_ProtobufTransformationState" where
  "RTI_TSFM_ProtobufTransformation_deserialize lib n config state sample_in sample_out =
     (case cf_buffer_member config of
        None \<Rightarrow> Inl Null_Deref
      | Some member \<Rightarrow>
          (let (r, info) = sl_get_member_info lib sample_in member in
           if r \<noteq> DDS_RETCODE_OK then Inr (r, sample_out, state)
           else
             bindF (fetch_buffer lib member info state sample_in) (\<lambda>(r, data, state).
               case data of
                 None \<Rightarrow> Inr (r, sample_out, state)
               | Some (buffer, buffer_len) \<Rightarrow>
                   (case st_msg_converter state of
                      None \<Rightarrow> Inl Null_Deref
                    | Some (ca, converter) \<Rightarrow>
                        bindF (ProtobufDynamicDataConverter_deserialize (sl_conv lib) (sl_wire lib) n converter
                                 sample_out buffer (unat buffer_len)) (\<lambda>(ok, sample_out, converter).
                          let state = state\<lparr>st_msg_converter := Some (ca, converter)\<rparr> in
                          if \<not> ok then Inr (r, sample_out, state)
                          else Inr (DDS_RETCODE_OK, sample_out, state))))))"

section \<open>Stored and fetched bytes\<close>

lemma store_buffer_keeps:
  "store_buffer lib member info buffer state out = Inr (r, out', state') \<Longrightarrow> st_pb_buffer state' = st_pb_buffer state"
  by (auto simp: store_buffer_def Let_def bindF_eq_Inr split: if_splits prod.splits)

lemma serialize_steps:
  assumes "RTI_TSFM_ProtobufTransformation_serialize lib n config state v out = Inr (DDS_RETCODE_OK, out', state')"
    and "cf_buffer_member config = Some member" and "st_msg_converter state = Some (ca, c)"
  obtains a b bytes c' info where "st_pb_buffer state = Some (a, b)"
    and "ProtobufDynamicDataConverter_serialize (sl_conv lib) (sl_wire lib) n c v b = Inr (True, bytes, c')"
    and "sl_get_member_info lib out member = (DDS_RETCODE_OK, info)" and "st_pb_buffer state' = Some (a, bytes)"
    and "store_buffer lib member info bytes
           (state\<lparr>st_msg_converter := Some (ca, c'), st_pb_buffer := Some (a, bytes)\<rparr>) out = Inr (DDS_RETCODE_OK, out', state')"
proof -
  obtain a b where b: "st_pb_buffer state = Some (a, b)"
    using assms(1,3) by (cases "st_pb_buffer state") (auto simp: RTI_TSFM_ProtobufTransformation_serialize_def)
  obtain ok bytes c' where c: "ProtobufDynamicDataConverter_serialize (sl_conv lib) (sl_wire lib) n c v b = Inr (ok, bytes, c')"
    using assms(1,3) b by (auto simp: RTI_TSFM_ProtobufTransformation_serialize_def bindF_eq_Inr)
  obtain r info where i: "sl_get_member_info lib out member = (r, info)" by fastforce
  have ok: "ok" and s: "store_buffer lib member info bytes
      (state\<lparr>st_msg_converter := Some (ca, c'), st_pb_buffer := Some (a, bytes)\<rparr>) out = Inr (DDS_RETCODE_OK, out', state')"
    and r: "r = DDS_RETCODE_OK"
    using assms b c i by (auto simp: RTI_TSFM_ProtobufTransformation_serialize_def Let_def split: if_splits)
  then show ?thesis using that b c i store_buffer_keeps [OF s] by simp
qed

text \<open>
  What a serialiser stores through an octet sequence, and what a deserialiser reads from a sample in
  which the bytes were set: the bytes, with their number.
\<close>

lemma store_buffer_octets:
  assumes "dyn_member (sl_octet_seq lib) valid elems cap (sl_octets lib)"
    and "valid (st_octet_seq state)" and "int (length bytes) < 2 ^ 31"
    and "member_kind info = DDS_TK_SEQUENCE" and "element_kind info = DDS_TK_OCTET"
    and "store_buffer lib member info bytes state out = Inr (DDS_RETCODE_OK, out', state')"
  obtains u where "valid u" and "elems u = bytes" and "dd_set_seq (sl_octets lib) out member u = (DDS_RETCODE_OK, out')"
proof -
  obtain s' where "RTI_COMMON_DynamicData_set_octet_seq_from_string (sl_octet_seq lib) (sl_octets lib) out
      (st_octet_seq state) member (bytes @ [0]) (word_of_nat (length bytes)) (word_of_nat (length bytes)) = Inr (DDS_RETCODE_OK, out', s')"
    using assms(4,5,6) by (auto simp: store_buffer_def Let_def bindF_eq_Inr)
  then show ?thesis using dyn_member.set_from_string [OF assms(1,2,3)] that by blast
qed

lemma fetch_set:
  assumes "dyn_member (sl_octet_seq lib) valid elems cap (sl_octets lib)"
    and "valid u" and "elems u = bytes" and "dd_set_seq (sl_octets lib) x member u = (DDS_RETCODE_OK, x')"
    and "valid (st_octet_seq state)" and "member_kind info = DDS_TK_SEQUENCE" and "element_kind info = DDS_TK_OCTET"
    and "br_retcode (RTI_COMMON_DynamicData_get_octet_seq_contiguous_buffer (sl_octet_seq lib) (sl_octets lib) x'
          None True 0 (st_octet_seq state) member) = DDS_RETCODE_OK"
  shows "\<exists>rest q. fetch_buffer lib member info state x' =
    Inr (DDS_RETCODE_OK, Some (bytes @ rest, word_of_nat (length bytes)), state\<lparr>st_octet_seq := q\<rparr>)"
proof -
  obtain t b where t: "dd_get_seq (sl_octets lib) x' (st_octet_seq state) member = (DDS_RETCODE_OK, t)"
    and g: "RTI_COMMON_DynamicData_get_octet_seq_contiguous_buffer (sl_octet_seq lib) (sl_octets lib) x'
          None True 0 (st_octet_seq state) member = \<lparr>br_retcode = DDS_RETCODE_OK, br_buffer = Some b,
        br_len = word_of_nat (length (elems t)), br_seq = t\<rparr>" and b: "take (length (elems t)) b = elems t"
    using dyn_member.get_with_length [OF assms(1,5,8)] by blast
  have "elems t = bytes" using dyn_member.set_get [OF assms(1,2,4,5) t] assms(3) by simp
  moreover from this have "b = bytes @ drop (length bytes) b" using b by (metis append_take_drop_id)
  ultimately show ?thesis
    using g assms(6,7) by (intro exI [of _ "drop (length bytes) b"] exI [of _ t]) (simp add: fetch_buffer_def sequence_buffer_def)
qed

lemma deserialize_fetched:
  assumes "cf_buffer_member config = Some member" and "sl_get_member_info lib v member = (DDS_RETCODE_OK, info)"
    and "fetch_buffer lib member info state v = Inr (DDS_RETCODE_OK, Some (b, len), state1)"
    and "st_msg_converter state1 = Some (ca, c)"
    and "ProtobufDynamicDataConverter_deserialize (sl_conv lib) (sl_wire lib) n c w b (unat len) = Inr (ok, w', c')"
  shows "RTI_TSFM_ProtobufTransformation_deserialize lib n config state v w =
    Inr (DDS_RETCODE_OK, w', state1\<lparr>st_msg_converter := Some (ca, c')\<rparr>)"
  using assms by (simp add: RTI_TSFM_ProtobufTransformation_deserialize_def)

text \<open>An array is not written beyond the room it is given, and the new length is that of the array.\<close>

definition within_room :: "('v \<Rightarrow> string \<Rightarrow> DDS_UnsignedLong \<Rightarrow> retcode \<times> byte list \<times> DDS_UnsignedLong) \<Rightarrow> bool" where
  "within_room get \<longleftrightarrow> (\<forall>v member room r bytes len. get v member room = (r, bytes, len) \<longrightarrow>
     length bytes \<le> unat room \<and> (r = DDS_RETCODE_OK \<longrightarrow> unat len = length bytes))"

lemma within_roomD:
  "within_room get \<Longrightarrow> get v member room = (r, bytes, len) \<Longrightarrow>
   length bytes \<le> unat room \<and> (r = DDS_RETCODE_OK \<longrightarrow> unat len = length bytes)"
  unfolding within_room_def by blast

text \<open>
  A sample in which the bytes of a serialised object were set, by the serialiser itself or by who
  received them, is deserialised from a message that agrees with the one that represents the object.
\<close>

lemma set_bytes_deserialized:
  assumes "dds_reading (sl_conv lib) valid elems cap text_of octets_of collection"
    and "dds_writing (sl_conv lib) text_of octets_of" and "wire_laws (lib_pb (sl_conv lib)) (sl_wire lib)"
    and "dyn_member (sl_octet_seq lib) qvalid qelems qcap (sl_octets lib)"
    and "pb_clear (sl_wire lib) (conv_msg c) = pb_clear (sl_wire lib) (conv_msg s)"
    and "ProtobufDynamicDataConverter_serialize (sl_conv lib) (sl_wire lib) n s v b = Inr (True, bytes, s')"
    and "int (length bytes) < 2 ^ 31"
    and "qvalid u" and "qelems u = bytes" and "dd_set_seq (sl_octets lib) x member u = (DDS_RETCODE_OK, x')"
    and "qvalid (st_octet_seq receiver)" and "st_msg_converter receiver = Some (ra, c)"
    and "cf_buffer_member config = Some member"
    and "\<exists>info. sl_get_member_info lib x' member = (DDS_RETCODE_OK, info)
          \<and> member_kind info = DDS_TK_SEQUENCE \<and> element_kind info = DDS_TK_OCTET"
    and "br_retcode (RTI_COMMON_DynamicData_get_octet_seq_contiguous_buffer (sl_octet_seq lib) (sl_octets lib) x'
          None True 0 (st_octet_seq receiver) member) = DDS_RETCODE_OK"
  shows "\<exists>m. represents (sl_conv lib) text_of octets_of v m \<and> pb_serialize (sl_wire lib) m = (True, bytes)
    \<and> (\<forall>m' ok w' st. pb_parse (sl_wire lib) (pb_clear (sl_wire lib) (conv_msg c)) bytes (int (length bytes)) = (True, m') \<longrightarrow>
        protobuf_to_dds (sl_conv lib) k w m' (conv_state c) = Inr (ok, w', st) \<longrightarrow>
        agrees (lib_pb (sl_conv lib)) m m'
        \<and> (\<exists>receiver'. RTI_TSFM_ProtobufTransformation_deserialize lib k config receiver x' w = Inr (DDS_RETCODE_OK, w', receiver'))
        \<and> (ok \<longrightarrow> stored (sl_conv lib) text_of octets_of w' m'))"
proof -
  obtain info where i: "sl_get_member_info lib x' member = (DDS_RETCODE_OK, info)"
    and kinds: "member_kind info = DDS_TK_SEQUENCE" "element_kind info = DDS_TK_OCTET" using assms(14) by blast
  obtain rest q where f: "fetch_buffer lib member info receiver x' =
      Inr (DDS_RETCODE_OK, Some (bytes @ rest, word_of_nat (length bytes)), receiver\<lparr>st_octet_seq := q\<rparr>)"
    using fetch_set [OF assms(4,8-11) kinds assms(15)] by blast
  obtain m where m: "represents (sl_conv lib) text_of octets_of v m" "pb_serialize (sl_wire lib) m = (True, bytes)"
    "\<forall>m'. pb_parse (sl_wire lib) (pb_clear (sl_wire lib) (conv_msg c)) bytes (int (length bytes)) = (True, m') \<longrightarrow>
      agrees (lib_pb (sl_conv lib)) m m'"
    using parse_serialized [OF assms(1,3,5,6,7)] by blast
  have size: "unat (word_of_nat (length bytes) :: 32 word) = length bytes" using assms(7) by (simp add: unat_of_nat)
  have c: "st_msg_converter (receiver\<lparr>st_octet_seq := q\<rparr>) = Some (ra, c)" using assms(12) by simp
  have "\<exists>receiver'. RTI_TSFM_ProtobufTransformation_deserialize lib k config receiver x' w = Inr (DDS_RETCODE_OK, w', receiver')"
    and "ok \<Longrightarrow> stored (sl_conv lib) text_of octets_of w' m'"
    if a: "pb_parse (sl_wire lib) (pb_clear (sl_wire lib) (conv_msg c)) bytes (int (length bytes)) = (True, m')"
      and p: "protobuf_to_dds (sl_conv lib) k w m' (conv_state c) = Inr (ok, w', st')" for m' ok w' st'
  proof -
    have "ProtobufDynamicDataConverter_deserialize (sl_conv lib) (sl_wire lib) k c w (bytes @ rest) (length bytes) =
        Inr (ok, w', c\<lparr>conv_msg := m', conv_state := st'\<rparr>)"
      using deserialize_parsed [OF assms(3,7)] a p by simp
    then show "\<exists>receiver'. RTI_TSFM_ProtobufTransformation_deserialize lib k config receiver x' w = Inr (DDS_RETCODE_OK, w', receiver')"
      using deserialize_fetched [OF assms(13) i f c] size by auto
    show "stored (sl_conv lib) text_of octets_of w' m'" if "ok"
    proof -
      have "protobuf_to_dds (sl_conv lib) k w m' (conv_state c) = Inr (True, w', st')" using p that by simp
      then show ?thesis
        using dds_writing.protobuf_to_dds_sound [OF assms(2), of k] unfolding dds_writing.sound_def [OF assms(2)] by blast
    qed
  qed
  with m show ?thesis by blast
qed

text \<open>What a successful serialiser stored, as the bytes it set in the output sample.\<close>

lemma serialize_sets_bytes:
  assumes "dyn_member (sl_octet_seq lib) qvalid qelems qcap (sl_octets lib)" and "qvalid (st_octet_seq sender)"
    and "st_msg_converter sender = Some (sa, s)" and "cf_buffer_member config = Some member"
    and "RTI_TSFM_ProtobufTransformation_serialize lib n config sender v out = Inr (DDS_RETCODE_OK, out', sender')"
    and "st_pb_buffer sender' = Some (ba, bytes)" and "int (length bytes) < 2 ^ 31"
    and "\<exists>info. sl_get_member_info lib out member = (DDS_RETCODE_OK, info)
          \<and> member_kind info = DDS_TK_SEQUENCE \<and> element_kind info = DDS_TK_OCTET"
  obtains u b s' where "qvalid u" and "qelems u = bytes" and "dd_set_seq (sl_octets lib) out member u = (DDS_RETCODE_OK, out')"
    and "ProtobufDynamicDataConverter_serialize (sl_conv lib) (sl_wire lib) n s v b = Inr (True, bytes, s')"
proof -
  obtain a b bytes' s' info where r: "ProtobufDynamicDataConverter_serialize (sl_conv lib) (sl_wire lib) n s v b = Inr (True, bytes', s')"
    and i: "sl_get_member_info lib out member = (DDS_RETCODE_OK, info)" and p: "st_pb_buffer sender' = Some (a, bytes')"
    and st: "store_buffer lib member info bytes'
           (sender\<lparr>st_msg_converter := Some (sa, s'), st_pb_buffer := Some (a, bytes')\<rparr>) out = Inr (DDS_RETCODE_OK, out', sender')"
    by (rule serialize_steps [OF assms(5,4,3)])
  have b: "bytes' = bytes" using p assms(6) by simp
  have "member_kind info = DDS_TK_SEQUENCE" "element_kind info = DDS_TK_OCTET" using assms(8) i by auto
  then obtain u where "qvalid u" "qelems u = bytes" "dd_set_seq (sl_octets lib) out member u = (DDS_RETCODE_OK, out')"
    using store_buffer_octets [OF assms(1) _ assms(7) _ _ st [unfolded b]] assms(2) by auto
  then show ?thesis using that r b by blast
qed

section \<open>Properties\<close>

text \<open>
  C11. From one end to the other through an octet sequence: what a serialiser accepts is represented
  by a message whose bytes it stores, and a deserialiser of the same message type that can read the
  sequence parses exactly those bytes. When its parser accepts them, it converts a message that agrees
  with the one that was serialised in every field that is not a map; when the conversion succeeds
  the sample it fills stores that message, and the return code is success also when it fails.
\<close>

theorem samples_transfer:
  assumes "dds_reading (sl_conv lib) valid elems cap text_of octets_of collection"
    and "dds_writing (sl_conv lib) text_of octets_of" and "wire_laws (lib_pb (sl_conv lib)) (sl_wire lib)"
    and "dyn_member (sl_octet_seq lib) qvalid qelems qcap (sl_octets lib)"
    and "qvalid (st_octet_seq sender)" and "qvalid (st_octet_seq receiver)"
    and "st_msg_converter sender = Some (sa, s)" and "st_msg_converter receiver = Some (ra, c)"
    and "pb_clear (sl_wire lib) (conv_msg c) = pb_clear (sl_wire lib) (conv_msg s)"
    and "cf_buffer_member config = Some member" and "cf_buffer_member config' = Some member"
    and "RTI_TSFM_ProtobufTransformation_serialize lib n config sender v out = Inr (DDS_RETCODE_OK, out', sender')"
    and "st_pb_buffer sender' = Some (ba, bytes)" and "int (length bytes) < 2 ^ 31"
    and "\<forall>x \<in> {out, out'}. \<exists>info. sl_get_member_info lib x member = (DDS_RETCODE_OK, info)
          \<and> member_kind info = DDS_TK_SEQUENCE \<and> element_kind info = DDS_TK_OCTET"
    and "br_retcode (RTI_COMMON_DynamicData_get_octet_seq_contiguous_buffer (sl_octet_seq lib) (sl_octets lib) out'
          None True 0 (st_octet_seq receiver) member) = DDS_RETCODE_OK"
  shows "\<exists>m. represents (sl_conv lib) text_of octets_of v m \<and> pb_serialize (sl_wire lib) m = (True, bytes)
    \<and> (\<forall>m' ok w' st. pb_parse (sl_wire lib) (pb_clear (sl_wire lib) (conv_msg c)) bytes (int (length bytes)) = (True, m') \<longrightarrow>
        protobuf_to_dds (sl_conv lib) k w m' (conv_state c) = Inr (ok, w', st) \<longrightarrow>
        agrees (lib_pb (sl_conv lib)) m m'
        \<and> (\<exists>receiver'. RTI_TSFM_ProtobufTransformation_deserialize lib k config' receiver out' w = Inr (DDS_RETCODE_OK, w', receiver'))
        \<and> (ok \<longrightarrow> stored (sl_conv lib) text_of octets_of w' m'))"
proof -
  have i: "\<exists>info. sl_get_member_info lib x member = (DDS_RETCODE_OK, info)
          \<and> member_kind info = DDS_TK_SEQUENCE \<and> element_kind info = DDS_TK_OCTET" if "x \<in> {out, out'}" for x
    using assms(15) that by blast
  obtain u b s' where u: "qvalid u" "qelems u = bytes" "dd_set_seq (sl_octets lib) out member u = (DDS_RETCODE_OK, out')"
    and r: "ProtobufDynamicDataConverter_serialize (sl_conv lib) (sl_wire lib) n s v b = Inr (True, bytes, s')"
    by (rule serialize_sets_bytes [OF assms(4,5,7,10,12,13,14) i]) simp
  show ?thesis
    by (rule set_bytes_deserialized [OF assms(1-4,9) r assms(14) u assms(6,8,11) i assms(16)]) simp
qed

text \<open>
  C29. Bytes that are no message: the deserialiser leaves the output sample as it was and reports
  success, so that the sample is forwarded without the data.
\<close>

theorem unparsable_bytes_reported_ok:
  assumes "cf_buffer_member config = Some member" and "sl_get_member_info lib v member = (DDS_RETCODE_OK, info)"
    and "fetch_buffer lib member info state v = Inr (DDS_RETCODE_OK, Some (b, len), state1)"
    and "st_msg_converter state1 = Some (ca, c)"
    and "\<not> fst (pb_parse (sl_wire lib) (pb_clear (sl_wire lib) (conv_msg c)) b (sint len))"
  shows "\<exists>state'. RTI_TSFM_ProtobufTransformation_deserialize lib n config state v w = Inr (DDS_RETCODE_OK, w, state')"
proof -
  obtain m where "pb_parse (sl_wire lib) (pb_clear (sl_wire lib) (conv_msg c)) b (sint len) = (False, m)"
    using assms(5) by (metis (full_types) prod.collapse)
  then have "ProtobufDynamicDataConverter_deserialize (sl_conv lib) (sl_wire lib) n c w b (unat len) = Inr (False, w, c\<lparr>conv_msg := m\<rparr>)"
    by (simp add: ProtobufDynamicDataConverter_deserialize_def)
  from deserialize_fetched [OF assms(1-4) this] show ?thesis by blast
qed

text \<open>
  C30. Arrays are accepted by the validation of the types and written by the serialiser, but a
  deserialiser offers no room for them, because its buffer was never resized: with a Connext that
  writes no more than the room it is given, either the read fails and the sample is not touched, or
  the converter is given no byte at all instead of the content of the array. The documentation
  (\<^verbatim>\<open>configuration.rst\<close>, 17-28) lists arrays of octets and of chars among the members that hold the
  serialised buffer.
\<close>

theorem arrays_not_deserialized:
  assumes "cf_buffer_member config = Some member" and "sl_get_member_info lib v member = (DDS_RETCODE_OK, info)"
    and "member_kind info = DDS_TK_ARRAY" and "element_kind info \<in> {DDS_TK_CHAR, DDS_TK_OCTET}"
    and "within_room (sl_get_char_array lib) \<and> within_room (sl_get_octet_array lib)"
    and "st_pb_buffer state = Some (a, [])" and "st_msg_converter state = Some (ca, c)"
  shows "(\<exists>r. r \<noteq> DDS_RETCODE_OK \<and> RTI_TSFM_ProtobufTransformation_deserialize lib n config state v w = Inr (r, w, state))
    \<or> RTI_TSFM_ProtobufTransformation_deserialize lib n config state v w =
        bindF (ProtobufDynamicDataConverter_deserialize (sl_conv lib) (sl_wire lib) n c w [0] 0)
          (\<lambda>(ok, w, c). Inr (DDS_RETCODE_OK, w, state\<lparr>st_msg_converter := Some (ca, c)\<rparr>))"
proof -
  obtain r bytes len where g: "(if element_kind info = DDS_TK_CHAR then sl_get_char_array lib v member 0
      else sl_get_octet_array lib v member 0) = (r, bytes, len)" by (metis prod_cases3)
  then have "length bytes \<le> unat (0 :: 32 word) \<and> (r = DDS_RETCODE_OK \<longrightarrow> unat len = length bytes)"
    using assms(5) by (auto dest: within_roomD split: if_splits)
  then have len: "bytes = []" "r = DDS_RETCODE_OK \<Longrightarrow> len = 0" by (auto simp: unat_eq_zero)
  have state: "state\<lparr>st_pb_buffer := Some (a, [])\<rparr> = state" using assms(6) by (cases state) simp
  have f: "fetch_buffer lib member info state v = array_buffer (r, bytes, len) (st_pb_buffer state) state"
    using g assms(3,4) by (auto simp: fetch_buffer_def split: if_splits)
  show ?thesis
  proof (cases "r = DDS_RETCODE_OK")
    case True
    then show ?thesis
      using assms(1,2,6,7) f len state
      by (auto simp: RTI_TSFM_ProtobufTransformation_deserialize_def array_buffer_def Let_def intro: arg_cong [where f = "bindF _"])
  next
    case False
    then show ?thesis
      using assms(1,2,6,7) f len state by (auto simp: RTI_TSFM_ProtobufTransformation_deserialize_def array_buffer_def)
  qed
qed

section \<open>Trees as samples\<close>

text \<open>The octet sequences of a tree, by name, to evaluate the transformation.\<close>

definition tree_octets :: "dval \<Rightarrow> string \<Rightarrow> (nat \<times> byte list) option" where
  "tree_octets v name =
     (case dindex v name of
        None \<Rightarrow> None
      | Some k \<Rightarrow> (case dget v (k + 1) of Some (DBytes bs) \<Rightarrow> Some (k + 1, bs) | _ \<Rightarrow> None))"

definition tree_member_ops :: "(dval, byte lseq) member_ops" where
  "tree_member_ops = \<lparr>
     dd_get_seq = (\<lambda>v s name. case tree_octets v name of
        None \<Rightarrow> (DDS_RETCODE_ERROR, s)
      | Some (i, bs) \<Rightarrow> (let (ok, s) = lseq_assign s bs in (if ok then DDS_RETCODE_OK else DDS_RETCODE_ERROR, s))),
     dd_set_seq = (\<lambda>v name s. case tree_octets v name of
        None \<Rightarrow> (DDS_RETCODE_ERROR, v)
      | Some (i, bs) \<Rightarrow> (DDS_RETCODE_OK, dput v i (DBytes (lseq_elems s))))\<rparr>"

lemma tree_octets_dput:
  "tree_octets v name = Some (i, bs) \<Longrightarrow> tree_octets (dput v i (DBytes cs)) name = Some (i, cs)"
  by (auto simp: tree_octets_def dindex_def dput_facts split: option.splits dval.splits)

interpretation tree_member: dyn_member "lseq_ops 0" lseq_wf lseq_elems lseq_cap tree_member_ops
proof (unfold_locales, goal_cases)
  case (1 t d m t')
  then show ?case
    using lseq_assign_ok by (auto simp: tree_member_ops_def Let_def split: option.splits prod.splits if_splits)
next
  case (2 s d m d' t t')
  then show ?case
    using lseq_assign_ok
    by (fastforce simp: tree_member_ops_def Let_def tree_octets_dput split: option.splits prod.splits if_splits)
qed

definition tree_samples :: "(dval, dtc, byte lseq, pb_msg, byte lseq) sample_lib" where
  "tree_samples = \<lparr>sl_conv = tree_lib, sl_wire = sample_wire, sl_octet_seq = lseq_ops 0, sl_char_seq = lseq_ops 0,
     sl_get_member_info = (\<lambda>v name. case dd_get_member_info dval_ops v name of
        None \<Rightarrow> (DDS_RETCODE_ERROR, dinfo 0 name v) | Some info \<Rightarrow> (DDS_RETCODE_OK, info)),
     sl_octets = tree_member_ops, sl_chars = tree_member_ops,
     sl_set_octet_array = (\<lambda>v name n bs. (DDS_RETCODE_ERROR, v)), sl_set_char_array = (\<lambda>v name n bs. (DDS_RETCODE_ERROR, v)),
     sl_get_octet_array = (\<lambda>v name n. (DDS_RETCODE_ERROR, [], n)), sl_get_char_array = (\<lambda>v name n. (DDS_RETCODE_ERROR, [], n))\<rparr>"

lemma tree_samples_sel [simp]:
  "sl_conv tree_samples = tree_lib" "sl_wire tree_samples = sample_wire" "sl_octet_seq tree_samples = lseq_ops 0"
  "sl_octets tree_samples = tree_member_ops"
  by (simp_all add: tree_samples_def)

definition carrier :: "string \<Rightarrow> byte list \<Rightarrow> dval" where
  "carrier name bs = DStruct ''Bytes'' [(name, True, DBytes bs)]"

definition carrier_config :: "string \<Rightarrow> RTI_TSFM_ProtobufTransformationConfig" where
  "carrier_config name = \<lparr>cf_addr = 0, cf_parent = \<lparr>tc_addr = 0, tc_type = RTI_TSFM_TransformationKind_SERIALIZER,
     tc_input_type = Some [], tc_output_type = Some ''Bytes''\<rparr>, cf_buffer_member = Some name,
     cf_descriptor_file = Some ''shapes.desc'', cf_message_type = Some [], cf_garbage = []\<rparr>"

definition carrier_state :: "(pb_msg, dtc, byte lseq) RTI_TSFM_ProtobufTransformationState" where
  "carrier_state = \<lparr>st_addr = 1, st_msg_converter = Some (2, sample_converter), st_message_type = Some (3, ''Sensor''),
     st_pb_buffer = Some (4, []), st_octet_seq = empty_lseq, st_char_seq = empty_lseq\<rparr>"

lemma carrier_facts:
  "dindex (carrier name bs) name = Some 0" "tree_octets (carrier name bs) name = Some (1, bs)"
  "sl_get_member_info tree_samples (carrier name bs) name = (DDS_RETCODE_OK, dinfo 1 name (DBytes bs))"
  by (simp_all add: tree_octets_def dindex_def carrier_def tree_samples_def dval_ops_def)

lemma carrier_serialize:
  "\<exists>state'. RTI_TSFM_ProtobufTransformation_serialize tree_samples 3 (carrier_config name) carrier_state sample_data (carrier name [])
      = Inr (DDS_RETCODE_OK, carrier name [10], state') \<and> st_pb_buffer state' = Some (4, [10])"
proof -
  obtain c where "ProtobufDynamicDataConverter_serialize tree_lib sample_wire 3 sample_converter sample_data [] = Inr (True, [10], c)"
    using sample_converts by (auto simp: ProtobufDynamicDataConverter_serialize_def sample_converter_def sample_wire_def)
  then show ?thesis
    by (simp add: RTI_TSFM_ProtobufTransformation_serialize_def carrier_config_def carrier_state_def carrier_facts
        store_buffer_def dinfo_def RTI_COMMON_DynamicData_set_octet_seq_from_string_def current_size_def tree_member_ops_def
        lseq_ops_def lseq_loan_def empty_lseq_def lseq_elems_def)
      (simp add: carrier_def)
qed

lemma carrier_fetch:
  "br_retcode (RTI_COMMON_DynamicData_get_octet_seq_contiguous_buffer (lseq_ops 0) tree_member_ops (carrier name [b])
     None True 0 empty_lseq name) = DDS_RETCODE_OK"
  "\<exists>s. fetch_buffer tree_samples name (dinfo 1 name (DBytes [b])) carrier_state (carrier name [b]) =
     Inr (DDS_RETCODE_OK, Some ([b], 1), carrier_state\<lparr>st_octet_seq := s\<rparr>)"
  by (simp_all add: RTI_COMMON_DynamicData_get_octet_seq_contiguous_buffer_def tree_member_ops_def carrier_facts
      lseq_assign_def empty_lseq_def lseq_ops_def Let_def fetch_buffer_def sequence_buffer_def dinfo_def carrier_state_def)

theorem samples_transfer_witness:
  "\<exists>m receiver'. represents tree_lib dtext doctets sample_data m
    \<and> RTI_TSFM_ProtobufTransformation_deserialize tree_samples 3 (carrier_config ''data'') carrier_state (carrier ''data'' [10]) blank_data
        = Inr (DDS_RETCODE_OK, sample_data, receiver')
    \<and> agrees msg_ops m sample_message \<and> stored tree_lib dtext doctets sample_data sample_message"
proof -
  obtain state' where s: "RTI_TSFM_ProtobufTransformation_serialize tree_samples 3 (carrier_config ''data'') carrier_state sample_data (carrier ''data'' [])
      = Inr (DDS_RETCODE_OK, carrier ''data'' [10], state')" "st_pb_buffer state' = Some (4, [10])"
    using carrier_serialize by blast
  note laws = tree_reading.dds_reading_axioms tree_writing.dds_writing_axioms sample_wire_laws tree_member.dyn_member_axioms
  have st: "lseq_wf (st_octet_seq carrier_state)" "st_msg_converter carrier_state = Some (2, sample_converter)"
    "cf_buffer_member (carrier_config ''data'') = Some ''data''"
    by (simp_all add: carrier_state_def carrier_config_def empty_lseq_def lseq_wf_def)
  have "\<exists>m. represents (sl_conv tree_samples) dtext doctets sample_data m \<and> pb_serialize (sl_wire tree_samples) m = (True, [10])
    \<and> (\<forall>m' ok w' st. pb_parse (sl_wire tree_samples) (pb_clear (sl_wire tree_samples) (conv_msg sample_converter)) [10]
          (int (length [10 :: byte])) = (True, m') \<longrightarrow>
        protobuf_to_dds (sl_conv tree_samples) 3 blank_data m' (conv_state sample_converter) = Inr (ok, w', st) \<longrightarrow>
        agrees (lib_pb (sl_conv tree_samples)) m m'
        \<and> (\<exists>receiver'. RTI_TSFM_ProtobufTransformation_deserialize tree_samples 3 (carrier_config ''data'') carrier_state (carrier ''data'' [10]) blank_data
          = Inr (DDS_RETCODE_OK, w', receiver'))
        \<and> (ok \<longrightarrow> stored (sl_conv tree_samples) dtext doctets w' m'))"
    by (rule samples_transfer [where valid = lseq_wf and elems = lseq_elems and cap = lseq_cap and collection = dcollection
          and qvalid = lseq_wf and qelems = lseq_elems and qcap = lseq_cap, OF _ _ _ _ _ _ st(2,2) refl st(3,3) s])
      (use laws st carrier_fetch carrier_facts in \<open>auto simp: dinfo_def carrier_state_def\<close>)
  moreover obtain st where "protobuf_to_dds tree_lib 3 blank_data sample_message (conv_state sample_converter) = Inr (True, sample_data, st)"
    using sample_converts_back by (auto simp: sample_converter_def)
  moreover have "pb_parse sample_wire (pb_clear sample_wire (conv_msg sample_converter)) [10] (int (length [10 :: byte])) = (True, sample_message)"
    by (simp add: sample_wire_def sample_converter_def)
  ultimately show ?thesis unfolding tree_samples_sel tree_lib_simps by blast
qed

theorem unparsable_bytes_reported_ok_witness:
  "\<exists>state'. RTI_TSFM_ProtobufTransformation_deserialize tree_samples 3 (carrier_config ''data'') carrier_state (carrier ''data'' [99]) blank_data
     = Inr (DDS_RETCODE_OK, blank_data, state')"
proof -
  obtain s where f: "fetch_buffer tree_samples ''data'' (dinfo 1 ''data'' (DBytes [99])) carrier_state (carrier ''data'' [99]) =
     Inr (DDS_RETCODE_OK, Some ([99], 1), carrier_state\<lparr>st_octet_seq := s\<rparr>)"
    using carrier_fetch(2) by blast
  show ?thesis
    by (rule unparsable_bytes_reported_ok [OF _ carrier_facts(3) f])
      (simp_all add: carrier_config_def carrier_state_def sample_wire_def)
qed

text \<open>
  An array whose read fails when there is no room for it, and one whose read copies what there is
  room for, that is nothing, and succeeds: the byte in the sample is not seen.
\<close>

definition array_samples :: "retcode \<Rightarrow> (dval, dtc, byte lseq, pb_msg, byte lseq) sample_lib" where
  "array_samples r = tree_samples\<lparr>
     sl_get_member_info := \<lambda>v name. (DDS_RETCODE_OK, \<lparr>member_id = 1, member_name = name,
        member_kind = DDS_TK_ARRAY, element_count = 1, element_kind = DDS_TK_OCTET\<rparr>),
     sl_get_octet_array := \<lambda>v name n. (if n = 0 then (r, [], 0) else (DDS_RETCODE_OK, [10], 1))\<rparr>"

theorem arrays_not_deserialized_witness:
  "RTI_TSFM_ProtobufTransformation_deserialize (array_samples DDS_RETCODE_ERROR) 3 (carrier_config ''data'') carrier_state
     (carrier ''data'' [10]) blank_data = Inr (DDS_RETCODE_ERROR, blank_data, carrier_state)
   \<and> (\<exists>state'. RTI_TSFM_ProtobufTransformation_deserialize (array_samples DDS_RETCODE_OK) 3 (carrier_config ''data'') carrier_state
     (carrier ''data'' [10]) blank_data = Inr (DDS_RETCODE_OK, blank_data, state'))"
proof -
  let ?d = "\<lambda>r. RTI_TSFM_ProtobufTransformation_deserialize (array_samples r) 3 (carrier_config ''data'') carrier_state (carrier ''data'' [10]) blank_data"
  have a: "(\<exists>r'. r' \<noteq> DDS_RETCODE_OK \<and> ?d r = Inr (r', blank_data, carrier_state))
    \<or> ?d r = bindF (ProtobufDynamicDataConverter_deserialize (sl_conv (array_samples r)) (sl_wire (array_samples r)) 3 sample_converter blank_data [0] 0)
          (\<lambda>(ok, w, c). Inr (DDS_RETCODE_OK, w, carrier_state\<lparr>st_msg_converter := Some (2, c)\<rparr>))" for r
    by (rule arrays_not_deserialized [where member = "''data''" and a = 4
          and info = "\<lparr>member_id = 1, member_name = ''data'', member_kind = DDS_TK_ARRAY, element_count = 1, element_kind = DDS_TK_OCTET\<rparr>"])
      (auto simp: carrier_config_def carrier_state_def within_room_def array_samples_def tree_samples_def
        unat_gt_0 Suc_le_eq split: if_splits)
  have e: "?d DDS_RETCODE_ERROR = Inr (DDS_RETCODE_ERROR, blank_data, carrier_state)"
    by (simp add: RTI_TSFM_ProtobufTransformation_deserialize_def carrier_config_def carrier_state_def array_samples_def
        fetch_buffer_def array_buffer_def)
  have "\<exists>state'. ?d DDS_RETCODE_OK = Inr (DDS_RETCODE_OK, blank_data, state')"
    using a [of DDS_RETCODE_OK]
    by (auto simp: ProtobufDynamicDataConverter_deserialize_def sample_wire_def array_samples_def
        RTI_TSFM_ProtobufTransformation_deserialize_def carrier_config_def carrier_state_def fetch_buffer_def array_buffer_def)
  with e show ?thesis by blast
qed

end
