(* ===== verification/Gateway.thy ===== *)
theory Gateway
  imports Kafka_Writer Kafka_Reader Protobuf_Samples
begin

text \<open>
  The components along a route of the gateway: a sample is serialised to protobuf, its bytes are
  written to Kafka, polled and read on the other side, and deserialised there.
\<close>

section \<open>Through Kafka\<close>

text \<open>The string at the start of a buffer, and when it is the content that the buffer holds.\<close>

lemma takeWhile_whole_iff:
  assumes "take (length xs) b = xs"
  shows "z \<in> set b \<and> takeWhile (\<lambda>y. y \<noteq> z) b = xs \<longleftrightarrow> z \<notin> set xs \<and> length xs < length b \<and> b ! length xs = z"
proof -
  obtain ys where b: "b = xs @ ys" using assms by (metis append_take_drop_id)
  show ?thesis
  proof (cases "z \<in> set xs")
    case True
    then have "takeWhile (\<lambda>y. y \<noteq> z) b = takeWhile (\<lambda>y. y \<noteq> z) xs" unfolding b by (simp add: takeWhile_append1)
    moreover have "takeWhile (\<lambda>y. y \<noteq> z) xs \<noteq> xs" using True set_takeWhileD [of z "\<lambda>y. y \<noteq> z" xs] by metis
    ultimately show ?thesis using True by simp
  next
    case False
    then have "takeWhile (\<lambda>y. y \<noteq> z) b = xs @ takeWhile (\<lambda>y. y \<noteq> z) ys" unfolding b by (subst takeWhile_append2) auto
    then show ?thesis using False by (cases ys) (auto simp: b)
  qed
qed

text \<open>
  One sample that is written: the writer sends the string at the start of its buffer, if the
  producer takes it, or reads past the end of the buffer.
\<close>

lemma write_one_sample_taken:
  assumes "producer_laws kops sent" and "drains kops"
    and "sw_rk self = Some k" and "sw_topic self = Some topic"
    and "dd_get_seq dd d init_seq ''payload.data'' = (DDS_RETCODE_OK, t)" and "seq_buffer ops t = Some b"
  shows "if 0 \<in> set b
    then \<exists>k'. RTI_RS_KafkaStreamWriter_write ops init_seq dd kops self [d] = Some (Inr (1, self\<lparr>sw_rk := Some k'\<rparr>))
      \<and> sent k' = sent k @ (if takes kops topic (takeWhile (\<lambda>x. x \<noteq> 0) b) k then [(topic, takeWhile (\<lambda>x. x \<noteq> 0) b)] else [])
    else RTI_RS_KafkaStreamWriter_write ops init_seq dd kops self [d] = Some (Inl Out_Of_Bounds)"
proof (cases "0 \<in> set b")
  case True
  then obtain n where n: "strlen b = Inr n" using strlen_has_nul by blast
  obtain k' where k': "produce_sample kops topic (take n b) k = Some k'" using produce_sample_returns [OF assms(2)] by blast
  then have "RTI_RS_KafkaStreamWriter_write ops init_seq dd kops self [d] = Some (Inr (1, self\<lparr>sw_rk := Some k'\<rparr>))"
    using assms(3-6) n by (simp add: RTI_RS_KafkaStreamWriter_write_def)
  then show ?thesis
    using True produce_sample_sent [OF assms(1) k'] strlen_take_no_nul [OF n] by auto
next
  case False
  then have "strlen b = Inl Out_Of_Bounds" by (simp add: strlen_no_nul)
  then show ?thesis using False assms(3-6) by (simp add: RTI_RS_KafkaStreamWriter_write_def)
qed

lemma write_one_sample:
  assumes "producer_laws kops sent" and "accepts kops" and "drains kops"
    and "sw_rk self = Some k" and "sw_topic self = Some topic"
    and "dd_get_seq dd d init_seq ''payload.data'' = (DDS_RETCODE_OK, t)" and "seq_buffer ops t = Some b"
  shows "if 0 \<in> set b
    then \<exists>k'. RTI_RS_KafkaStreamWriter_write ops init_seq dd kops self [d] = Some (Inr (1, self\<lparr>sw_rk := Some k'\<rparr>))
      \<and> sent k' = sent k @ [(topic, takeWhile (\<lambda>x. x \<noteq> 0) b)]
    else RTI_RS_KafkaStreamWriter_write ops init_seq dd kops self [d] = Some (Inl Out_Of_Bounds)"
proof -
  obtain k' where "produce_sample kops topic (takeWhile (\<lambda>x. x \<noteq> 0) b) k = Some k'"
    using produce_sample_returns [OF assms(3)] by blast
  note tk = accepts_takes [OF assms(2) this]
  from write_one_sample_taken [OF assms(1,3-7)] show ?thesis unfolding if_P [OF tk] .
qed

text \<open>What a reader delivers is part of what it polled.\<close>

lemma delivered_polled:
  assumes "reachable_reader failures s"
  shows "set (delivered s) \<subseteq> set (polled s)"
proof -
  have "subseq (delivered s) (polled s)"
    using reachable_reader_inv [OF assms]
    by (auto simp: reader_inv_def history_inv_def dest: subseq_drop_last split: if_splits)
  then show ?thesis by (blast elim: list_emb_set)
qed

text \<open>The bytes set in a sample, as the writer finds them, and as it sends them when they end in a nul byte.\<close>

lemma written_bytes:
  assumes "dyn_member ops qvalid qelems qcap dd" and "qvalid u" and "qelems u = bytes"
    and "dd_set_seq dd out ''payload.data'' u = (DDS_RETCODE_OK, out')" and "qvalid init_seq"
    and "dd_get_seq dd out' init_seq ''payload.data'' = (DDS_RETCODE_OK, t)" and "seq_buffer ops t = Some b"
  shows "take (length bytes) b = bytes"
proof -
  have "dds_seq ops qvalid qelems qcap" using assms(1) by (rule dyn_member.axioms(1))
  from dds_seq.buffer_prefix [OF this dyn_member.get_wf [OF assms(1,5,6)] assms(7)]
  show ?thesis using dyn_member.set_get [OF assms(1,2,4,5,6)] assms(3) by simp
qed

lemma written_whole:
  assumes "dyn_member ops qvalid qelems qcap dd" and "qvalid u" and "qelems u = bytes"
    and "dd_set_seq dd out ''payload.data'' u = (DDS_RETCODE_OK, out')"
    and "producer_laws kops sent" and "drains kops"
    and "sw_rk self = Some k" and "sw_topic self = Some topic" and "qvalid init_seq"
    and "dd_get_seq dd out' init_seq ''payload.data'' = (DDS_RETCODE_OK, t)" and "seq_buffer ops t = Some b"
    and "0 \<notin> set bytes" and "length bytes < length b" and "b ! length bytes = 0"
    and "RTI_RS_KafkaStreamWriter_write ops init_seq dd kops self [out'] = Some (Inr (count, self'))"
    and "sw_rk self' = Some k'"
  shows "sent k' = sent k @ (if takes kops topic bytes k then [(topic, bytes)] else [])"
proof -
  have "0 \<in> set b \<and> takeWhile (\<lambda>y. y \<noteq> 0) b = bytes"
    using takeWhile_whole_iff [OF written_bytes [OF assms(1-4,9-11)], of 0] assms(12-14) by simp
  with write_one_sample_taken [OF assms(5-8,10,11)] show ?thesis using assms(15,16) by auto
qed

section \<open>A route with trees\<close>

text \<open>
  The producer is the bounded queue, the reader has served the only message, and the sequence of
  the writer has memory that was zero before.
\<close>

definition zeroed_lseq :: "byte lseq" where
  "zeroed_lseq = \<lparr>l_mem = [0, 0, 0], l_len = 0, l_loaned = False\<rparr>"

definition filled_lseq :: "byte \<Rightarrow> byte lseq" where
  "filled_lseq b = \<lparr>l_mem = [b, 0, 0], l_len = 1, l_loaned = False\<rparr>"

definition route_writer :: "bounded_queue RTI_RS_KafkaStreamWriter" where
  "route_writer = \<lparr>sw_addr = 0, sw_rk = Some \<lparr>bq_sent = [], bq_pending = 0\<rparr>, sw_topic = Some ''t''\<rparr>"

lemma route_facts:
  "lseq_wf zeroed_lseq" "sw_rk route_writer = Some \<lparr>bq_sent = [], bq_pending = 0\<rparr>" "sw_topic route_writer = Some ''t''"
  by (simp_all add: zeroed_lseq_def lseq_wf_def route_writer_def)

lemma route_sequence:
  "dd_get_seq tree_member_ops (carrier name [b]) zeroed_lseq name = (DDS_RETCODE_OK, filled_lseq b)"
  "seq_buffer (lseq_ops 0) (filled_lseq b) = Some [b, 0, 0]"
  by (simp_all add: tree_member_ops_def carrier_facts lseq_assign_def zeroed_lseq_def filled_lseq_def lseq_ops_def)

lemma route_set: "dd_set_seq tree_member_ops (carrier name []) name \<lparr>l_mem = [b], l_len = 1, l_loaned = True\<rparr> =
    (DDS_RETCODE_OK, carrier name [b])"
  by (simp add: tree_member_ops_def carrier_facts lseq_elems_def) (simp add: carrier_def)

lemma route_write:
  "RTI_RS_KafkaStreamWriter_write (lseq_ops 0) zeroed_lseq tree_member_ops (bounded_ops 1) route_writer
     [carrier ''payload.data'' [10]] =
   Some (Inr (1, route_writer\<lparr>sw_rk := Some \<lparr>bq_sent = [(''t'', [10])], bq_pending = 1\<rparr>\<rparr>))"
  by (simp add: RTI_RS_KafkaStreamWriter_write_def route_writer_def route_sequence produce_sample_def bounded_ops_def)

lemma route_info:
  "\<exists>info. sl_get_member_info tree_samples (carrier name bs) name = (DDS_RETCODE_OK, info)
     \<and> member_kind info = DDS_TK_SEQUENCE \<and> element_kind info = DDS_TK_OCTET"
  by (simp add: carrier_facts dinfo_def)

lemma carrier_state_facts:
  "lseq_wf (st_octet_seq carrier_state)" "st_msg_converter carrier_state = Some (2, sample_converter)"
  "cf_buffer_member (carrier_config name) = Some name"
  by (simp_all add: carrier_state_def carrier_config_def empty_lseq_def lseq_wf_def)

end
