(* ===== verification/Kafka_Connection.thy ===== *)
theory Kafka_Connection
  imports Kafka_Writer
begin

text \<open>
  The life cycle of the objects of the Kafka adapter,
  \<^verbatim>\<open>plugins/adapters/kafka/srcC/KafkaConnection.c\<close> and \<^verbatim>\<open>KafkaAdapter.c\<close>: plugin,
  connection, stream writer and stream reader are created with the resources they own
  (heap blocks, librdkafka handles, DDS objects, semaphores, a thread) and deleted again.
  Every resource is an entry of the ledger, so what an error path leaks, and what a
  deletion leaves behind, is a statement about \<open>live\<close>. The calls into librdkafka, DDS and
  the Routing Service are the parameters of \<open>rd_kafka\<close>.
\<close>

section \<open>State and parameters\<close>

datatype rd_kafka_type = RD_KAFKA_PRODUCER | RD_KAFKA_CONSUMER

text \<open>The kinds of resources; a handle of librdkafka carries its configuration.\<close>

datatype 'c resource =
    Plugin_Block
  | Connection_Block
  | Writer_Block
  | Reader_Block
  | Sample_List
  | Info_List
  | Sample_Info
  | Dynamic_Data
  | Type_Support
  | Kafka_Conf
  | Kafka_Handle rd_kafka_type 'c
  | Topic_Partition_List
  | Semaphore
  | Joinable_Thread

text \<open>Lines that the operations write to the log and that a caller acts on.\<close>

datatype log_line =
    Delivery_Failed string
  | Message_Delivered nat int
  | Not_Delivered int
  | Error_Deleting_Thread

record 'c world = "'c resource ledger" +
  env_errors :: "string list"
  log_lines :: "log_line list"

text \<open>
  The library calls whose result the operations depend on. \<open>conf_set\<close> and \<open>rd_kafka_new\<close>
  return the text of \<open>errstr\<close> when they fail; \<open>subscribe\<close> returns an error number, 0 for
  success; \<open>stop_and_delete\<close> tells whether the thread could be stopped and deleted.
\<close>

record 'c rd_kafka =
  lookup_property :: "rs_properties \<Rightarrow> string \<Rightarrow> string option"
  conf_new :: 'c
  conf_set :: "'c \<Rightarrow> string \<Rightarrow> string \<Rightarrow> string + 'c"
  conf_set_dr_msg_cb :: "'c \<Rightarrow> 'c"
  rd_kafka_new :: "rd_kafka_type \<Rightarrow> 'c \<Rightarrow> string + 'c"
  poll_set_consumer :: "'c \<Rightarrow> 'c"
  subscribe :: "'c \<Rightarrow> (string \<times> int) list \<Rightarrow> int \<times> 'c"
  err2str :: "int \<Rightarrow> string"
  rk_flush :: "'c \<Rightarrow> 'c"
  outq_len :: "'c \<Rightarrow> int"
  consumer_close :: "'c \<Rightarrow> 'c"
  octet_seq_initialize :: bool
  stop_and_delete :: bool

record RTI_RS_KafkaConnection =
  kc_addr :: addr
  kc_adapter :: addr
  bootstrap_servers :: string

record RTI_RS_KafkaStreamReader =
  sr_addr :: addr
  sr_rk :: "addr option"
  sr_topic :: "string option"
  sr_polling_thread :: "addr option"
  sr_poll_sem :: "addr option"
  sr_read_sem :: "addr option"
  sr_run_thread :: bool
  sr_sample_list :: "addr option"
  sr_sample_0 :: "addr option"
  sr_info_list :: "addr option"
  sr_info_0 :: "addr option"
  sr_type_support :: "addr option"

definition set_error :: "string \<Rightarrow> ('c, 'z) world_scheme \<Rightarrow> ('c, 'z) world_scheme" where
  "set_error msg w = w\<lparr>env_errors := env_errors w @ [msg]\<rparr>"

definition log_exception :: "log_line \<Rightarrow> ('c, 'z) world_scheme \<Rightarrow> ('c, 'z) world_scheme" where
  "log_exception l w = w\<lparr>log_lines := log_lines w @ [l]\<rparr>"

text \<open>A call on a handle acts on the configuration and state the ledger keeps for it.\<close>

definition on_handle :: "addr \<Rightarrow> ('c \<Rightarrow> 'c) \<Rightarrow> ('c, 'z) world_scheme \<Rightarrow> fault + ('c, 'z) world_scheme" where
  "on_handle rk f w =
     (case live w rk of
        Some (Kafka_Handle ty c) \<Rightarrow> Inr (w\<lparr>live := (live w)(rk \<mapsto> Kafka_Handle ty (f c))\<rparr>)
      | _ \<Rightarrow> Inl Use_After_Free)"

section \<open>Configuration\<close>

text \<open>The properties meant for Routing Service itself, which the loops skip.\<close>

definition rti_property :: "string \<Rightarrow> bool" where
  "rti_property name \<longleftrightarrow> name = ''topic'' \<or> name = ''rti.routing_service.entity.resource_name''"

fun set_properties :: "'c rd_kafka \<Rightarrow> rs_properties \<Rightarrow> 'c \<Rightarrow> string + 'c" where
  "set_properties api [] conf = Inr conf"
| "set_properties api ((name, v) # properties) conf =
     (if rti_property name then set_properties api properties conf
      else (case conf_set api conf name v of
              Inl errstr \<Rightarrow> Inl errstr
            | Inr conf \<Rightarrow> set_properties api properties conf))"

section \<open>Stream writers\<close>

text \<open>The delivery report callback.\<close>

definition RTI_RS_KafkaConnection_dr_msg_cb ::
  "'c rd_kafka \<Rightarrow> int \<Rightarrow> nat \<Rightarrow> int \<Rightarrow> ('c, 'z) world_scheme \<Rightarrow> ('c, 'z) world_scheme" where
  "RTI_RS_KafkaConnection_dr_msg_cb api err len part w =
     (if err \<noteq> 0 then log_exception (Delivery_Failed (err2str api err)) w
      else log_exception (Message_Delivered len part) w)"

text \<open>
  The handle is read before the pointer to the writer is compared with NULL, so a NULL
  writer faults.
\<close>

definition RTI_RS_KafkaConnection_cleanup_stream_writer ::
  "addr RTI_RS_KafkaStreamWriter option \<Rightarrow> ('c, 'z) world_scheme \<Rightarrow> fault + ('c, 'z) world_scheme" where
  "RTI_RS_KafkaConnection_cleanup_stream_writer self w =
     (case self of
        None \<Rightarrow> Inl Null_Deref
      | Some self \<Rightarrow> bindF (release_opt (sw_rk self) w) (release (sw_addr self)))"

text \<open>The label \<open>error\<close> of \<open>create_stream_writer\<close>.\<close>

definition writer_error ::
  "addr RTI_RS_KafkaStreamWriter option \<Rightarrow> ('c, 'z) world_scheme \<Rightarrow>
   fault + addr RTI_RS_KafkaStreamWriter option \<times> ('c, 'z) world_scheme" where
  "writer_error self w = bindF (RTI_RS_KafkaConnection_cleanup_stream_writer self w) (\<lambda>w. Inr (None, w))"

text \<open>
  From \<open>rd_kafka_conf_new\<close> on: the configuration is set and the producer created, which
  takes the configuration over when it succeeds.
\<close>

definition create_producer ::
  "'c rd_kafka \<Rightarrow> RTI_RS_KafkaConnection \<Rightarrow> rs_properties \<Rightarrow> addr RTI_RS_KafkaStreamWriter \<Rightarrow>
   ('c, 'z) world_scheme \<Rightarrow> fault + addr RTI_RS_KafkaStreamWriter option \<times> ('c, 'z) world_scheme" where
  "create_producer api kafka_connection properties self w =
     (let (conf, w) = acquire Kafka_Conf w in
      case conf_set api (conf_new api) ''bootstrap.servers'' (bootstrap_servers kafka_connection) of
        Inl errstr \<Rightarrow> writer_error (Some self) (set_error errstr w)
      | Inr c \<Rightarrow>
      (case set_properties api properties c of
        Inl errstr \<Rightarrow> writer_error (Some self) (set_error errstr w)
      | Inr c \<Rightarrow>
      (case rd_kafka_new api RD_KAFKA_PRODUCER (conf_set_dr_msg_cb api c) of
        Inl errstr \<Rightarrow> writer_error (Some self) (set_error errstr w)
      | Inr c \<Rightarrow>
          bindF (release conf w) (\<lambda>w.
            let (rk, w) = acquire (Kafka_Handle RD_KAFKA_PRODUCER c) w in
            Inr (Some (self\<lparr>sw_rk := Some rk\<rparr>), w)))))"

definition RTI_RS_KafkaConnection_create_stream_writer ::
  "'c rd_kafka \<Rightarrow> RTI_RS_KafkaConnection \<Rightarrow> string option \<Rightarrow> rs_properties \<Rightarrow> ('c, 'z) world_scheme \<Rightarrow>
   fault + addr RTI_RS_KafkaStreamWriter option \<times> ('c, 'z) world_scheme" where
  "RTI_RS_KafkaConnection_create_stream_writer api kafka_connection stream_name properties w =
     (case alloc Writer_Block w of
        (None, w) \<Rightarrow>
          writer_error None (set_error ''RTI_RS_KafkaStreamWriter memory allocation error'' w)
      | (Some a, w) \<Rightarrow>
          (let self = \<lparr>sw_addr = a, sw_rk = None, sw_topic = None\<rparr> in
           if stream_name = None then writer_error (Some self) (set_error ''stream_name is null'' w)
           else
             (case lookup_property api properties ''topic'' of
                None \<Rightarrow> writer_error (Some self) (set_error ''topic name missing'' w)
              | Some topic \<Rightarrow>
                  create_producer api kafka_connection properties (self\<lparr>sw_topic := Some topic\<rparr>) w)))"

definition RTI_RS_KafkaConnection_delete_stream_writer ::
  "'c rd_kafka \<Rightarrow> addr RTI_RS_KafkaStreamWriter \<Rightarrow> ('c, 'z) world_scheme \<Rightarrow> fault + ('c, 'z) world_scheme" where
  "RTI_RS_KafkaConnection_delete_stream_writer api self w =
     (case sw_rk self of
        None \<Rightarrow> Inl Null_Deref
      | Some rk \<Rightarrow>
          bindF (on_handle rk (rk_flush api) w) (\<lambda>w.
            case live w rk of
              Some (Kafka_Handle _ c) \<Rightarrow>
                RTI_RS_KafkaConnection_cleanup_stream_writer (Some self)
                  (if outq_len api c > 0 then log_exception (Not_Delivered (outq_len api c)) w else w)
            | _ \<Rightarrow> Inl Use_After_Free))"

section \<open>Stream readers\<close>

text \<open>
  What \<open>cleanup\<close> frees: the consumer, the semaphores the reader points to, the two arrays
  and the reader. The octet sequence never owns memory here, so finalizing it releases
  nothing. The sample, the sample info and the type support are not freed.
\<close>

definition RTI_RS_KafkaConnection_cleanup_stream_reader ::
  "RTI_RS_KafkaStreamReader option \<Rightarrow> ('c, 'z) world_scheme \<Rightarrow> fault + ('c, 'z) world_scheme" where
  "RTI_RS_KafkaConnection_cleanup_stream_reader self w =
     (case self of
        None \<Rightarrow> Inl Null_Deref
      | Some self \<Rightarrow>
          bindF (release_opt (sr_rk self) w) (\<lambda>w.
          bindF (release_opt (sr_poll_sem self) w) (\<lambda>w.
          bindF (release_opt (sr_read_sem self) w) (\<lambda>w.
          bindF (release_opt (sr_sample_list self) w) (\<lambda>w.
          bindF (release_opt (sr_info_list self) w) (release (sr_addr self)))))))"

definition reader_error ::
  "RTI_RS_KafkaStreamReader option \<Rightarrow> ('c, 'z) world_scheme \<Rightarrow>
   fault + RTI_RS_KafkaStreamReader option \<times> ('c, 'z) world_scheme" where
  "reader_error self w = bindF (RTI_RS_KafkaConnection_cleanup_stream_reader self w) (\<lambda>w. Inr (None, w))"

text \<open>The polling thread is created last.\<close>

definition start_polling_thread ::
  "RTI_RS_KafkaStreamReader \<Rightarrow> ('c, 'z) world_scheme \<Rightarrow>
   fault + RTI_RS_KafkaStreamReader option \<times> ('c, 'z) world_scheme" where
  "start_polling_thread self w =
     (case alloc Joinable_Thread w of
        (None, w) \<Rightarrow> reader_error (Some self) (set_error ''Error creating polling_thread'' w)
      | (Some th, w) \<Rightarrow> Inr (Some (self\<lparr>sr_polling_thread := Some th\<rparr>), w))"

text \<open>Both semaphores are created twice; the second pair overwrites the pointers to the first.\<close>

definition create_semaphores ::
  "RTI_RS_KafkaStreamReader \<Rightarrow> ('c, 'z) world_scheme \<Rightarrow>
   fault + RTI_RS_KafkaStreamReader option \<times> ('c, 'z) world_scheme" where
  "create_semaphores self w =
     (let (poll_sem, w) = alloc Semaphore w; self = self\<lparr>sr_poll_sem := poll_sem\<rparr> in
      if poll_sem = None then reader_error (Some self) (set_error ''Error creating semaphore'' w) else
      let (read_sem, w) = alloc Semaphore w; self = self\<lparr>sr_read_sem := read_sem\<rparr> in
      if read_sem = None then reader_error (Some self) (set_error ''Error creating semaphore'' w) else
      let (poll_sem, w) = alloc Semaphore w; self = self\<lparr>sr_poll_sem := poll_sem\<rparr> in
      if poll_sem = None then reader_error (Some self) (set_error ''Error creating mutex'' w) else
      let (read_sem, w) = alloc Semaphore w; self = self\<lparr>sr_read_sem := read_sem\<rparr> in
      if read_sem = None then reader_error (Some self) (set_error ''Error creating mutex'' w) else
      start_polling_thread self w)"

text \<open>The subscription to the topic, in partition \<open>RD_KAFKA_PARTITION_UA\<close>.\<close>

definition subscribe_topic ::
  "'c rd_kafka \<Rightarrow> string \<Rightarrow> 'c \<Rightarrow> RTI_RS_KafkaStreamReader \<Rightarrow> ('c, 'z) world_scheme \<Rightarrow>
   fault + RTI_RS_KafkaStreamReader option \<times> ('c, 'z) world_scheme" where
  "subscribe_topic api topic c self w =
     (let (rk, w) = acquire (Kafka_Handle RD_KAFKA_CONSUMER c) w; self = self\<lparr>sr_rk := Some rk\<rparr> in
      bindF (on_handle rk (poll_set_consumer api) w) (\<lambda>w.
      let (subscription, w) = acquire Topic_Partition_List w;
          (error, c) = subscribe api (poll_set_consumer api c) [(topic, -1)] in
      bindF (on_handle rk (\<lambda>_. c) w) (\<lambda>w.
      if error \<noteq> 0
      then bindF (release subscription
             (set_error (''Failed to subscribe to 1 topic(s): '' @ err2str api error) w))
             (reader_error (Some self))
      else bindF (release subscription w) (create_semaphores self))))"

text \<open>From \<open>rd_kafka_conf_new\<close> on: sequence, configuration, consumer.\<close>

definition create_consumer ::
  "'c rd_kafka \<Rightarrow> RTI_RS_KafkaConnection \<Rightarrow> rs_properties \<Rightarrow> string \<Rightarrow> RTI_RS_KafkaStreamReader \<Rightarrow>
   ('c, 'z) world_scheme \<Rightarrow> fault + RTI_RS_KafkaStreamReader option \<times> ('c, 'z) world_scheme" where
  "create_consumer api kafka_connection properties topic self w =
     (let (conf, w) = acquire Kafka_Conf w in
      if \<not> octet_seq_initialize api
      then reader_error (Some self) (set_error ''DDS_OctetSeq_initialize error'' w)
      else
      (case conf_set api (conf_new api) ''bootstrap.servers'' (bootstrap_servers kafka_connection) of
        Inl errstr \<Rightarrow> reader_error (Some self) (set_error errstr w)
      | Inr c \<Rightarrow>
      (case conf_set api c ''group.id'' ''1'' of
        Inl errstr \<Rightarrow> reader_error (Some self) (set_error errstr w)
      | Inr c \<Rightarrow>
      (case set_properties api properties c of
        Inl errstr \<Rightarrow> reader_error (Some self) (set_error errstr w)
      | Inr c \<Rightarrow>
      (case rd_kafka_new api RD_KAFKA_CONSUMER c of
        Inl errstr \<Rightarrow> reader_error (Some self) (set_error errstr w)
      | Inr c \<Rightarrow> bindF (release conf w) (subscribe_topic api topic c self))))))"

text \<open>
  The reader with its arrays, the sample and its info. Neither \<open>DDS_DynamicDataTypeSupport_new\<close>
  nor \<open>DDS_DynamicData_new\<close> is checked, and a failed allocation of the sample info returns
  without clean-up.
\<close>

definition RTI_RS_KafkaConnection_create_stream_reader ::
  "'c rd_kafka \<Rightarrow> RTI_RS_KafkaConnection \<Rightarrow> rs_properties \<Rightarrow> ('c, 'z) world_scheme \<Rightarrow>
   fault + RTI_RS_KafkaStreamReader option \<times> ('c, 'z) world_scheme" where
  "RTI_RS_KafkaConnection_create_stream_reader api kafka_connection properties w =
     (case alloc Reader_Block w of
        (None, w) \<Rightarrow>
          reader_error None (set_error ''RTI_RS_KafkaStreamReader memory allocation error'' w)
      | (Some a, w) \<Rightarrow>
          (let (sample_list, w) = alloc Sample_List w; (info_list, w) = alloc Info_List w;
               self = \<lparr>sr_addr = a, sr_rk = None, sr_topic = None, sr_polling_thread = None,
                 sr_poll_sem = None, sr_read_sem = None, sr_run_thread = True,
                 sr_sample_list = sample_list, sr_sample_0 = None, sr_info_list = info_list,
                 sr_info_0 = None, sr_type_support = None\<rparr> in
           if sample_list = None
           then reader_error (Some self) (set_error ''Memory allocation error (sample_list)'' w)
           else if info_list = None
           then reader_error (Some self) (set_error ''Memory allocation error (info_list)'' w)
           else
             let (type_support, w) = alloc Type_Support w; (sample, w) = alloc Dynamic_Data w;
                 (info, w) = alloc Sample_Info w;
                 self = self\<lparr>sr_type_support := type_support, sr_sample_0 := sample, sr_info_0 := info\<rparr> in
             if info = None then Inr (None, set_error ''Failure creating sample info'' w)
             else
               (case lookup_property api properties ''topic'' of
                  None \<Rightarrow> reader_error (Some self) (set_error ''topic missing'' w)
                | Some topic \<Rightarrow>
                    create_consumer api kafka_connection properties topic
                      (self\<lparr>sr_topic := Some topic\<rparr>) w)))"

text \<open>
  Deletion stops the thread, closes the consumer and cleans up; a thread that could not be
  stopped is only reported.
\<close>

definition RTI_RS_KafkaConnection_delete_stream_reader ::
  "'c rd_kafka \<Rightarrow> RTI_RS_KafkaStreamReader \<Rightarrow> ('c, 'z) world_scheme \<Rightarrow> fault + ('c, 'z) world_scheme" where
  "RTI_RS_KafkaConnection_delete_stream_reader api self w =
     (let self = self\<lparr>sr_run_thread := False\<rparr> in
      bindF (if stop_and_delete api then release_opt (sr_polling_thread self) w
             else Inr (log_exception Error_Deleting_Thread w)) (\<lambda>w.
      let self = self\<lparr>sr_polling_thread := None\<rparr> in
      bindF (case sr_rk self of None \<Rightarrow> Inr w | Some rk \<Rightarrow> on_handle rk (consumer_close api) w) (\<lambda>w.
      RTI_RS_KafkaConnection_cleanup_stream_reader (Some self) w)))"

section \<open>The adapter plugin and its connections\<close>

text \<open>The functions that the plugin registers with the Routing Service.\<close>

datatype adapter_function =
    KafkaAdapterPlugin_delete
  | KafkaAdapterPlugin_create_connection
  | KafkaAdapterPlugin_delete_connection
  | KafkaConnection_create_stream_writer
  | KafkaConnection_delete_stream_writer
  | KafkaConnection_create_stream_reader
  | KafkaConnection_delete_stream_reader
  | KafkaStreamWriter_write
  | KafkaStreamReader_read
  | KafkaStreamReader_return_loan

record RTI_RS_KafkaAdapterPlugin =
  plugin_addr :: addr
  plugin_version :: "int list"
  adapter_plugin_delete :: "adapter_function option"
  adapter_plugin_create_connection :: "adapter_function option"
  adapter_plugin_delete_connection :: "adapter_function option"
  connection_create_session :: "adapter_function option"
  connection_delete_session :: "adapter_function option"
  connection_create_stream_writer :: "adapter_function option"
  connection_delete_stream_writer :: "adapter_function option"
  connection_create_stream_reader :: "adapter_function option"
  connection_delete_stream_reader :: "adapter_function option"
  stream_writer_write :: "adapter_function option"
  stream_reader_read :: "adapter_function option"
  stream_reader_return_loan :: "adapter_function option"
  stream_reader_update :: "adapter_function option"

definition RTI_RS_Kafka_AdapterPlugin_create ::
  "('c, 'z) world_scheme \<Rightarrow> RTI_RS_KafkaAdapterPlugin option \<times> ('c, 'z) world_scheme" where
  "RTI_RS_Kafka_AdapterPlugin_create w =
     (case alloc Plugin_Block w of
        (None, w) \<Rightarrow> (None, set_error ''RTI_RS_KafkaAdpterPlugin memory allocation error'' w)
      | (Some a, w) \<Rightarrow>
          (Some \<lparr>plugin_addr = a, plugin_version = [1, 0, 0, 0],
             adapter_plugin_delete = Some KafkaAdapterPlugin_delete,
             adapter_plugin_create_connection = Some KafkaAdapterPlugin_create_connection,
             adapter_plugin_delete_connection = Some KafkaAdapterPlugin_delete_connection,
             connection_create_session = None,
             connection_delete_session = None,
             connection_create_stream_writer = Some KafkaConnection_create_stream_writer,
             connection_delete_stream_writer = Some KafkaConnection_delete_stream_writer,
             connection_create_stream_reader = Some KafkaConnection_create_stream_reader,
             connection_delete_stream_reader = Some KafkaConnection_delete_stream_reader,
             stream_writer_write = Some KafkaStreamWriter_write,
             stream_reader_read = Some KafkaStreamReader_read,
             stream_reader_return_loan = Some KafkaStreamReader_return_loan,
             stream_reader_update = None\<rparr>, w))"

definition RTI_RS_KafkaAdapterPlugin_delete ::
  "RTI_RS_KafkaAdapterPlugin \<Rightarrow> ('c, 'z) world_scheme \<Rightarrow> fault + ('c, 'z) world_scheme" where
  "RTI_RS_KafkaAdapterPlugin_delete adapter w = release (plugin_addr adapter) w"

text \<open>A connection without \<open>bootstrap.servers\<close> is an error; the block is not freed then.\<close>

definition RTI_RS_KafkaAdapterPlugin_create_connection ::
  "'c rd_kafka \<Rightarrow> RTI_RS_KafkaAdapterPlugin \<Rightarrow> rs_properties \<Rightarrow> ('c, 'z) world_scheme \<Rightarrow>
   RTI_RS_KafkaConnection option \<times> ('c, 'z) world_scheme" where
  "RTI_RS_KafkaAdapterPlugin_create_connection api adapter properties w =
     (case alloc Connection_Block w of
        (None, w) \<Rightarrow> (None, set_error ''RTI_RS_KafkaConnection memory allocation error'' w)
      | (Some a, w) \<Rightarrow>
          (case lookup_property api properties ''bootstrap.servers'' of
             None \<Rightarrow> (None, set_error ''bootstrap.servers missing property brokers'' w)
           | Some servers \<Rightarrow>
               (Some \<lparr>kc_addr = a, kc_adapter = plugin_addr adapter, bootstrap_servers = servers\<rparr>, w)))"

definition RTI_RS_KafkaAdapterPlugin_delete_connection ::
  "RTI_RS_KafkaConnection \<Rightarrow> ('c, 'z) world_scheme \<Rightarrow> fault + ('c, 'z) world_scheme" where
  "RTI_RS_KafkaAdapterPlugin_delete_connection connection w = release (kc_addr connection) w"

section \<open>Configuration: the loop against its specification\<close>

text \<open>Setting a list of properties one after the other, stopping at the first error.\<close>

fun conf_set_all :: "'c rd_kafka \<Rightarrow> rs_properties \<Rightarrow> 'c \<Rightarrow> string + 'c" where
  "conf_set_all api [] conf = Inr conf"
| "conf_set_all api ((name, v) # settings) conf =
     (case conf_set api conf name v of Inl e \<Rightarrow> Inl e | Inr conf \<Rightarrow> conf_set_all api settings conf)"

text \<open>The properties that are for Kafka: all but the two that the adapter itself reads.\<close>

abbreviation kafka_settings :: "rs_properties \<Rightarrow> rs_properties" where
  "kafka_settings properties \<equiv>
     filter (\<lambda>(name, v). name \<notin> {''topic'', ''rti.routing_service.entity.resource_name''}) properties"

lemma set_properties_conf_set_all:
  "set_properties api properties conf = conf_set_all api (kafka_settings properties) conf"
  by (induction properties arbitrary: conf) (auto simp: rti_property_def split: sum.split)

section \<open>Cleaning up\<close>

text \<open>
  What the creation of a stream relies on: cleaning an object up releases the resources it
  points to. A creation that fails calls it, with NULL when there is no object yet.
\<close>

locale stream_cleanup =
  fixes cleanup :: "'o option \<Rightarrow> ('c, 'z) world_scheme \<Rightarrow> fault + ('c, 'z) world_scheme"
    and resources :: "'o \<Rightarrow> addr list"
  assumes cleanup_NULL: "cleanup None w = Inl Null_Deref"
    and cleanup_object: "cleanup (Some ob) w = release_all (resources ob) w"
begin

lemma cleanup_owned:
  assumes "owned w0 (resources ob) w"
  shows "\<exists>w'. cleanup (Some ob) w = Inr w' \<and> untouched w0 w' \<and> env_errors w' = env_errors w"
proof -
  have ok: "release_all (resources ob) w = Inr (w\<lparr>live := (live w) |` (- set (resources ob))\<rparr>)"
    using assms by (intro release_all_ok) (auto simp: owned_def)
  then have "untouched w0 (w\<lparr>live := (live w) |` (- set (resources ob))\<rparr>)"
    using owned_release [of w0 "resources ob" "[]" w] assms owned_untouched by fastforce
  with ok show ?thesis by (simp add: cleanup_object)
qed

end

definition writer_resources :: "addr RTI_RS_KafkaStreamWriter \<Rightarrow> addr list" where
  "writer_resources self = opt_list (sw_rk self) @ [sw_addr self]"

definition reader_resources :: "RTI_RS_KafkaStreamReader \<Rightarrow> addr list" where
  "reader_resources self = opt_list (sr_rk self) @ opt_list (sr_poll_sem self)
     @ opt_list (sr_read_sem self) @ opt_list (sr_sample_list self) @ opt_list (sr_info_list self)
     @ [sr_addr self]"

interpretation writer: stream_cleanup RTI_RS_KafkaConnection_cleanup_stream_writer writer_resources
  by unfold_locales
    (simp_all add: RTI_RS_KafkaConnection_cleanup_stream_writer_def writer_resources_def
      release_all_append release_opt_all release_all_single)

interpretation reader: stream_cleanup RTI_RS_KafkaConnection_cleanup_stream_reader reader_resources
  by unfold_locales
    (simp_all add: RTI_RS_KafkaConnection_cleanup_stream_reader_def reader_resources_def
      release_all_append release_opt_all release_all_single)

text \<open>
  A creation that keeps its contract returns an object without an error, or NULL with
  exactly one error, and leaves the resources of its caller alone.
\<close>

definition clean_outcome ::
  "('c, 'z) world_scheme \<Rightarrow> (fault + 'o option \<times> ('c, 'z) world_scheme) \<Rightarrow> bool" where
  "clean_outcome w0 r \<longleftrightarrow>
     (\<exists>p w. r = Inr (p, w) \<and> untouched w0 w
       \<and> (\<exists>msg. env_errors w = env_errors w0 @ (if p = None then [msg] else [])))"

lemma writer_error_clean:
  assumes "owned w0 (writer_resources self) w" and "env_errors w = env_errors w0"
  shows "clean_outcome w0 (writer_error (Some self) (set_error msg w))"
proof -
  have "owned w0 (writer_resources self) (set_error msg w)"
    using assms(1) by (simp add: owned_def wf_ledger_def set_error_def)
  from writer.cleanup_owned [OF this] assms(2) show ?thesis
    by (auto simp: clean_outcome_def writer_error_def set_error_def)
qed

lemma writer_error_no_object: "writer_error self w \<noteq> Inr (Some x, w')"
  by (auto simp: writer_error_def bindF_eq_Inr)

lemma reader_error_no_object: "reader_error self w \<noteq> Inr (Some x, w')"
  by (auto simp: reader_error_def bindF_eq_Inr)

lemma reader_error_clean:
  assumes "owned w0 (reader_resources self) w" and "env_errors w = env_errors w0"
  shows "clean_outcome w0 (reader_error (Some self) (set_error msg w))"
proof -
  have "owned w0 (reader_resources self) (set_error msg w)"
    using assms(1) by (simp add: owned_def wf_ledger_def set_error_def)
  from reader.cleanup_owned [OF this] assms(2) show ?thesis
    by (auto simp: clean_outcome_def reader_error_def set_error_def)
qed

lemma alloc_env_errors: "alloc k w = (p, w1) \<Longrightarrow> env_errors w1 = env_errors w"
  by (rule alloc_cases [of k w]) auto

lemma acquire_env_errors: "acquire k w = (a, w1) \<Longrightarrow> env_errors w1 = env_errors w"
  by (auto simp: acquire_def)

lemma on_handle_owned:
  assumes "owned w0 as w" and "on_handle rk f w = Inr w1" and "rk \<in> set as"
  shows "owned w0 as w1 \<and> env_errors w1 = env_errors w"
  using assms by (auto simp: on_handle_def owned_def wf_ledger_def split: option.splits resource.splits)

section \<open>Creating a writer\<close>

text \<open>The configuration of the producer, as one list of settings.\<close>

definition producer_conf :: "'c rd_kafka \<Rightarrow> RTI_RS_KafkaConnection \<Rightarrow> rs_properties \<Rightarrow> string + 'c" where
  "producer_conf api kafka_connection properties =
     (case conf_set_all api ((''bootstrap.servers'', bootstrap_servers kafka_connection)
              # kafka_settings properties) (conf_new api) of
        Inl e \<Rightarrow> Inl e
      | Inr c \<Rightarrow> rd_kafka_new api RD_KAFKA_PRODUCER (conf_set_dr_msg_cb api c))"

lemma create_producer_eq:
  "create_producer api conn properties self w =
     (case producer_conf api conn properties of
        Inl e \<Rightarrow> writer_error (Some self) (set_error e (snd (acquire Kafka_Conf w)))
      | Inr c \<Rightarrow>
          (let (rk, w') = acquire (Kafka_Handle RD_KAFKA_PRODUCER c)
                 (w\<lparr>next_id := Suc (next_id w), live := (live w)(next_id w := None)\<rparr>) in
           Inr (Some (self\<lparr>sw_rk := Some rk\<rparr>), w')))"
  by (simp add: create_producer_def producer_conf_def set_properties_conf_set_all acquire_def
      release_def Let_def split: sum.split)

lemma create_producer_clean:
  assumes "owned w0 (writer_resources self) w" and "env_errors w = env_errors w0"
    and "sw_rk self = None"
  shows "clean_outcome w0 (create_producer api conn properties self w)"
proof (cases "producer_conf api conn properties")
  case (Inl e)
  obtain a w1 where a: "acquire Kafka_Conf w = (a, w1)" by (cases "acquire Kafka_Conf w")
  then have "owned w0 (writer_resources self) w1"
    using owned_acquire_drop [OF assms(1)] by blast
  from writer_error_clean [OF this] Inl a assms(2) show ?thesis
    by (simp add: create_producer_eq acquire_env_errors)
next
  case (Inr c)
  have "wf_ledger w" using assms(1) by (simp add: owned_def)
  with Inr assms show ?thesis
    by (auto simp: create_producer_eq acquire_def clean_outcome_def untouched_def owned_def wf_ledger_def)
qed

lemma create_stream_writer_clean:
  assumes "wf_ledger w" and "alloc_ok w"
  shows "clean_outcome w (RTI_RS_KafkaConnection_create_stream_writer api conn stream_name properties w)"
proof -
  obtain a w1 where a: "alloc Writer_Block w = (Some a, w1)"
    using alloc_okE [OF assms(2)] by blast
  have own: "owned w (writer_resources \<lparr>sw_addr = a, sw_rk = None, sw_topic = topic\<rparr>) w1" for topic
    using owned_alloc [OF owned_start [OF assms(1)] a] by (simp add: writer_resources_def)
  show ?thesis
    using writer_error_clean [OF own] create_producer_clean [OF own] alloc_env_errors [OF a]
    by (simp add: RTI_RS_KafkaConnection_create_stream_writer_def a Let_def split: option.split)
qed

text \<open>
  C14. The creation of a stream writer succeeds exactly when the block could be allocated,
  the stream has a name, the topic is given, and librdkafka accepts the servers of the
  connection followed by every property that is not one of the Routing Service's own, in
  their order. The writer then owns two new resources, its block and a producer made from
  that configuration with the delivery callback set; everything else is as before.
\<close>

theorem create_stream_writer_iff:
  assumes "wf_ledger w"
  shows "RTI_RS_KafkaConnection_create_stream_writer api conn stream_name properties w = Inr (Some self, w')
    \<longleftrightarrow> (\<exists>topic c. alloc_ok w \<and> stream_name \<noteq> None \<and> lookup_property api properties ''topic'' = Some topic
          \<and> producer_conf api conn properties = Inr c
          \<and> self = \<lparr>sw_addr = next_id w, sw_rk = Some (next_id w + 2), sw_topic = Some topic\<rparr>
          \<and> w' = w\<lparr>next_id := next_id w + 3, sched := tl (sched w),
              live := (live w)(next_id w \<mapsto> Writer_Block,
                               next_id w + 2 \<mapsto> Kafka_Handle RD_KAFKA_PRODUCER c)\<rparr>)"
proof -
  have fresh: "live w (Suc (next_id w)) = None" using assms by (simp add: wf_ledger_def)
  show ?thesis
    by (rule alloc_cases [of Writer_Block w])
      (auto simp: RTI_RS_KafkaConnection_create_stream_writer_def create_producer_eq acquire_def
        writer_error_no_object Let_def fun_upd_idem fresh
        split: option.splits sum.splits)
qed

text \<open>
  C38. When the block is allocated, a creation that fails still keeps its contract: it
  returns NULL, no fault, with exactly one error set, and the resources of the caller are
  untouched. When the very first allocation fails, the clean-up dereferences NULL.
\<close>

theorem create_stream_writer_outcome:
  assumes "wf_ledger w"
  shows "(alloc_ok w \<longrightarrow>
      clean_outcome w (RTI_RS_KafkaConnection_create_stream_writer api conn stream_name properties w))
    \<and> (\<not> alloc_ok w \<longrightarrow>
      RTI_RS_KafkaConnection_create_stream_writer api conn stream_name properties w = Inl Null_Deref)"
  using create_stream_writer_clean [OF assms]
  by (simp add: RTI_RS_KafkaConnection_create_stream_writer_def alloc_def writer_error_def
      writer.cleanup_NULL)

text \<open>What a successful creation leaves behind, in the form that the deletion needs.\<close>

lemma create_stream_writer_live:
  assumes "wf_ledger w"
    and "RTI_RS_KafkaConnection_create_stream_writer api conn stream_name properties w = Inr (Some self, w')"
  obtains topic c where
    "self = \<lparr>sw_addr = next_id w, sw_rk = Some (next_id w + 2), sw_topic = Some topic\<rparr>"
    "live w' = (live w)(next_id w \<mapsto> Writer_Block, next_id w + 2 \<mapsto> Kafka_Handle RD_KAFKA_PRODUCER c)"
    "lookup_property api properties ''topic'' = Some topic"
    "producer_conf api conn properties = Inr c"
  using assms
  by (rule_tac alloc_cases [of Writer_Block w])
    (auto simp: RTI_RS_KafkaConnection_create_stream_writer_def create_producer_eq acquire_def
      writer_error_no_object Let_def fun_upd_idem wf_ledger_def
      split: option.splits sum.splits if_splits)

lemma delete_stream_writer_ok:
  assumes "sw_rk self = Some rk" and "rk \<noteq> sw_addr self"
    and "live w rk = Some (Kafka_Handle ty c)" and "live w (sw_addr self) = Some Writer_Block"
  shows "RTI_RS_KafkaConnection_delete_stream_writer api self w
    = Inr (w\<lparr>live := (live w)(rk := None, sw_addr self := None),
        log_lines := log_lines w @
          (if outq_len api (rk_flush api c) > 0 then [Not_Delivered (outq_len api (rk_flush api c))] else [])\<rparr>)"
  using assms
  by (simp add: RTI_RS_KafkaConnection_delete_stream_writer_def on_handle_def log_exception_def
      RTI_RS_KafkaConnection_cleanup_stream_writer_def release_opt_def release_def)

lemma delete_created_writer:
  assumes "wf_ledger w"
    and "RTI_RS_KafkaConnection_create_stream_writer api conn stream_name properties w = Inr (Some self, w')"
  shows "\<exists>w'' c. RTI_RS_KafkaConnection_delete_stream_writer api self w' = Inr w'' \<and> live w'' = live w
    \<and> producer_conf api conn properties = Inr c
    \<and> log_lines w'' = log_lines w' @
        (if outq_len api (rk_flush api c) > 0 then [Not_Delivered (outq_len api (rk_flush api c))] else [])"
  using assms
proof (rule create_stream_writer_live)
  fix topic c
  assume self: "self = \<lparr>sw_addr = next_id w, sw_rk = Some (next_id w + 2), sw_topic = Some topic\<rparr>"
    and live: "live w' = (live w)(next_id w \<mapsto> Writer_Block,
      next_id w + 2 \<mapsto> Kafka_Handle RD_KAFKA_PRODUCER c)"
    and conf: "producer_conf api conn properties = Inr c"
  have "live w' (sw_addr self) = Some Writer_Block"
    "live w' (next_id w + 2) = Some (Kafka_Handle RD_KAFKA_PRODUCER c)" using self live by simp_all
  moreover have "(live w')(next_id w + 2 := None, next_id w := None) = live w"
    using assms(1) by (auto simp: live wf_ledger_def)
  ultimately show ?thesis
    using self conf delete_stream_writer_ok [of self "next_id w + 2" w'] by auto
qed

text \<open>
  Deleting a writer that was just created flushes its producer, reports the messages
  that were still not delivered after the flush, and releases exactly what the creation
  made: the ledger of live resources is the one before the creation.
\<close>

theorem create_delete_stream_writer:
  assumes "wf_ledger w"
    and "RTI_RS_KafkaConnection_create_stream_writer api conn stream_name properties w = Inr (Some self, w')"
  shows "\<exists>w'' c. RTI_RS_KafkaConnection_delete_stream_writer api self w' = Inr w'' \<and> live w'' = live w
    \<and> producer_conf api conn properties = Inr c
    \<and> log_lines w'' = log_lines w' @
        (if outq_len api (rk_flush api c) > 0 then [Not_Delivered (outq_len api (rk_flush api c))] else [])"
  by (rule delete_created_writer [OF assms])

section \<open>Creating a reader\<close>

lemmas reader_own_defs = owned_def reader_resources_def

text \<open>A semaphore that was just created becomes one of the resources of the reader.\<close>

lemma own_poll_sem:
  assumes "owned w0 (reader_resources self) w" and "alloc k w = (p, w1)"
  shows "owned w0 (reader_resources (self\<lparr>sr_poll_sem := p\<rparr>)) w1"
  by (rule owned_sublist [OF owned_alloc [OF assms]])
    (use owned_alloc [OF assms] in \<open>auto simp: reader_own_defs split: option.splits\<close>)

lemma own_read_sem:
  assumes "owned w0 (reader_resources self) w" and "alloc k w = (p, w1)"
  shows "owned w0 (reader_resources (self\<lparr>sr_read_sem := p\<rparr>)) w1"
  by (rule owned_sublist [OF owned_alloc [OF assms]])
    (use owned_alloc [OF assms] in \<open>auto simp: reader_own_defs split: option.splits\<close>)

lemma own_rk:
  assumes "owned w0 (reader_resources self) w" and "acquire k w = (a, w1)"
  shows "owned w0 (reader_resources (self\<lparr>sr_rk := Some a\<rparr>)) w1"
  by (rule owned_sublist [OF owned_acquire [OF assms]])
    (use owned_acquire [OF assms] in \<open>auto simp: reader_own_defs split: option.splits\<close>)

lemma start_polling_thread_clean:
  assumes "owned w0 (reader_resources self) w" and "env_errors w = env_errors w0"
  shows "clean_outcome w0 (start_polling_thread self w)"
proof -
  obtain p w1 where a: "alloc Joinable_Thread w = (p, w1)" by (cases "alloc Joinable_Thread w")
  have "owned w0 (reader_resources self) w1"
    by (rule owned_alloc_drop [OF assms(1) a])
  with a assms(2) alloc_env_errors [OF a] show ?thesis
    using reader_error_clean [of w0 self w1] owned_untouched
    by (cases p) (auto simp: start_polling_thread_def clean_outcome_def)
qed

lemma create_semaphores_clean:
  assumes "owned w0 (reader_resources self) w" and "env_errors w = env_errors w0"
  shows "clean_outcome w0 (create_semaphores self w)"
proof -
  obtain p1 w1 where a1: "alloc Semaphore w = (p1, w1)" by (cases "alloc Semaphore w")
  obtain p2 w2 where a2: "alloc Semaphore w1 = (p2, w2)" by (cases "alloc Semaphore w1")
  obtain p3 w3 where a3: "alloc Semaphore w2 = (p3, w3)" by (cases "alloc Semaphore w2")
  obtain p4 w4 where a4: "alloc Semaphore w3 = (p4, w4)" by (cases "alloc Semaphore w3")
  note own1 = own_poll_sem [OF assms(1) a1]
  note own2 = own_read_sem [OF own1 a2]
  note own3 = own_poll_sem [OF own2 a3]
  note own4 = own_read_sem [OF own3 a4]
  note errs = assms(2) alloc_env_errors [OF a1] alloc_env_errors [OF a2]
    alloc_env_errors [OF a3] alloc_env_errors [OF a4]
  show ?thesis
    using reader_error_clean [OF own1] reader_error_clean [OF own2] reader_error_clean [OF own3]
      reader_error_clean [OF own4] start_polling_thread_clean [OF own4] errs
    by (auto simp: create_semaphores_def a1 a2 a3 a4 Let_def)
qed

lemma release_set_error:
  "release a (set_error msg w) = bindF (release a w) (\<lambda>w. Inr (set_error msg w))"
  by (simp add: release_def set_error_def split: option.split)

lemma subscribe_topic_eq:
  assumes "subscribe api (poll_set_consumer api c) [(topic, -1)] = (err, c')"
  shows "subscribe_topic api topic c self w =
    (let self = self\<lparr>sr_rk := Some (next_id w)\<rparr>;
         w = w\<lparr>next_id := Suc (Suc (next_id w)),
               live := (live w)(next_id w \<mapsto> Kafka_Handle RD_KAFKA_CONSUMER c', Suc (next_id w) := None)\<rparr> in
     if err \<noteq> 0
     then reader_error (Some self)
            (set_error (''Failed to subscribe to 1 topic(s): '' @ err2str api err) w)
     else create_semaphores self w)"
  using assms
  by (simp add: subscribe_topic_def acquire_def on_handle_def release_set_error release_live Let_def
      fun_upd_twist)

lemma subscribe_topic_clean:
  assumes "owned w0 (reader_resources self) w" and "env_errors w = env_errors w0"
  shows "clean_outcome w0 (subscribe_topic api topic c self w)"
proof -
  let ?n = "next_id w" and ?h = "Kafka_Handle RD_KAFKA_CONSUMER"
  let ?self = "self\<lparr>sr_rk := Some ?n\<rparr>"
  obtain err c' where sub: "subscribe api (poll_set_consumer api c) [(topic, -1)] = (err, c')"
    by (cases "subscribe api (poll_set_consumer api c) [(topic, -1)]")
  let ?w = "w\<lparr>next_id := Suc (Suc ?n), live := (live w)(?n \<mapsto> ?h c', Suc ?n := None)\<rparr>"
  have "owned w0 (reader_resources ?self) (snd (acquire (?h c) w))"
    by (rule own_rk [OF assms(1)]) (simp add: acquire_def)
  moreover have "Suc ?n \<notin> set (reader_resources ?self)"
    using owned_lt [OF assms(1)] by (force simp: reader_resources_def split: option.splits)
  moreover have "next_id w0 \<le> ?n" using assms(1) by (simp add: owned_def)
  ultimately have own: "owned w0 (reader_resources ?self) ?w"
    by (auto simp: owned_def wf_ledger_def)
  from own assms(2) show ?thesis
    using reader_error_clean [OF own] create_semaphores_clean [OF own]
    by (simp add: subscribe_topic_eq [OF sub] Let_def)
qed

lemma create_consumer_clean:
  assumes "owned w0 (reader_resources self) w" and "env_errors w = env_errors w0"
  shows "clean_outcome w0 (create_consumer api conn properties topic self w)"
proof -
  obtain a w1 where a: "acquire Kafka_Conf w = (a, w1)" by (cases "acquire Kafka_Conf w")
  note own = owned_acquire [OF assms(1) a]
  note own1 = owned_acquire_drop [OF assms(1) a]
  obtain w2 where w2: "release a w1 = Inr w2" "owned w0 (reader_resources self) w2"
    using owned_release [of w0 "[a]" "reader_resources self" w1] own
    by (auto simp: release_all_single simp del: release_all.simps)
  have "env_errors w1 = env_errors w0" "env_errors w2 = env_errors w0"
    using assms(2) acquire_env_errors [OF a] w2(1) by (auto simp: release_def split: option.splits)
  then show ?thesis
    using reader_error_clean [OF own1] subscribe_topic_clean [OF w2(2)] w2(1)
    by (simp add: create_consumer_def a Let_def split: sum.split)
qed

lemma create_stream_reader_clean:
  assumes "wf_ledger w" and "alloc_ok w"
  shows "clean_outcome w (RTI_RS_KafkaConnection_create_stream_reader api conn properties w)"
proof -
  obtain a w1 where a: "alloc Reader_Block w = (Some a, w1)" using alloc_okE [OF assms(2)] by blast
  obtain p2 w2 where a2: "alloc Sample_List w1 = (p2, w2)" by (cases "alloc Sample_List w1")
  obtain p3 w3 where a3: "alloc Info_List w2 = (p3, w3)" by (cases "alloc Info_List w2")
  obtain p4 w4 where a4: "alloc Type_Support w3 = (p4, w4)" by (cases "alloc Type_Support w3")
  obtain p5 w5 where a5: "alloc Dynamic_Data w4 = (p5, w5)" by (cases "alloc Dynamic_Data w4")
  obtain p6 w6 where a6: "alloc Sample_Info w5 = (p6, w6)" by (cases "alloc Sample_Info w5")
  have own: "owned w (opt_list p3 @ opt_list p2 @ [a]) w3"
    using owned_alloc [OF owned_alloc [OF owned_alloc [OF owned_start [OF assms(1)] a] a2] a3] by simp
  have own3: "owned w (reader_resources \<lparr>sr_addr = a, sr_rk = None, sr_topic = topic,
      sr_polling_thread = None, sr_poll_sem = None, sr_read_sem = None, sr_run_thread = True,
      sr_sample_list = p2, sr_sample_0 = x, sr_info_list = p3, sr_info_0 = y,
      sr_type_support = z\<rparr>) w3" for topic x y z
    by (rule owned_sublist [OF own]) (use own in \<open>auto simp: reader_own_defs\<close>)
  note own6 = owned_alloc_drop [OF owned_alloc_drop [OF owned_alloc_drop [OF own3 a4] a5] a6]
  have errs: "env_errors w3 = env_errors w" "env_errors w6 = env_errors w"
    using alloc_env_errors [OF a] alloc_env_errors [OF a2] alloc_env_errors [OF a3]
      alloc_env_errors [OF a4] alloc_env_errors [OF a5] alloc_env_errors [OF a6] by simp_all
  have "clean_outcome w (Inr (None, set_error msg w6))" for msg
    using owned_untouched [OF own6] errs
    by (auto simp: clean_outcome_def set_error_def untouched_def wf_ledger_def)
  then show ?thesis
    using reader_error_clean [OF own3] reader_error_clean [OF own6] create_consumer_clean [OF own6] errs
    by (auto simp: RTI_RS_KafkaConnection_create_stream_reader_def a a2 a3 a4 a5 a6 Let_def
        split: option.split)
qed

text \<open>
  C16. Creating a stream reader never faults once its block is allocated: whatever call fails
  after that, the result is a reader without an error or NULL with exactly one error, no
  resource is released twice, and the resources of the caller are untouched. When the first
  allocation fails, the clean-up dereferences NULL.
\<close>

theorem create_stream_reader_outcome:
  assumes "wf_ledger w"
  shows "(alloc_ok w \<longrightarrow>
      clean_outcome w (RTI_RS_KafkaConnection_create_stream_reader api conn properties w))
    \<and> (\<not> alloc_ok w \<longrightarrow>
      RTI_RS_KafkaConnection_create_stream_reader api conn properties w = Inl Null_Deref)"
  using create_stream_reader_clean [OF assms]
  by (simp add: RTI_RS_KafkaConnection_create_stream_reader_def alloc_def reader_error_def
      reader.cleanup_NULL)

section \<open>Deleting a reader\<close>

text \<open>
  The ledger after a successful creation: the resources the deletion knows about, those it
  does not free, and the two semaphores no pointer leads to.
\<close>

lemma create_semaphores_live:
  assumes "create_semaphores self w = Inr (Some sr, w')"
  shows "sr = self\<lparr>sr_poll_sem := Some (next_id w + 2), sr_read_sem := Some (next_id w + 3),
      sr_polling_thread := Some (next_id w + 4)\<rparr>
    \<and> live w' = (live w)(next_id w \<mapsto> Semaphore, next_id w + 1 \<mapsto> Semaphore,
        next_id w + 2 \<mapsto> Semaphore, next_id w + 3 \<mapsto> Semaphore, next_id w + 4 \<mapsto> Joinable_Thread)"
  using assms
  by (auto simp: create_semaphores_def start_polling_thread_def reader_error_no_object alloc_def
      acquire_def Let_def eval_nat_numeral split: if_splits)

definition consumer_conf :: "'c rd_kafka \<Rightarrow> RTI_RS_KafkaConnection \<Rightarrow> rs_properties \<Rightarrow> string \<Rightarrow> int \<times> string + 'c" where
  "consumer_conf api kafka_connection properties topic =
     (case conf_set_all api ((''bootstrap.servers'', bootstrap_servers kafka_connection)
              # (''group.id'', ''1'') # kafka_settings properties) (conf_new api) of
        Inl e \<Rightarrow> Inl (0, e)
      | Inr c \<Rightarrow>
          (case rd_kafka_new api RD_KAFKA_CONSUMER c of
             Inl e \<Rightarrow> Inl (0, e)
           | Inr c \<Rightarrow>
               (case subscribe api (poll_set_consumer api c) [(topic, -1)] of
                  (err, c) \<Rightarrow> if err \<noteq> 0 then Inl (err, err2str api err) else Inr c)))"

lemma create_consumer_live:
  assumes "create_consumer api conn properties topic self w = Inr (Some sr, w')" and "wf_ledger w"
  shows "\<exists>c. consumer_conf api conn properties topic = Inr c
    \<and> sr = self\<lparr>sr_rk := Some (next_id w + 1), sr_poll_sem := Some (next_id w + 5),
        sr_read_sem := Some (next_id w + 6), sr_polling_thread := Some (next_id w + 7)\<rparr>
    \<and> live w' = (live w)(next_id w + 1 \<mapsto> Kafka_Handle RD_KAFKA_CONSUMER c,
        next_id w + 3 \<mapsto> Semaphore, next_id w + 4 \<mapsto> Semaphore,
        next_id w + 5 \<mapsto> Semaphore, next_id w + 6 \<mapsto> Semaphore, next_id w + 7 \<mapsto> Joinable_Thread)"
proof -
  have fresh: "live w (next_id w) = None" "live w (Suc (Suc (next_id w))) = None"
    using assms(2) by (simp_all add: wf_ledger_def)
  obtain c where conf: "conf_set_all api ((''bootstrap.servers'', bootstrap_servers conn)
        # (''group.id'', ''1'') # kafka_settings properties) (conf_new api) = Inr c"
    and more: "case rd_kafka_new api RD_KAFKA_CONSUMER c of Inl e \<Rightarrow> False
      | Inr c \<Rightarrow> subscribe_topic api topic c self
          (w\<lparr>next_id := Suc (next_id w), live := live w\<rparr>) = Inr (Some sr, w')"
    using assms(1)
    by (auto simp: create_consumer_def acquire_def release_def set_properties_conf_set_all
        reader_error_no_object Let_def fun_upd_idem fresh split: if_splits sum.splits)
  from more obtain c' where new: "rd_kafka_new api RD_KAFKA_CONSUMER c = Inr c'"
    and sub: "subscribe_topic api topic c' self (w\<lparr>next_id := Suc (next_id w), live := live w\<rparr>)
      = Inr (Some sr, w')" by (auto split: sum.splits)
  obtain err c'' where c'': "subscribe api (poll_set_consumer api c') [(topic, -1)] = (err, c'')"
    by (cases "subscribe api (poll_set_consumer api c') [(topic, -1)]")
  from sub have "err = 0" and sems: "create_semaphores (self\<lparr>sr_rk := Some (Suc (next_id w))\<rparr>)
      (w\<lparr>next_id := Suc (Suc (Suc (next_id w))),
         live := (live w)(Suc (next_id w) \<mapsto> Kafka_Handle RD_KAFKA_CONSUMER c'')\<rparr>) = Inr (Some sr, w')"
    by (auto simp: subscribe_topic_eq [OF c''] reader_error_no_object Let_def fun_upd_twist
        fun_upd_idem fresh split: if_splits)
  then show ?thesis
    using create_semaphores_live [OF sems] conf new c''
    by (simp add: consumer_conf_def eval_nat_numeral)
qed

text \<open>The entry of an object that may not have been allocated.\<close>

definition put :: "addr option \<Rightarrow> 'k \<Rightarrow> (addr \<rightharpoonup> 'k) \<Rightarrow> (addr \<rightharpoonup> 'k)" where
  "put p k m = (case p of None \<Rightarrow> m | Some a \<Rightarrow> m(a \<mapsto> k))"

lemma alloc_put: "alloc k w = (p, w1) \<Longrightarrow> live w1 = put p k (live w)"
  by (rule alloc_cases [of k w]) (auto simp: put_def)

lemma put_apply: "put p k m a = (if p = Some a then Some k else m a)"
  by (simp add: put_def split: option.split)

lemma alloc_next:
  "alloc k w = (p, w1) \<Longrightarrow> next_id w \<le> next_id w1 \<and> (\<forall>a. p = Some a \<longrightarrow> a = next_id w \<and> a < next_id w1)"
  by (rule alloc_cases [of k w]) auto

text \<open>The objects of a reader that its deletion does not release, and the addresses they may have.\<close>

definition inner_objects ::
  "RTI_RS_KafkaStreamReader \<Rightarrow> (addr \<rightharpoonup> 'c resource) \<Rightarrow> (addr \<rightharpoonup> 'c resource)" where
  "inner_objects sr m = put (sr_info_0 sr) Sample_Info (put (sr_sample_0 sr) Dynamic_Data (put (sr_type_support sr) Type_Support m))"

definition inner_within :: "RTI_RS_KafkaStreamReader \<Rightarrow> addr \<Rightarrow> addr \<Rightarrow> bool" where
  "inner_within sr lo hi \<longleftrightarrow> (\<forall>a. sr_info_0 sr = Some a \<or> sr_sample_0 sr = Some a \<or> sr_type_support sr = Some a
     \<longrightarrow> lo \<le> a \<and> a < hi)"

lemma inner_outside: "inner_within sr lo hi \<Longrightarrow> a < lo \<or> hi \<le> a \<Longrightarrow> inner_objects sr m a = m a"
  by (auto simp: inner_within_def inner_objects_def put_apply)

lemma inner_upd: "inner_within sr lo hi \<Longrightarrow> a < lo \<or> hi \<le> a \<Longrightarrow> inner_objects sr (m(a \<mapsto> k)) = (inner_objects sr m)(a \<mapsto> k)"
  by (rule ext) (auto simp: inner_within_def inner_objects_def put_apply)

lemma create_stream_reader_live:
  assumes "wf_ledger w"
    and "RTI_RS_KafkaConnection_create_stream_reader api conn properties w = Inr (Some sr, w')"
  obtains m c topic where
    "lookup_property api properties ''topic'' = Some topic"
    "consumer_conf api conn properties topic = Inr c"
    "next_id w + 3 \<le> m"
    "sr_info_0 sr \<noteq> None"
    "\<forall>a. sr_info_0 sr = Some a \<or> sr_sample_0 sr = Some a \<or> sr_type_support sr = Some a
        \<longrightarrow> next_id w + 3 \<le> a \<and> a < m"
    "sr_addr sr = next_id w" "sr_sample_list sr = Some (next_id w + 1)"
    "sr_info_list sr = Some (next_id w + 2)" "sr_rk sr = Some (m + 1)"
    "sr_poll_sem sr = Some (m + 5)" "sr_read_sem sr = Some (m + 6)"
    "sr_polling_thread sr = Some (m + 7)"
    "live w' = (put (sr_info_0 sr) Sample_Info (put (sr_sample_0 sr) Dynamic_Data
        (put (sr_type_support sr) Type_Support
          ((live w)(next_id w \<mapsto> Reader_Block, next_id w + 1 \<mapsto> Sample_List,
             next_id w + 2 \<mapsto> Info_List)))))
        (m + 1 \<mapsto> Kafka_Handle RD_KAFKA_CONSUMER c, m + 3 \<mapsto> Semaphore, m + 4 \<mapsto> Semaphore,
         m + 5 \<mapsto> Semaphore, m + 6 \<mapsto> Semaphore, m + 7 \<mapsto> Joinable_Thread)"
proof -
  obtain p1 w1 where a1: "alloc Reader_Block w = (p1, w1)" by (cases "alloc Reader_Block w")
  obtain p2 w2 where a2: "alloc Sample_List w1 = (p2, w2)" by (cases "alloc Sample_List w1")
  obtain p3 w3 where a3: "alloc Info_List w2 = (p3, w3)" by (cases "alloc Info_List w2")
  obtain p4 w4 where a4: "alloc Type_Support w3 = (p4, w4)" by (cases "alloc Type_Support w3")
  obtain p5 w5 where a5: "alloc Dynamic_Data w4 = (p5, w5)" by (cases "alloc Dynamic_Data w4")
  obtain p6 w6 where a6: "alloc Sample_Info w5 = (p6, w6)" by (cases "alloc Sample_Info w5")
  have some: "p1 \<noteq> None" "p2 \<noteq> None" "p3 \<noteq> None" "p6 \<noteq> None"
    using assms(2) a1 a2 a3 a4 a5 a6
    by (auto simp: RTI_RS_KafkaConnection_create_stream_reader_def reader_error_no_object Let_def
        split: if_splits option.splits)
  then have p: "p1 = Some (next_id w)" "p2 = Some (next_id w + 1)" "p3 = Some (next_id w + 2)"
      "next_id w3 = next_id w + 3"
    using a1 a2 a3 by (auto simp: alloc_def acquire_def Let_def split: if_splits)
  from assms(2) obtain topic where topic: "lookup_property api properties ''topic'' = Some topic"
    and consumer: "create_consumer api conn properties topic
      \<lparr>sr_addr = next_id w, sr_rk = None, sr_topic = Some topic, sr_polling_thread = None,
       sr_poll_sem = None, sr_read_sem = None, sr_run_thread = True,
       sr_sample_list = p2, sr_sample_0 = p5, sr_info_list = p3, sr_info_0 = p6,
       sr_type_support = p4\<rparr> w6 = Inr (Some sr, w')"
    using some p(1)
    by (auto simp: RTI_RS_KafkaConnection_create_stream_reader_def a1 a2 a3 a4 a5 a6 Let_def
        reader_error_no_object split: option.splits)
  have wf6: "wf_ledger w6"
    using wf_ledger_alloc [OF _ a6] wf_ledger_alloc [OF _ a5] wf_ledger_alloc [OF _ a4]
      wf_ledger_alloc [OF _ a3] wf_ledger_alloc [OF _ a2] wf_ledger_alloc [OF assms(1) a1] by blast
  have live6: "live w6 = put p6 Sample_Info (put p5 Dynamic_Data (put p4 Type_Support
      ((live w)(next_id w \<mapsto> Reader_Block, next_id w + 1 \<mapsto> Sample_List, next_id w + 2 \<mapsto> Info_List))))"
    using alloc_put [OF a1] alloc_put [OF a2] alloc_put [OF a3] alloc_put [OF a4] alloc_put [OF a5]
      alloc_put [OF a6] p by (simp add: put_def)
  from create_consumer_live [OF consumer wf6] obtain c where
    conf: "consumer_conf api conn properties topic = Inr c" and
    sr: "sr = \<lparr>sr_addr = next_id w, sr_rk = Some (next_id w6 + 1), sr_topic = Some topic,
      sr_polling_thread = Some (next_id w6 + 7), sr_poll_sem = Some (next_id w6 + 5),
      sr_read_sem = Some (next_id w6 + 6), sr_run_thread = True, sr_sample_list = p2,
      sr_sample_0 = p5, sr_info_list = p3, sr_info_0 = p6, sr_type_support = p4\<rparr>" and
    live: "live w' = (live w6)(next_id w6 + 1 \<mapsto> Kafka_Handle RD_KAFKA_CONSUMER c,
        next_id w6 + 3 \<mapsto> Semaphore, next_id w6 + 4 \<mapsto> Semaphore, next_id w6 + 5 \<mapsto> Semaphore,
        next_id w6 + 6 \<mapsto> Semaphore, next_id w6 + 7 \<mapsto> Joinable_Thread)"
    by auto
  have bounds: "next_id w + 3 \<le> next_id w6" "\<forall>a. p6 = Some a \<or> p5 = Some a \<or> p4 = Some a
        \<longrightarrow> next_id w + 3 \<le> a \<and> a < next_id w6"
    using p(4) alloc_next [OF a4] alloc_next [OF a5] alloc_next [OF a6] by auto
  show thesis
    by (rule that [OF topic conf]) (use sr live live6 p some bounds in simp_all)
qed

lemma reader_cleanup_live:
  assumes "distinct (reader_resources self)" and "set (reader_resources self) \<subseteq> dom (live w)"
  shows "RTI_RS_KafkaConnection_cleanup_stream_reader (Some self) w
    = Inr (w\<lparr>live := (live w) |` (- set (reader_resources self))\<rparr>)"
  using assms by (simp add: reader.cleanup_object release_all_ok)

text \<open>Deleting a reader whose objects are where its creation puts them.\<close>

lemma delete_reader_live:
  assumes "stop_and_delete api"
    and "live w' = rest(n \<mapsto> Reader_Block, n + 1 \<mapsto> Sample_List, n + 2 \<mapsto> Info_List,
      m + 1 \<mapsto> Kafka_Handle RD_KAFKA_CONSUMER c, m + 3 \<mapsto> Semaphore, m + 4 \<mapsto> Semaphore,
      m + 5 \<mapsto> Semaphore, m + 6 \<mapsto> Semaphore, m + 7 \<mapsto> Joinable_Thread)"
    and "\<And>a. a \<in> {n, n + 1, n + 2} \<or> m \<le> a \<Longrightarrow> rest a = None" and "n + 3 \<le> m"
    and fields: "sr_addr sr = n" "sr_sample_list sr = Some (n + 1)" "sr_info_list sr = Some (n + 2)"
      "sr_rk sr = Some (m + 1)" "sr_poll_sem sr = Some (m + 5)" "sr_read_sem sr = Some (m + 6)"
      "sr_polling_thread sr = Some (m + 7)"
  shows "\<exists>w''. RTI_RS_KafkaConnection_delete_stream_reader api sr w' = Inr w''
    \<and> live w'' = rest(m + 3 \<mapsto> Semaphore, m + 4 \<mapsto> Semaphore)"
proof -
  define sr' where "sr' = sr\<lparr>sr_run_thread := False, sr_polling_thread := None\<rparr>"
  define w1 where "w1 = w'\<lparr>live := (live w')(m + 7 := None,
    m + 1 \<mapsto> Kafka_Handle RD_KAFKA_CONSUMER (consumer_close api c))\<rparr>"
  have res: "reader_resources sr' = [m + 1, m + 5, m + 6, n + 1, n + 2, n]"
    by (simp add: reader_resources_def fields sr'_def)
  have cleanup: "RTI_RS_KafkaConnection_cleanup_stream_reader (Some sr') w1
      = Inr (w1\<lparr>live := (live w1) |` (- set (reader_resources sr'))\<rparr>)"
    by (rule reader_cleanup_live) (use assms(4) in \<open>auto simp: res w1_def assms(2)\<close>)
  have "RTI_RS_KafkaConnection_delete_stream_reader api sr w'
      = RTI_RS_KafkaConnection_cleanup_stream_reader (Some sr') w1"
    using assms(1,4)
    by (simp add: RTI_RS_KafkaConnection_delete_stream_reader_def fields release_opt_def
        release_def on_handle_def sr'_def w1_def assms(2))
  moreover have "((live w1) |` (- set (reader_resources sr'))) a = (rest(m + 3 \<mapsto> Semaphore, m + 4 \<mapsto> Semaphore)) a" for a
    using assms(3) [of a] assms(4) by (simp add: restrict_map_def res w1_def assms(2)) auto
  ultimately show ?thesis using cleanup by auto
qed

text \<open>
  C18. Deleting a stream reader that was just created, when its thread stops, does not fault,
  but it does not release all that the creation made: the sample, its info, the type
  support and the two semaphores created first stay allocated, and nothing else does.
\<close>

theorem create_delete_stream_reader:
  assumes "wf_ledger w" and "stop_and_delete api"
    and "RTI_RS_KafkaConnection_create_stream_reader api conn properties w = Inr (Some sr, w')"
  shows "\<exists>w'' p r. RTI_RS_KafkaConnection_delete_stream_reader api sr w' = Inr w''
    \<and> p \<notin> dom (live w) \<and> r \<notin> dom (live w) \<and> p \<noteq> r \<and> sr_info_0 sr \<noteq> None
    \<and> live w'' = (put (sr_info_0 sr) Sample_Info (put (sr_sample_0 sr) Dynamic_Data
        (put (sr_type_support sr) Type_Support (live w))))(p \<mapsto> Semaphore, r \<mapsto> Semaphore)"
  using assms(1,3)
proof (rule create_stream_reader_live)
  fix m c topic
  let ?n = "next_id w"
  define rest where "rest = inner_objects sr (live w)"
  assume m: "?n + 3 \<le> m" and info: "sr_info_0 sr \<noteq> None"
    and inner: "\<forall>a. sr_info_0 sr = Some a \<or> sr_sample_0 sr = Some a \<or> sr_type_support sr = Some a
        \<longrightarrow> ?n + 3 \<le> a \<and> a < m"
    and fields: "sr_addr sr = ?n" "sr_sample_list sr = Some (?n + 1)" "sr_info_list sr = Some (?n + 2)"
      "sr_rk sr = Some (m + 1)" "sr_poll_sem sr = Some (m + 5)" "sr_read_sem sr = Some (m + 6)"
      "sr_polling_thread sr = Some (m + 7)"
    and live: "live w' = (put (sr_info_0 sr) Sample_Info (put (sr_sample_0 sr) Dynamic_Data
        (put (sr_type_support sr) Type_Support
          ((live w)(?n \<mapsto> Reader_Block, ?n + 1 \<mapsto> Sample_List, ?n + 2 \<mapsto> Info_List)))))
        (m + 1 \<mapsto> Kafka_Handle RD_KAFKA_CONSUMER c, m + 3 \<mapsto> Semaphore, m + 4 \<mapsto> Semaphore,
         m + 5 \<mapsto> Semaphore, m + 6 \<mapsto> Semaphore, m + 7 \<mapsto> Joinable_Thread)"
  have within: "inner_within sr (?n + 3) m" unfolding inner_within_def by (rule inner)
  have old: "rest a = None" if "a \<in> {?n, ?n + 1, ?n + 2} \<or> m \<le> a" for a
    using that m assms(1) inner_outside [OF within, of a "live w"] by (auto simp: rest_def wf_ledger_def)
  have "live w' = rest(?n \<mapsto> Reader_Block, ?n + 1 \<mapsto> Sample_List, ?n + 2 \<mapsto> Info_List,
      m + 1 \<mapsto> Kafka_Handle RD_KAFKA_CONSUMER c, m + 3 \<mapsto> Semaphore, m + 4 \<mapsto> Semaphore,
      m + 5 \<mapsto> Semaphore, m + 6 \<mapsto> Semaphore, m + 7 \<mapsto> Joinable_Thread)"
    unfolding live rest_def inner_objects_def [symmetric] by (simp add: inner_upd [OF within])
  from delete_reader_live [OF assms(2) this old m fields]
  obtain w'' where "RTI_RS_KafkaConnection_delete_stream_reader api sr w' = Inr w''"
    and "live w'' = rest(m + 3 \<mapsto> Semaphore, m + 4 \<mapsto> Semaphore)" by blast
  moreover have "m + 3 \<notin> dom (live w)" "m + 4 \<notin> dom (live w)"
    using assms(1) m by (simp_all add: wf_ledger_def domIff)
  ultimately show ?thesis
    using info unfolding rest_def inner_objects_def
    by (intro exI [of _ w''] exI [of _ "m + 3"] exI [of _ "m + 4"]) simp
qed

section \<open>The plugin and its connections\<close>

lemma plugin_create_live:
  assumes "RTI_RS_Kafka_AdapterPlugin_create w = (Some plugin, w')"
  shows "plugin_addr plugin = next_id w \<and> live w' = (live w)(next_id w \<mapsto> Plugin_Block)
    \<and> next_id w' = Suc (next_id w)"
  using assms
  by (rule_tac alloc_cases [of Plugin_Block w]) (auto simp: RTI_RS_Kafka_AdapterPlugin_create_def)

lemma connection_create_live:
  assumes "RTI_RS_KafkaAdapterPlugin_create_connection api plugin properties w = (Some conn, w')"
  shows "kc_addr conn = next_id w \<and> live w' = (live w)(next_id w \<mapsto> Connection_Block)
    \<and> next_id w' = Suc (next_id w)"
  using assms
  by (rule_tac alloc_cases [of Connection_Block w])
    (auto simp: RTI_RS_KafkaAdapterPlugin_create_connection_def split: option.splits)

text \<open>
  A connection is created exactly when its block is allocated and the property
  \<open>bootstrap.servers\<close> is given; it keeps that value and the plugin it belongs to. When the
  property is missing, an error is set and NULL returned, but the block stays allocated.
\<close>

theorem create_connection_cases:
  assumes "wf_ledger w"
  shows "(case RTI_RS_KafkaAdapterPlugin_create_connection api plugin properties w of
      (Some conn, w') \<Rightarrow> alloc_ok w
        \<and> lookup_property api properties ''bootstrap.servers'' = Some (bootstrap_servers conn)
        \<and> kc_adapter conn = plugin_addr plugin \<and> env_errors w' = env_errors w
        \<and> kc_addr conn \<notin> dom (live w) \<and> live w' = (live w)(kc_addr conn \<mapsto> Connection_Block)
    | (None, w') \<Rightarrow> (\<exists>msg. env_errors w' = env_errors w @ [msg])
        \<and> (if alloc_ok w
           then lookup_property api properties ''bootstrap.servers'' = None
             \<and> live w' = (live w)(next_id w \<mapsto> Connection_Block) \<and> live w' \<noteq> live w
           else live w' = live w))"
proof -
  have fresh: "live w (next_id w) = None" using assms by (simp add: wf_ledger_def)
  then have "(live w)(next_id w \<mapsto> Connection_Block) \<noteq> live w" by (metis fun_upd_same option.distinct(1))
  with fresh show ?thesis
    by (rule_tac alloc_cases [of Connection_Block w])
      (auto simp: RTI_RS_KafkaAdapterPlugin_create_connection_def set_error_def split: option.splits)
qed

text \<open>
  C17. A whole session: create the plugin, a connection and a stream writer, and delete them in
  the opposite order. When every creation succeeds, every deletion does, and no resource
  is left.
\<close>

theorem session_roundtrip:
  assumes "wf_ledger w"
    and "RTI_RS_Kafka_AdapterPlugin_create w = (Some plugin, w1)"
    and "RTI_RS_KafkaAdapterPlugin_create_connection api plugin properties w1 = (Some conn, w2)"
    and "RTI_RS_KafkaConnection_create_stream_writer api conn stream_name wproperties w2 = Inr (Some self, w3)"
  shows "\<exists>w4. bindF (RTI_RS_KafkaConnection_delete_stream_writer api self w3) (\<lambda>w.
           bindF (RTI_RS_KafkaAdapterPlugin_delete_connection conn w)
             (RTI_RS_KafkaAdapterPlugin_delete plugin)) = Inr w4 \<and> live w4 = live w"
proof -
  note p = plugin_create_live [OF assms(2)] and c = connection_create_live [OF assms(3)]
  have wf2: "wf_ledger w2" using assms(1) p c by (simp add: wf_ledger_def)
  obtain w' where w': "RTI_RS_KafkaConnection_delete_stream_writer api self w3 = Inr w'"
    "live w' = live w2"
    using delete_created_writer [OF wf2 assms(4)] by blast
  have "(live w')(kc_addr conn := None, plugin_addr plugin := None) = live w"
    using assms(1) p c w'(2) by (auto simp: wf_ledger_def)
  then show ?thesis
    using p c w'
    by (simp add: RTI_RS_KafkaAdapterPlugin_delete_connection_def RTI_RS_KafkaAdapterPlugin_delete_def
        release_def)
qed

section \<open>A concrete library\<close>

text \<open>
  Configurations are lists of settings, every name but one is accepted, and no call fails:
  an instance on which the theorems above apply.
\<close>

definition settings_api :: "rs_properties rd_kafka" where
  "settings_api = \<lparr>lookup_property = map_of, conf_new = [],
     conf_set = (\<lambda>c name v. if name = ''bad'' then Inl ''No such configuration property''
       else Inr (c @ [(name, v)])),
     conf_set_dr_msg_cb = (\<lambda>c. c), rd_kafka_new = (\<lambda>ty c. Inr c), poll_set_consumer = (\<lambda>c. c),
     subscribe = (\<lambda>c topics. (0, c)), err2str = (\<lambda>err. []), rk_flush = (\<lambda>c. c),
     outq_len = (\<lambda>c. 2), consumer_close = (\<lambda>c. c), octet_seq_initialize = True,
     stop_and_delete = True\<rparr>"

definition empty_world :: "rs_properties world" where
  "empty_world = \<lparr>next_id = 0, live = Map.empty, sched = [], env_errors = [], log_lines = []\<rparr>"

definition test_connection :: RTI_RS_KafkaConnection where
  "test_connection = \<lparr>kc_addr = 0, kc_adapter = 0, bootstrap_servers = ''host''\<rparr>"

lemmas concrete = settings_api_def empty_world_def test_connection_def

lemma wf_empty_world: "wf_ledger (empty_world\<lparr>sched := q\<rparr>)" "wf_ledger empty_world"
  by (simp_all add: wf_ledger_def empty_world_def)

lemma sched_empty_world: "sched empty_world = []"
  by (simp add: empty_world_def)

theorem create_stream_writer_iff_witness:
  "RTI_RS_KafkaConnection_create_stream_writer settings_api test_connection (Some ''s'')
     [(''topic'', ''t''), (''acks'', ''1'')] empty_world
   = Inr (Some \<lparr>sw_addr = 0, sw_rk = Some 2, sw_topic = Some ''t''\<rparr>,
       empty_world\<lparr>next_id := 3, live := [0 \<mapsto> Writer_Block,
         2 \<mapsto> Kafka_Handle RD_KAFKA_PRODUCER [(''bootstrap.servers'', ''host''), (''acks'', ''1'')]]\<rparr>)"
  by (subst create_stream_writer_iff [OF wf_empty_world(2)])
    (simp add: producer_conf_def rti_property_def concrete alloc_ok_def eval_nat_numeral)

theorem create_stream_writer_outcome_witness:
  "clean_outcome empty_world (RTI_RS_KafkaConnection_create_stream_writer settings_api test_connection
     None [] empty_world)
   \<and> RTI_RS_KafkaConnection_create_stream_writer settings_api test_connection None []
       (empty_world\<lparr>sched := [False]\<rparr>) = Inl Null_Deref"
  using create_stream_writer_outcome [OF wf_empty_world(2), of settings_api test_connection None "[]"]
    create_stream_writer_outcome [OF wf_empty_world(1), of "[False]" settings_api test_connection None "[]"]
  by (simp add: alloc_ok_def empty_world_def)

lemma concrete_writer:
  assumes "wf_ledger w" and "sched w = []"
  shows "\<exists>self w'. RTI_RS_KafkaConnection_create_stream_writer settings_api conn (Some ''s'')
    [(''topic'', ''t'')] w = Inr (Some self, w')"
  using assms
  by (simp add: RTI_RS_KafkaConnection_create_stream_writer_def create_producer_eq producer_conf_def
      rti_property_def settings_api_def alloc_def alloc_ok_def acquire_def Let_def)

theorem create_delete_stream_writer_witness:
  "\<exists>self w' w''. RTI_RS_KafkaConnection_create_stream_writer settings_api test_connection (Some ''s'')
       [(''topic'', ''t'')] empty_world = Inr (Some self, w')
     \<and> RTI_RS_KafkaConnection_delete_stream_writer settings_api self w' = Inr w''
     \<and> live w'' = Map.empty"
proof -
  obtain self w' where c: "RTI_RS_KafkaConnection_create_stream_writer settings_api test_connection
      (Some ''s'') [(''topic'', ''t'')] empty_world = Inr (Some self, w')"
    using concrete_writer [OF wf_empty_world(2), of test_connection] sched_empty_world by blast
  from create_delete_stream_writer [OF wf_empty_world(2) c] c show ?thesis
    by (auto simp: empty_world_def)
qed

theorem create_stream_reader_outcome_witness:
  "clean_outcome empty_world (RTI_RS_KafkaConnection_create_stream_reader settings_api test_connection
     [(''bad'', ''1''), (''topic'', ''t'')] empty_world)"
  using create_stream_reader_outcome [OF wf_empty_world(2), of settings_api test_connection
      "[(''bad'', ''1''), (''topic'', ''t'')]"]
  by (simp add: alloc_ok_def empty_world_def)

lemma concrete_reader:
  "\<exists>sr w'. RTI_RS_KafkaConnection_create_stream_reader settings_api test_connection
    [(''topic'', ''t'')] empty_world = Inr (Some sr, w')"
  by (simp add: RTI_RS_KafkaConnection_create_stream_reader_def create_consumer_def subscribe_topic_def
      create_semaphores_def start_polling_thread_def rti_property_def concrete alloc_def alloc_ok_def
      acquire_def on_handle_def release_def Let_def)

theorem create_delete_stream_reader_witness:
  "\<exists>sr w' w''. RTI_RS_KafkaConnection_create_stream_reader settings_api test_connection
       [(''topic'', ''t'')] empty_world = Inr (Some sr, w')
     \<and> RTI_RS_KafkaConnection_delete_stream_reader settings_api sr w' = Inr w''
     \<and> Semaphore \<in> ran (live w'')"
proof -
  obtain sr w' where c: "RTI_RS_KafkaConnection_create_stream_reader settings_api test_connection
      [(''topic'', ''t'')] empty_world = Inr (Some sr, w')"
    using concrete_reader by blast
  have stop: "stop_and_delete settings_api" by (simp add: settings_api_def)
  from create_delete_stream_reader [OF wf_empty_world(2) stop c] c show ?thesis
    by (metis fun_upd_same ranI)
qed

definition test_plugin :: RTI_RS_KafkaAdapterPlugin where
  "test_plugin = the (fst (RTI_RS_Kafka_AdapterPlugin_create empty_world))"

theorem create_connection_cases_witness:
  "live (snd (RTI_RS_KafkaAdapterPlugin_create_connection settings_api test_plugin [] empty_world))
    = [0 \<mapsto> Connection_Block]"
  using create_connection_cases [OF wf_empty_world(2), where api = settings_api
      and plugin = test_plugin and properties = "[]"]
  by (auto simp: alloc_ok_def settings_api_def empty_world_def split: prod.splits option.splits)

theorem session_roundtrip_witness:
  "\<exists>plugin conn self w1 w2 w3 w4.
     RTI_RS_Kafka_AdapterPlugin_create empty_world = (Some plugin, w1)
     \<and> RTI_RS_KafkaAdapterPlugin_create_connection settings_api plugin
         [(''bootstrap.servers'', ''host'')] w1 = (Some conn, w2)
     \<and> RTI_RS_KafkaConnection_create_stream_writer settings_api conn (Some ''s'') [(''topic'', ''t'')] w2
         = Inr (Some self, w3)
     \<and> bindF (RTI_RS_KafkaConnection_delete_stream_writer settings_api self w3) (\<lambda>w.
           bindF (RTI_RS_KafkaAdapterPlugin_delete_connection conn w)
             (RTI_RS_KafkaAdapterPlugin_delete plugin)) = Inr w4 \<and> live w4 = Map.empty"
proof -
  obtain plugin w1 where p: "RTI_RS_Kafka_AdapterPlugin_create empty_world = (Some plugin, w1)"
    and s1: "sched w1 = []"
    by (simp add: RTI_RS_Kafka_AdapterPlugin_create_def alloc_def alloc_ok_def acquire_def empty_world_def)
  obtain conn w2 where c: "RTI_RS_KafkaAdapterPlugin_create_connection settings_api plugin
      [(''bootstrap.servers'', ''host'')] w1 = (Some conn, w2)" and s2: "sched w2 = []"
    using s1 by (simp add: RTI_RS_KafkaAdapterPlugin_create_connection_def alloc_def alloc_ok_def
        acquire_def settings_api_def)
  have "wf_ledger w2"
    using plugin_create_live [OF p] connection_create_live [OF c]
    by (simp add: wf_ledger_def empty_world_def)
  then obtain self w3 where s: "RTI_RS_KafkaConnection_create_stream_writer settings_api conn (Some ''s'')
      [(''topic'', ''t'')] w2 = Inr (Some self, w3)"
    using concrete_writer [OF _ s2] by blast
  from session_roundtrip [OF wf_empty_world(2) p c s] p c s show ?thesis
    by (fastforce simp: empty_world_def)
qed

end
