(* ===== verification/Protobuf_Lifecycle.thy ===== *)
theory Protobuf_Lifecycle
  imports Protobuf_Transformation
begin

text \<open>
  The life cycle of the protobuf transformation: the name of its message, the types it accepts,
  the resources it owns from its creation to its deletion, and which transformations the plugin
  makes.
\<close>

section \<open>The name of the message\<close>

text \<open>The reference: dots for double colons, from left to right.\<close>

fun dotted :: "string \<Rightarrow> string" where
  "dotted (a # b # s) = (if a = CHR '':'' \<and> b = CHR '':'' then CHR ''.'' # dotted s else a # dotted (b # s))"
| "dotted s = s"

lemma find_colons_None: "find_colons s = None \<Longrightarrow> dotted s = s"
  by (induction s rule: find_colons.induct) (auto split: if_splits)

lemma find_colons_Some: "find_colons s = Some i \<Longrightarrow> dotted s = take i s @ CHR ''.'' # dotted (drop (i + 2) s)"
  by (induction s arbitrary: i rule: find_colons.induct) (auto split: if_splits)

lemma replace_colons_dotted: "replace_colons s pos = take pos s @ dotted (drop pos s)"
proof (induction s pos rule: replace_colons.induct)
  case (1 s pos)
  show ?case
  proof (cases "find_colons (drop pos s)")
    case None
    then show ?thesis by (subst replace_colons.simps) (simp add: find_colons_None)
  next
    case (Some i)
    then have le: "pos + i + 2 \<le> length s" using find_colons_bound by fastforce
    have d: "drop (i + 2) (drop pos s) = drop (pos + i + 2) s" by (simp add: add.commute add.left_commute)
    have "replace_colons s pos = replace_colons (take (pos + i) s @ ''.'' @ drop (pos + i + 2) s) (pos + i + 1)"
      by (subst replace_colons.simps) (simp add: Some Let_def)
    also have "\<dots> = take (pos + i) s @ ''.'' @ dotted (drop (pos + i + 2) s)"
      using "1.IH" [OF Some refl] le by simp
    also have "\<dots> = take pos s @ dotted (drop pos s)"
      using find_colons_Some [OF Some] d by (simp add: take_add)
    finally show ?thesis .
  qed
qed

lemma dotted_plain: "CHR '':'' \<notin> set x \<Longrightarrow> dotted (x @ s) = x @ dotted s"
proof (induction x)
  case (Cons c x)
  then show ?case by (cases "x @ s") auto
qed simp

lemma dotted_scopes:
  "\<forall>y \<in> set ys. CHR '':'' \<notin> set y \<Longrightarrow>
   dotted (concat (map (\<lambda>y. ''::'' @ y) ys)) = concat (map (\<lambda>y. ''.'' @ y) ys)"
  by (induction ys) (simp_all add: dotted_plain)

section \<open>The types that are accepted\<close>

text \<open>The reference: the member at the end of the path holds characters or octets in one dimension.\<close>

definition byte_member :: "('s, 'pool, 'fdp, 'fd, 'd, 'm, 'tc, 'q) pbt_lib \<Rightarrow> 'tc \<Rightarrow> string \<Rightarrow> bool" where
  "byte_member lib tc name \<longleftrightarrow>
     (case member_path (pl_names lib) tc (name_components name) of
        None \<Rightarrow> False
      | Some member \<Rightarrow>
          (tc_kind (pl_tc lib) member = Some DDS_TK_SEQUENCE
           \<or> tc_kind (pl_tc lib) member = Some DDS_TK_ARRAY \<and> pl_dimensions lib member = Some 1)
          \<and> (case tc_content_type (pl_tc lib) member of
               None \<Rightarrow> False
             | Some content \<Rightarrow> tc_kind (pl_tc lib) content \<in> {Some DDS_TK_OCTET, Some DDS_TK_CHAR}))"

definition searchable :: "'tc typecode_ops \<Rightarrow> string \<Rightarrow> bool" where
  "searchable names name \<longleftrightarrow> string_laws names \<and> name \<noteq> [] \<and>
     (length name < TYPE_CODE_LENGTH \<or> str_dup names name \<noteq> None)"

lemma member_type_path:
  "searchable names name \<Longrightarrow> member_type names tc (Some name) = Inr (member_path names tc (name_components name))"
  by (simp add: searchable_def member_type_def member_type_found)

lemma validate_buffer_member_byte_member:
  assumes "searchable (pl_names lib) name"
  shows "RTI_TSFM_ProtobufTransformation_validate_buffer_member lib tc (Some name) =
    Inr (if byte_member lib tc name then DDS_RETCODE_OK else DDS_RETCODE_ERROR)"
  by (auto simp: RTI_TSFM_ProtobufTransformation_validate_buffer_member_def member_type_path [OF assms]
      byte_member_def Option.bind_eq_Some_conv split: option.split if_splits)

section \<open>What a transformation owns\<close>

definition state_blocks :: "('m, 'tc, 'q) RTI_TSFM_ProtobufTransformationState \<Rightarrow> addr list" where
  "state_blocks s = opt_list (map_option fst (st_msg_converter s)) @ opt_list (map_option fst (st_message_type s))
     @ opt_list (map_option fst (st_pb_buffer s)) @ [st_addr s]"

definition pt_blocks :: "('s, 'm, 'tc, 'q) RTI_TSFM_ProtobufTransformation \<Rightarrow> addr list" where
  "pt_blocks t = cf_addr (pt_config t) # state_blocks (pt_state t) @ opt_list (tr_tsupport (pt_parent t)) @ [pt_addr t]"

definition blank_state :: "('m, 'tc, 'q) RTI_TSFM_ProtobufTransformationState \<Rightarrow> bool" where
  "blank_state s \<longleftrightarrow> st_msg_converter s = None \<and> st_message_type s = None \<and> st_pb_buffer s = None"

lemma state_delete_releases:
  "RTI_TSFM_ProtobufTransformationState_delete_data octets chars s = release_all (state_blocks s)"
  by (rule ext) (simp add: RTI_TSFM_ProtobufTransformationState_delete_data_def state_blocks_def release_all_append
      release_opt_all Let_def release_all_single)

lemma state_create_owns:
  assumes "owns_exactly w as w0"
  shows "\<exists>p w1. RTI_TSFM_ProtobufTransformationState_create_data octets chars raw w0 = Inr (p, w1)
    \<and> owns_exactly w ((case p of None \<Rightarrow> [] | Some s \<Rightarrow> state_blocks s) @ as) w1 \<and> pred_option blank_state p"
proof -
  obtain p w1 where a: "alloc State_Object w0 = (p, w1)" by fastforce
  have own: "owns_exactly w (opt_list p @ as) w1" by (rule owns_exactly_alloc [OF assms a])
  have rel: "\<exists>w'. release a w1 = Inr w' \<and> owns_exactly w as w'" if "p = Some a" for a
    using owns_exactly_release_one own that by fastforce
  obtain ok1 s1 ok2 s2 where "seq_initialize octets raw = (ok1, s1)" "seq_initialize chars raw = (ok2, s2)" by fastforce
  then show ?thesis
    using a own rel
    by (cases p; cases ok1; cases ok2) (auto simp: Let_def RTI_TSFM_ProtobufTransformationState_create_data_def blank_state_def state_blocks_def)
qed

text \<open>
  Memory that is given out with no invalid pointer in it, as zeroed memory; without it the strings of
  the base are pointers that were never set.
\<close>

definition clean_memory :: "('s, 'pool, 'fdp, 'fd, 'd, 'm, 'tc, 'q) pbt_lib \<Rightarrow> bool" where
  "clean_memory lib \<longleftrightarrow> (\<forall>a. cf_garbage (pl_raw_config lib a) = [])"

lemma config_delete_releases:
  "cf_garbage c = [] \<Longrightarrow> RTI_TSFM_ProtobufTransformationConfigTypeSupport_delete_data c w = release (cf_addr c) w"
  by (simp add: RTI_TSFM_ProtobufTransformationConfigTypeSupport_delete_data_def String_free_member_def Let_def)

lemma empty_string_frame: "empty_string w = (s, w') \<Longrightarrow> live w' = live w \<and> next_id w' = next_id w"
  by (auto simp: empty_string_def Let_def dest!: string_frames split: prod.splits)

lemma config_create_owns:
  assumes "owns_exactly w as w0" and "\<forall>a. cf_garbage (raw a) = []"
  shows "\<exists>p w1. RTI_TSFM_ProtobufTransformationConfigTypeSupport_create_data raw w0 = Inr (p, w1)
    \<and> owns_exactly w (opt_list (map_option cf_addr p) @ as) w1 \<and> pred_option (\<lambda>c. cf_garbage c = []) p"
proof -
  obtain p w1 where a: "alloc UserConfig_Object w0 = (p, w1)" by fastforce
  obtain s1 w2 where s1: "empty_string w1 = (s1, w2)" by fastforce
  obtain s2 w3 where s2: "empty_string w2 = (s2, w3)" by fastforce
  obtain s3 w4 where s3: "empty_string w3 = (s3, w4)" by fastforce
  have own: "owns_exactly w (opt_list p @ as) w1" by (rule owns_exactly_alloc [OF assms(1) a])
  then have owns: "owns_exactly w (opt_list p @ as) w2" "owns_exactly w (opt_list p @ as) w3"
    "owns_exactly w (opt_list p @ as) w4"
    using empty_string_frame [OF s1] empty_string_frame [OF s2] empty_string_frame [OF s3] owns_exactly_cong by metis+
  have rel: "\<exists>w'. release a v = Inr w' \<and> owns_exactly w as w'" if "p = Some a" "owns_exactly w (opt_list p @ as) v" for a v
    using owns_exactly_release_one that by fastforce
  show ?thesis
  proof (cases p)
    case (Some b)
    then show ?thesis
      using a s1 s2 s3 owns rel [OF Some owns(1)] rel [OF Some owns(2)] rel [OF Some owns(3)] assms(2)
      by (cases s1; cases s2; cases s3) (auto simp: Let_def RTI_TSFM_ProtobufTransformationConfigTypeSupport_create_data_def
          config_delete_releases)
  qed (use a own in \<open>simp add: RTI_TSFM_ProtobufTransformationConfigTypeSupport_create_data_def\<close>)
qed

lemma replace_from_property_frame:
  "replace_from_property lib properties name s w = (ok, s', w') \<Longrightarrow> live w' = live w \<and> next_id w' = next_id w"
  by (auto simp: replace_from_property_def Let_def dest!: string_frames split: option.splits prod.splits)

lemma config_parse_frame:
  assumes "cf_garbage c = []"
  shows "\<exists>r c' w'. RTI_TSFM_ProtobufTransformationConfig_parse_from_properties lib c properties w = Inr (r, c', w')
    \<and> cf_addr c' = cf_addr c \<and> cf_garbage c' = [] \<and> live w' = live w \<and> next_id w' = next_id w
    \<and> (r = DDS_RETCODE_OK \<longrightarrow> tc_output_type (cf_parent c') \<noteq> None)"
proof -
  obtain r p w1 where p: "RTI_TSFM_TransformationConfig_parse_from_properties_alloc lib properties (Some (cf_parent c)) w
      = Inr (r, Some p, w1)" and f1: "live w1 = live w" "next_id w1 = next_id w"
    using tconfig.parse_given by blast
  have t: "r = DDS_RETCODE_OK \<Longrightarrow> tc_output_type p \<noteq> None" using TransformationConfig_parse_output_type p by blast
  obtain ok2 s2 w2 where s2: "replace_from_property lib properties ''buffer_member'' (cf_buffer_member c) w1 = (ok2, s2, w2)"
    by (metis prod_cases3)
  obtain ok3 s3 w3 where s3: "replace_from_property lib properties ''descriptor_file'' (cf_descriptor_file c) w2 = (ok3, s3, w3)"
    by (metis prod_cases3)
  obtain ok4 s4 w4 where s4: "replace_from_property lib properties ''message_type'' (cf_message_type c) w3 = (ok4, s4, w4)"
    by (metis prod_cases3)
  note frames = replace_from_property_frame [OF s2] replace_from_property_frame [OF s3] replace_from_property_frame [OF s4]
  show ?thesis
    using assms p f1 t s2 s3 s4 frames
    by (cases "r = DDS_RETCODE_OK"; cases ok2; cases ok3; cases ok4) (auto simp: Let_def RTI_TSFM_ProtobufTransformationConfig_parse_from_properties_def
        RTI_TSFM_TransformationConfig_parse_from_properties_def)
qed

lemma preallocate_owns:
  assumes "owns_exactly w as w0" and "st_pb_buffer st = None"
    and "RTI_TSFM_ProtobufTransformation_preallocate_buffers lib config st tc w0 = Inr (ok, st', w1)"
  shows "\<exists>b. st' = st\<lparr>st_pb_buffer := b\<rparr> \<and> owns_exactly w (opt_list (map_option fst b) @ as) w1
    \<and> (ok \<longrightarrow> (\<exists>a. b = Some (a, [])))"
proof -
  have st: "st = st\<lparr>st_pb_buffer := None\<rparr>" using assms(2) by (cases st) simp
  obtain p w2 where a: "alloc String_Object w0 = (p, w2)" by fastforce
  have own: "owns_exactly w (opt_list p @ as) w2" by (rule owns_exactly_alloc [OF assms(1) a])
  show ?thesis
    using assms(1,3) a own st
    by (cases p) (fastforce simp: RTI_TSFM_ProtobufTransformation_preallocate_buffers_def bindF_eq_Inr Let_def
        split: option.splits if_splits)+
qed

lemma message_type_name_owns:
  assumes "owns_exactly w as w0" and "message_type_name c n w0 = Inr (p, w1)"
  shows "owns_exactly w (opt_list (map_option fst p) @ as) w1"
proof -
  obtain q w2 where a: "alloc String_Object w0 = (q, w2)" by fastforce
  have "owns_exactly w (opt_list q @ as) w2" by (rule owns_exactly_alloc [OF assms(1) a])
  then show ?thesis using assms(2) a
    by (cases q) (auto simp: message_type_name_def Let_def split: if_splits)
qed

lemma create_converter_owns:
  assumes "owns_exactly w as w0" and "create_converter lib file name w0 = Inr (c, w1)"
  shows "owns_exactly w (opt_list (map_option fst c) @ as) w1"
proof -
  obtain q w2 where a: "alloc Converter_Object w0 = (q, w2)" by fastforce
  have own: "owns_exactly w (opt_list q @ as) w2" by (rule owns_exactly_alloc [OF assms(1) a])
  have rel: "owns_exactly w as w'" if "q = Some x" "release x w2 = Inr w'" for x w'
    using owns_exactly_release_one [of w x as w2] own that by auto
  show ?thesis using assms a own
    by (auto simp: create_converter_def bindF_eq_Inr split: option.splits dest: rel)
qed

lemma create_message_converter_owns:
  assumes "owns_exactly w (opt_list (map_option fst (st_pb_buffer st)) @ [st_addr st] @ as) w0"
    and "st_msg_converter st = None" and "create_message_converter lib config st n w0 = Inr (r, st', w1)"
  shows "owns_exactly w (state_blocks st' @ as) w1"
proof -
  obtain name w3 where n: "message_type_name (cf_message_type config) n w0 = Inr (name, w3)"
    using assms(3) by (auto simp: create_message_converter_def bindF_eq_Inr)
  have own: "owns_exactly w (opt_list (map_option fst name) @ opt_list (map_option fst (st_pb_buffer st)) @ [st_addr st] @ as) w3"
    by (rule message_type_name_owns [OF assms(1) n])
  show ?thesis
    using assms(2,3) n own create_converter_owns [OF own]
    by (cases name) (auto simp: create_message_converter_def bindF_eq_Inr Let_def state_blocks_def)
qed

lemma initialize_state_steps:
  assumes "initialize_state lib config st in_info out_info w = Inr (r, st', w')"
  obtains "st' = st" "w' = w" "r \<noteq> DDS_RETCODE_OK"
  | tc st2 w2 where "RTI_TSFM_ProtobufTransformation_preallocate_buffers lib config st tc w = Inr (False, st2, w2)"
      "st' = st2" "w' = w2" "r \<noteq> DDS_RETCODE_OK"
  | tc st2 w2 n where "RTI_TSFM_ProtobufTransformation_preallocate_buffers lib config st tc w = Inr (True, st2, w2)"
      "create_message_converter lib config st2 n w2 = Inr (r, st', w')"
  using assms
  by (auto simp: initialize_state_def bindF_eq_Inr Let_def split: if_splits)

lemma initialize_state_owns:
  assumes "owns_exactly w (state_blocks st @ as) w0" and "blank_state st"
    and "initialize_state lib config st in_info out_info w0 = Inr (r, st', w1)"
  shows "owns_exactly w (state_blocks st' @ as) w1"
  using assms(3)
proof (cases rule: initialize_state_steps)
  case (2 tc st2 w2)
  then show ?thesis
    using preallocate_owns [OF assms(1) _ 2(1)] assms(2) by (auto simp: state_blocks_def blank_state_def)
next
  case (3 tc st2 w2 n)
  obtain b where "st2 = st\<lparr>st_pb_buffer := b\<rparr>" "owns_exactly w (opt_list (map_option fst b) @ state_blocks st @ as) w2"
    using preallocate_owns [OF assms(1) _ 3(1)] assms(2) by (auto simp: blank_state_def)
  then show ?thesis
    using create_message_converter_owns [OF _ _ 3(2)] assms(2) by (simp add: state_blocks_def blank_state_def)
qed (use assms in simp)

lemma initialize_state_untouched:
  assumes "wf_ledger w0" and "blank_state st" and "initialize_state lib config st in_info out_info w0 = Inr (r, st', w1)"
  shows "untouched w0 w1"
  using assms(3)
proof (cases rule: initialize_state_steps)
  case (2 tc st2 w2)
  then show ?thesis
    using preallocate_owns [OF owns_exactly_start [OF assms(1)] _ 2(1)] assms(2) owned_untouched
    by (auto simp: blank_state_def owns_exactly_def)
next
  case (3 tc st2 w2 n)
  obtain bs where b: "owns_exactly w0 bs w2"
    using preallocate_owns [OF owns_exactly_start [OF assms(1)] _ 3(1)] assms(2) by (auto simp: blank_state_def)
  obtain name w3 where n: "message_type_name (cf_message_type config) n w2 = Inr (name, w3)"
    using 3(2) by (auto simp: create_message_converter_def bindF_eq_Inr)
  note own = message_type_name_owns [OF b n]
  show ?thesis
    using 3(2) n own create_converter_owns [OF own] owned_untouched
    by (cases name) (fastforce simp: create_message_converter_def bindF_eq_Inr Let_def owns_exactly_def)+
qed (use assms(1) untouched_refl in simp)

lemma new_failed_owns:
  assumes "owns_exactly w ((case state of None \<Rightarrow> [] | Some s \<Rightarrow> state_blocks s) @ opt_list (map_option cf_addr config) @ self # bs) w1"
    and "pred_option (\<lambda>c. cf_garbage c = []) config"
  shows "\<exists>w'. new_failed lib self state config w1 = Inr (DDS_RETCODE_ERROR, None, w') \<and> owns_exactly w bs w'
    \<and> (\<forall>b \<in> set bs. live w' b = live w1 b)"
proof -
  let ?s = "case state of None \<Rightarrow> [] | Some s \<Rightarrow> state_blocks s"
  have "owns_exactly w ((?s @ opt_list (map_option cf_addr config) @ [self]) @ bs) w1" using assms(1) by simp
  then obtain w4 where w4: "release_all (?s @ opt_list (map_option cf_addr config) @ [self]) w1 = Inr w4"
    "owns_exactly w bs w4" "\<forall>b \<in> set bs. live w4 b = live w1 b"
    using owns_exactly_release_kinds by blast
  then obtain w2 w3 where w: "release_all ?s w1 = Inr w2" "release_all (opt_list (map_option cf_addr config)) w2 = Inr w3"
    "release self w3 = Inr w4"
    by (auto simp: release_all_append bindF_eq_Inr release_all_single simp del: release_all.simps(2))
  have "(case state of None \<Rightarrow> Inr w1 | Some s \<Rightarrow> release_all (state_blocks s) w1) = Inr w2"
    using w(1) by (cases state) simp_all
  moreover have "(case config of None \<Rightarrow> Inr w2
      | Some c \<Rightarrow> RTI_TSFM_ProtobufTransformationConfigTypeSupport_delete_data c w2) = Inr w3"
    using w(2) assms(2) by (cases config) (simp_all add: config_delete_releases release_all_single del: release_all.simps(2))
  ultimately show ?thesis using w4 w(3) unfolding new_failed_def state_delete_releases by simp
qed

text \<open>A transformation that was made and not used.\<close>

definition pt_unused ::
  "('s \<Rightarrow> bool) \<Rightarrow> ('s \<Rightarrow> addr option list) \<Rightarrow> tsfm_lib \<Rightarrow> ('s, 'm, 'tc, 'q) RTI_TSFM_ProtobufTransformation \<Rightarrow> bool" where
  "pt_unused valid elems lib t \<longleftrightarrow> cf_garbage (pt_config t) = [] \<and> valid (tr_read_buffer (pt_parent t)) \<and> elems (tr_read_buffer (pt_parent t)) = []
     \<and> (use_mutex lib \<longrightarrow> tr_lock (pt_parent t) = Mutex_Free)"

lemma delete_unused:
  assumes "ptr_seq (pl_base_seq lib) valid elems cap init" and "pt_unused valid elems (pl_tsfm lib) t"
    and "owns_exactly w (pt_blocks t) w'"
  shows "\<exists>w''. RTI_TSFM_ProtobufTransformation_delete lib t w' = Inr w'' \<and> live w'' = live w"
proof -
  let ?ts = "opt_list (tr_tsupport (pt_parent t))"
  obtain w1 where w1: "release (cf_addr (pt_config t)) w' = Inr w1"
    "owns_exactly w (state_blocks (pt_state t) @ ?ts @ [pt_addr t]) w1"
    using owns_exactly_release_one assms(3) unfolding pt_blocks_def by blast
  obtain w2 where w2: "release_all (state_blocks (pt_state t)) w1 = Inr w2" "owns_exactly w (?ts @ [pt_addr t]) w2"
    using owns_exactly_release [OF w1(2)] by blast
  obtain w3 where w3: "release_all ?ts w2 = Inr w3" "owns_exactly w [pt_addr t] w3"
    using owns_exactly_release [OF w2(2)] by blast
  obtain w4 where w4: "release (pt_addr t) w3 = Inr w4" "owns_exactly w [] w4"
    using owns_exactly_release_one [OF w3(2)] by blast
  have "\<exists>r self'. RTI_TSFM_Transformation_finalize (pl_tsfm lib) (pl_base_seq lib)
      ((pt_parent t)\<lparr>tr_config := None\<rparr>) w2 = Inr (r, self', w3)"
    using assms(2) w3(1)
    by (intro ptr_seq.finalize_empty [OF assms(1)])
      (simp_all add: pt_unused_def RTI_TSFM_TransformationConfig_delete_def release_opt_all)
  then show ?thesis
    using w1(1) w2(1) w4 owns_exactly_nothing [OF w4(2)] assms(2)
    by (auto simp: RTI_TSFM_ProtobufTransformation_delete_def state_delete_releases config_delete_releases pt_unused_def)
qed

lemma initialize_owns:
  assumes "ptr_seq (pl_base_seq lib) valid elems cap init" and "fst (seq_initialize (pl_base_seq lib) (pl_base_seq_init lib))"
    and "owns_exactly w (cf_addr (pt_config t) # state_blocks (pt_state t) @ [pt_addr t]) w0" and "blank_state (pt_state t)"
    and "tr_config (pt_parent t) = Some c" and "tc_output_type c = Some n" and "cf_garbage (pt_config t) = []"
    and "RTI_TSFM_ProtobufTransformation_initialize lib t plugin in_info out_info properties w0 = Inr (r, t', w1)"
  shows "pt_addr t' = pt_addr t \<and> cf_garbage (pt_config t') = []
    \<and> (if r = DDS_RETCODE_OK then owns_exactly w (pt_blocks t') w1 \<and> pt_unused valid elems (pl_tsfm lib) t'
       else \<exists>ts. owns_exactly w (state_blocks (pt_state t') @ cf_addr (pt_config t') # pt_addr t # opt_list ts) w1
         \<and> (\<forall>a. ts = Some a \<longrightarrow> live w1 a = Some TypeSupport_Object)
         \<and> ((\<exists>parent w2. RTI_TSFM_Transformation_initialize (pl_tsfm lib) (pl_base_seq lib) (pl_base_seq_init lib)
               (pt_parent t) plugin (ti_name out_info) properties w0 = Inr (DDS_RETCODE_OK, parent, w2)) \<longrightarrow> ts \<noteq> None))"
proof -
  obtain rb parent wb where base: "RTI_TSFM_Transformation_initialize (pl_tsfm lib) (pl_base_seq lib) (pl_base_seq_init lib)
      (pt_parent t) plugin (ti_name out_info) properties w0 = Inr (rb, parent, wb)"
    and out: "given_outcome valid elems cap (pl_tsfm lib) (ti_name out_info) c w0 rb parent wb"
    using initialize_given [OF assms(1) owns_exactly_wf [OF assms(3)] assms(5,6,2)] by blast
  let ?cf = "cf_addr (pt_config t)" and ?st = "state_blocks (pt_state t)"
  define config where "config = (case tr_config parent of
    None \<Rightarrow> pt_config t | Some c \<Rightarrow> (pt_config t)\<lparr>cf_parent := c\<rparr>)"
  have cf: "cf_addr config = ?cf" "cf_garbage config = []" using assms(7) by (simp_all add: config_def split: option.split)
  show ?thesis
  proof (cases "rb = DDS_RETCODE_OK")
    case False
    then have "owns_exactly w (?cf # ?st @ [pt_addr t]) wb"
      using assms(3) out owns_exactly_cong [of wb w0 w] by (simp add: given_outcome_def)
    then have "owns_exactly w (?st @ ?cf # pt_addr t # opt_list None) wb"
      by (rule owns_exactly_perm) (use owns_exactly_distinct [OF assms(3)] in auto)
    moreover have "r = rb" "t' = t\<lparr>pt_parent := parent, pt_config := config\<rparr>" "w1 = wb"
      using assms(8) base False
      by (auto simp: RTI_TSFM_ProtobufTransformation_initialize_def config_def [symmetric] Let_def)
    ultimately show ?thesis using False cf base by (auto intro: exI [of _ None])
  next
    case True
    have ts: "tr_tsupport parent = Some (next_id w0)" using out True by (simp add: given_outcome_def)
    have own: "owns_exactly w (next_id w0 # ?cf # ?st @ [pt_addr t]) wb"
      using owns_exactly_acquire [OF assms(3), of TypeSupport_Object "next_id w0" "snd (acquire TypeSupport_Object w0)"]
        owns_exactly_cong [of wb "snd (acquire TypeSupport_Object w0)" w] out True
      by (simp add: acquire_def given_outcome_def)
    have "owns_exactly w (?st @ ?cf # pt_addr t # [next_id w0]) wb"
      by (rule owns_exactly_perm [OF own]) (use owns_exactly_distinct [OF own] in auto)
    moreover obtain st' where st': "initialize_state lib config (pt_state t) in_info out_info wb = Inr (r, st', w1)"
      "t' = t\<lparr>pt_parent := parent, pt_config := config, pt_state := st'\<rparr>"
      using assms(8) base True
      by (auto simp: RTI_TSFM_ProtobufTransformation_initialize_def config_def [symmetric] bindF_eq_Inr Let_def)
    ultimately have own': "owns_exactly w (state_blocks st' @ ?cf # pt_addr t # [next_id w0]) w1"
      using initialize_state_owns assms(4) by blast
    have "next_id w0 < next_id wb" "live wb (next_id w0) = Some TypeSupport_Object" "wf_ledger wb"
      using out True owns_exactly_wf [OF own] by (simp_all add: given_outcome_def)
    then have kind: "live w1 (next_id w0) = Some TypeSupport_Object"
      using initialize_state_untouched [OF _ assms(4) st'(1)] by (simp add: untouched_def)
    have "owns_exactly w (pt_blocks t') w1"
      by (rule owns_exactly_perm [OF own'])
        (use owns_exactly_distinct [OF own'] st'(2) ts cf in \<open>auto simp: pt_blocks_def\<close>)
    moreover have "\<exists>x. owns_exactly w (state_blocks (pt_state t') @ cf_addr (pt_config t') # pt_addr t # opt_list x) w1
        \<and> (\<forall>a. x = Some a \<longrightarrow> live w1 a = Some TypeSupport_Object) \<and> x \<noteq> None"
      by (rule exI [of _ "Some (next_id w0)"]) (use own' st'(2) cf kind in simp)
    ultimately show ?thesis
      using st'(2) out True cf by (auto simp: pt_unused_def given_outcome_def)
  qed
qed

text \<open>
  The outcome of making a transformation, in terms of its resources: a failure leaves nothing, or the
  type support of the base.
\<close>

definition left_by_failed_new :: "'v heap \<Rightarrow> 'v heap \<Rightarrow> bool" where
  "left_by_failed_new w w' \<longleftrightarrow> live w' = live w
     \<or> (\<exists>ts. live w ts = None \<and> live w' = (live w)(ts \<mapsto> TypeSupport_Object))"

definition new_outcome ::
  "('s \<Rightarrow> bool) \<Rightarrow> ('s \<Rightarrow> addr option list) \<Rightarrow> tsfm_lib \<Rightarrow> 'v heap \<Rightarrow> retcode \<Rightarrow>
   ('s, 'm, 'tc, 'q) RTI_TSFM_ProtobufTransformation option \<Rightarrow> 'v heap \<Rightarrow> bool" where
  "new_outcome valid elems lib w r p w' \<longleftrightarrow>
     (case p of
        None \<Rightarrow> r = DDS_RETCODE_ERROR \<and> left_by_failed_new w w'
      | Some t \<Rightarrow> r = DDS_RETCODE_OK \<and> owns_exactly w (pt_blocks t) w' \<and> pt_unused valid elems lib t)"

lemma new_failed_outcome:
  fixes lib :: "('s, 'pool, 'fdp, 'fd, 'd, 'm, 'tc, 'q) pbt_lib"
  assumes "owns_exactly w ((case state of None \<Rightarrow> [] | Some s \<Rightarrow> state_blocks s) @ opt_list (map_option cf_addr config)
      @ self # opt_list ts) w1"
    and "pred_option (\<lambda>c. cf_garbage c = []) config" and "\<forall>a. ts = Some a \<longrightarrow> live w1 a = Some TypeSupport_Object"
    and "new_failed lib self state config w1 = Inr (r, p, w')"
  shows "new_outcome valid elems l w r p w'"
proof -
  have "p = None" "r = DDS_RETCODE_ERROR" "owns_exactly w (opt_list ts) w'" "\<forall>a. ts = Some a \<longrightarrow> live w' a = Some TypeSupport_Object"
    using new_failed_owns [OF assms(1,2), of lib] assms(3,4) by auto
  then show ?thesis
    using owns_exactly_nothing [of w w'] owns_exactly_one [of w "the ts" w' TypeSupport_Object]
    by (cases ts) (auto simp: new_outcome_def left_by_failed_new_def)
qed

lemma initialize_or_fail_outcome:
  assumes "ptr_seq (pl_base_seq lib) valid elems cap init" and "fst (seq_initialize (pl_base_seq lib) (pl_base_seq_init lib))"
    and "owns_exactly w (cf_addr (pt_config t) # state_blocks (pt_state t) @ [pt_addr t]) w0" and "blank_state (pt_state t)"
    and "tr_config (pt_parent t) = Some c" and "tc_output_type c = Some n" and "cf_garbage (pt_config t) = []"
    and "pt_addr t = self" and "bindF (RTI_TSFM_ProtobufTransformation_initialize lib t plugin in_info out_info properties w0) (\<lambda>(r, t', w).
        if r \<noteq> DDS_RETCODE_OK then new_failed lib self (Some (pt_state t')) (Some (pt_config t')) w
        else Inr (DDS_RETCODE_OK, Some t', w)) = Inr (r, p, w')"
  shows "new_outcome valid elems (pl_tsfm lib) w r p w'"
proof -
  obtain ri t' w1 where i: "RTI_TSFM_ProtobufTransformation_initialize lib t plugin in_info out_info properties w0 = Inr (ri, t', w1)"
    and run: "(if ri \<noteq> DDS_RETCODE_OK then new_failed lib self (Some (pt_state t')) (Some (pt_config t')) w1
        else Inr (DDS_RETCODE_OK, Some t', w1)) = Inr (r, p, w')"
    using assms(9) by (auto simp: bindF_eq_Inr)
  note o = initialize_owns [OF assms(1-7) i]
  show ?thesis
  proof (cases "ri = DDS_RETCODE_OK")
    case False
    then obtain ts where "owns_exactly w ((case Some (pt_state t') of None \<Rightarrow> [] | Some s \<Rightarrow> state_blocks s)
        @ opt_list (map_option cf_addr (Some (pt_config t'))) @ self # opt_list ts) w1"
      "\<forall>a. ts = Some a \<longrightarrow> live w1 a = Some TypeSupport_Object"
      using o assms(8) by auto
    from new_failed_outcome [OF this(1) _ this(2), of lib] show ?thesis using run False o by simp
  qed (use o run in \<open>auto simp: new_outcome_def\<close>)
qed

lemma new_configured:
  fixes lib :: "('s, 'pool, 'fdp, 'fd, 'd, 'm, 'tc, 'q) pbt_lib"
    and s :: "('m, 'tc, 'q) RTI_TSFM_ProtobufTransformationState"
  assumes "ptr_seq (pl_base_seq lib) valid elems cap init" and "fst (seq_initialize (pl_base_seq lib) (pl_base_seq_init lib))"
    and "RTI_TSFM_ProtobufTransformation_new lib plugin in_info out_info properties w = Inr (r, p, w')"
    and "alloc Transform_Block w = (Some self, w1)"
    and "RTI_TSFM_ProtobufTransformationState_create_data (pl_octet_seq lib) (pl_char_seq lib) (pl_raw_seq lib) w1 = Inr (Some s, w2)"
    and "RTI_TSFM_ProtobufTransformationConfigTypeSupport_create_data (pl_raw_config lib) w2 = Inr (Some config, w3)"
    and "owns_exactly w (cf_addr config # state_blocks s @ [self]) w3" and "blank_state s" and "cf_garbage config = []"
  shows "new_outcome valid elems (pl_tsfm lib) w r p w'"
proof -
  obtain rp config' w4 where p: "RTI_TSFM_ProtobufTransformationConfig_parse_from_properties (pl_tsfm lib) config properties w3
      = Inr (rp, config', w4)"
    and frame: "cf_addr config' = cf_addr config" "cf_garbage config' = []" "live w4 = live w3" "next_id w4 = next_id w3"
    and ty: "rp = DDS_RETCODE_OK \<Longrightarrow> tc_output_type (cf_parent config') \<noteq> None"
    using config_parse_frame [OF assms(9)] by metis
  have own: "owns_exactly w (cf_addr config' # state_blocks s @ [self]) w4"
    using assms(7) frame owns_exactly_cong [of w4 w3 w] by simp
  show ?thesis
  proof (cases "rp = DDS_RETCODE_OK")
    case False
    have "owns_exactly w (state_blocks s @ [cf_addr config', self]) w4"
      by (rule owns_exactly_perm [OF own]) (use owns_exactly_distinct [OF own] in auto)
    then show ?thesis
      using assms(3-6) p False frame(2)
      by (intro new_failed_outcome [of w "Some s" "Some config'" self None w4 lib])
        (auto simp: RTI_TSFM_ProtobufTransformation_new_def)
  next
    case True
    then obtain n where n: "tc_output_type (cf_parent config') = Some n" using ty by auto
    let ?t = "\<lparr>pt_addr = self, pt_config = config', pt_state = s,
        pt_parent = \<lparr>tr_config = Some (cf_parent config'), tr_plugin = plugin, tr_tsupport = None,
          tr_read_buffer = pl_base_seq_init lib, tr_read_buffer_loaned = False, tr_lock = Mutex_Uninitialised\<rparr>\<rparr>"
    show ?thesis
      by (rule initialize_or_fail_outcome [OF assms(1,2), where t = ?t and self = self and c = "cf_parent config'"
            and plugin = plugin and in_info = in_info and out_info = out_info and properties = properties])
        (use own assms(3-6,8) n p True frame(2) in \<open>auto simp: RTI_TSFM_ProtobufTransformation_new_def\<close>)
  qed
qed

lemma new_owns:
  fixes lib :: "('s, 'pool, 'fdp, 'fd, 'd, 'm, 'tc, 'q) pbt_lib"
  assumes "ptr_seq (pl_base_seq lib) valid elems cap init" and "fst (seq_initialize (pl_base_seq lib) (pl_base_seq_init lib))"
    and "wf_ledger w" and "clean_memory lib"
    and "RTI_TSFM_ProtobufTransformation_new lib plugin in_info out_info properties w = Inr (r, p, w')"
  shows "new_outcome valid elems (pl_tsfm lib) w r p w'"
proof -
  obtain q w1 where a: "alloc Transform_Block w = (q, w1)" by fastforce
  have own1: "owns_exactly w (opt_list q) w1" using owns_exactly_alloc [OF owns_exactly_start [OF assms(3)] a] by simp
  have "\<exists>(st :: ('m, 'tc, 'q) RTI_TSFM_ProtobufTransformationState option) w2.
      RTI_TSFM_ProtobufTransformationState_create_data (pl_octet_seq lib) (pl_char_seq lib) (pl_raw_seq lib) w1 = Inr (st, w2)
      \<and> owns_exactly w ((case st of None \<Rightarrow> [] | Some s \<Rightarrow> state_blocks s) @ opt_list q) w2 \<and> pred_option blank_state st"
    by (rule state_create_owns [OF own1])
  then obtain st :: "('m, 'tc, 'q) RTI_TSFM_ProtobufTransformationState option" and w2
    where s: "RTI_TSFM_ProtobufTransformationState_create_data (pl_octet_seq lib) (pl_char_seq lib)
        (pl_raw_seq lib) w1 = Inr (st, w2)"
    and own2: "owns_exactly w ((case st of None \<Rightarrow> [] | Some s \<Rightarrow> state_blocks s) @ opt_list q) w2"
    and blank: "pred_option blank_state st"
    by blast
  obtain cf w3 where c: "RTI_TSFM_ProtobufTransformationConfigTypeSupport_create_data (pl_raw_config lib) w2 = Inr (cf, w3)"
    and own3: "owns_exactly w (opt_list (map_option cf_addr cf) @ (case st of None \<Rightarrow> [] | Some s \<Rightarrow> state_blocks s) @ opt_list q) w3"
    and clean: "pred_option (\<lambda>c. cf_garbage c = []) cf"
    using config_create_owns [OF own2] assms(4) unfolding clean_memory_def by blast
  consider "q = None" | self where "q = Some self" "st = None" | self s where "q = Some self" "st = Some s" "cf = None"
    | self s config where "q = Some self" "st = Some s" "cf = Some config"
    by (cases q; cases st; cases cf) auto
  then show ?thesis
  proof cases
    case 1
    then show ?thesis
      using assms(5) a own1 owns_exactly_nothing [of w w1]
      by (auto simp: RTI_TSFM_ProtobufTransformation_new_def new_outcome_def left_by_failed_new_def)
  next
    case (2 self)
    then show ?thesis
      using assms(5) a s own2
      by (intro new_failed_outcome [of w None None self None w2 lib]) (auto simp: RTI_TSFM_ProtobufTransformation_new_def)
  next
    case (3 self s')
    then show ?thesis
      using assms(5) a s c own3
      by (intro new_failed_outcome [of w "Some s'" None self None w3 lib]) (auto simp: RTI_TSFM_ProtobufTransformation_new_def)
  next
    case (4 self s' config)
    show ?thesis
      by (rule new_configured [OF assms(1,2,5), of self w1 s' w2 config w3]) (use a s c own3 blank clean 4 in simp_all)
  qed
qed

section \<open>Which transformations can be made\<close>

text \<open>The kind of transformation that the properties name.\<close>

definition config_kind :: "tsfm_lib \<Rightarrow> rs_properties \<Rightarrow> RTI_TSFM_TransformationKind option" where
  "config_kind lib properties =
     (case ts_lookup lib properties ''transform_type'' of
        None \<Rightarrow> Some RTI_TSFM_TransformationKind_SERIALIZER
      | Some v \<Rightarrow> RTI_TSFM_TransformationKind_from_string v)"

text \<open>
  What the plugin asks for: a dynamic input type, a member for the bytes in the type of the
  serialised side, a structure with members on the other side of a deserialiser, and a message
  type of the name in the set of descriptors.
\<close>

definition pbt_accepts ::
  "('s, 'pool, 'fdp, 'fd, 'd, 'm, 'tc, 'q) pbt_lib \<Rightarrow> RTI_TSFM_TransformationKind \<Rightarrow> string \<Rightarrow> string \<Rightarrow>
   string option \<Rightarrow> 'tc type_info \<Rightarrow> 'tc type_info \<Rightarrow> bool" where
  "pbt_accepts lib kind member file_name message_name in_info out_info \<longleftrightarrow>
     (let (serialized, dds) = (if kind = RTI_TSFM_TransformationKind_SERIALIZER then (out_info, in_info)
                               else (in_info, out_info)) in
      ti_dynamic in_info \<and> byte_member lib (ti_type serialized) member
      \<and> Option.bind (member_path (pl_names lib) (ti_type serialized) (name_components member)) (pl_length lib) \<noteq> None
      \<and> (kind = RTI_TSFM_TransformationKind_SERIALIZER
         \<or> tc_kind (pl_tc lib) (ti_type out_info) \<in> {Some DDS_TK_STRUCT, Some DDS_TK_VALUE}
           \<and> pl_member_count lib (ti_type out_info) \<notin> {None, Some 0})
      \<and> (case load_message_prototype (pl_descriptors lib) (pl_pool lib) (pl_parse_descriptor_set lib file_name)
                (if message_name \<in> {None, Some []} then dotted (ti_name dds) else the message_name) of
           Inr (Some proto) \<Rightarrow> pb_new (pl_wire lib) proto \<noteq> None
         | _ \<Rightarrow> False))"

text \<open>No descriptor of a message is NULL, so that the search for the message does not fault.\<close>

lemma load_message_prototype_returns:
  assumes "\<forall>fd. None \<notin> set (message_types ops fd)"
  shows "\<exists>p. load_message_prototype ops pool files name = Inr p"
proof (induction files arbitrary: pool)
  case (Cons f fs)
  then show ?case
    using assms by (cases "build_file ops pool f") (auto simp: find_message_type_spec split: option.split)
qed simp

lemma message_type_name_eq:
  assumes "alloc String_Object w = (Some a, w1)"
  shows "message_type_name c n w = Inr (Some (a, if c \<in> {None, Some []} then dotted n else the c), w1)"
  using assms by (auto simp: message_type_name_def replace_colons_dotted)

lemma create_message_converter_iff:
  assumes "sched w = []" and "\<forall>fd. None \<notin> set (message_types (pl_descriptors lib) fd)"
    and "cf_descriptor_file config = Some file_name"
  shows "\<exists>r st' w'. create_message_converter lib config st type_name w = Inr (r, st', w')
    \<and> (r = DDS_RETCODE_OK \<longleftrightarrow>
       (case load_message_prototype (pl_descriptors lib) (pl_pool lib) (pl_parse_descriptor_set lib file_name)
          (if cf_message_type config \<in> {None, Some []} then dotted type_name else the (cf_message_type config)) of
           Inr (Some proto) \<Rightarrow> pb_new (pl_wire lib) proto \<noteq> None
         | _ \<Rightarrow> False))"
proof -
  let ?name = "if cf_message_type config \<in> {None, Some []} then dotted type_name else the (cf_message_type config)"
  obtain a w1 where n: "message_type_name (cf_message_type config) type_name w = Inr (Some (a, ?name), w1)" and w1: "sched w1 = []"
    using message_type_name_eq [OF alloc_sched_Nil [OF assms(1)]] assms(1) by fastforce
  obtain p where p: "load_message_prototype (pl_descriptors lib) (pl_pool lib) (pl_parse_descriptor_set lib file_name) ?name = Inr p"
    using load_message_prototype_returns [OF assms(2)] by blast
  have "release (next_id w1) (w1\<lparr>next_id := Suc (next_id w1), live := (live w1)(next_id w1 \<mapsto> Converter_Object)\<rparr>) \<noteq> Inl e" for e
    by (simp add: release_def)
  then obtain w2 where rel: "release (next_id w1)
      (w1\<lparr>next_id := Suc (next_id w1), live := (live w1)(next_id w1 \<mapsto> Converter_Object)\<rparr>) = Inr w2"
    by (metis obj_sumE)
  show ?thesis
    using assms(3) n w1 p rel
    by (cases p)
      (auto simp: create_message_converter_def create_converter_def alloc_sched_Nil
        ProtobufDynamicDataConverter_new_def Let_def split: option.splits)
qed

lemma preallocate_byte_member:
  assumes "sched w = []" and "cf_buffer_member config = Some member" and "searchable (pl_names lib) member"
    and "byte_member lib tc member"
  shows "\<exists>st1 w1. RTI_TSFM_ProtobufTransformation_preallocate_buffers lib config st tc w =
      Inr (Option.bind (member_path (pl_names lib) tc (name_components member)) (pl_length lib) \<noteq> None, st1, w1)
    \<and> sched w1 = []"
proof -
  obtain m k where m: "member_path (pl_names lib) tc (name_components member) = Some m" "tc_kind (pl_tc lib) m = Some k"
    using assms(4) by (auto simp: byte_member_def split: option.splits)
  then show ?thesis
    using assms(1-3)
    by (cases "pl_length lib m")
      (auto simp: RTI_TSFM_ProtobufTransformation_preallocate_buffers_def member_type_path alloc_sched_Nil)
qed

lemma initialize_state_iff:
  assumes "sched w = []" and "\<forall>fd. None \<notin> set (message_types (pl_descriptors lib) fd)"
    and "cf_descriptor_file config = Some file_name" and "cf_buffer_member config = Some member"
    and "searchable (pl_names lib) member"
  shows "\<exists>r st' w'. initialize_state lib config st in_info out_info w = Inr (r, st', w')
    \<and> (r = DDS_RETCODE_OK \<longleftrightarrow>
       pbt_accepts lib (tc_type (cf_parent config)) member file_name (cf_message_type config) in_info out_info)"
proof -
  let ?ser = "if tc_type (cf_parent config) = RTI_TSFM_TransformationKind_SERIALIZER then out_info else in_info"
  let ?dds = "if tc_type (cf_parent config) = RTI_TSFM_TransformationKind_SERIALIZER then in_info else out_info"
  let ?len = "Option.bind (member_path (pl_names lib) (ti_type ?ser) (name_components member)) (pl_length lib) \<noteq> None"
  obtain st1 w1 where p: "byte_member lib (ti_type ?ser) member \<Longrightarrow>
      RTI_TSFM_ProtobufTransformation_preallocate_buffers lib config st (ti_type ?ser) w = Inr (?len, st1, w1) \<and> sched w1 = []"
    using preallocate_byte_member [OF assms(1,4,5)] by metis
  show ?thesis
  proof (cases "byte_member lib (ti_type ?ser) member \<and> ?len")
    case True
    then have w1: "sched w1 = []" using p by simp
    show ?thesis
      using create_message_converter_iff [OF w1 assms(2,3), of st1 "ti_name ?dds"] True p assms(4,5)
      by (auto simp: initialize_state_def pbt_accepts_def validate_buffer_member_byte_member Let_def
          RTI_TSFM_ProtobufTransformation_validate_input_type_def RTI_TSFM_ProtobufTransformation_validate_output_type_def
          split: option.splits if_splits)
  next
    case False
    then show ?thesis
      using p assms(4,5)
      by (auto simp: initialize_state_def pbt_accepts_def validate_buffer_member_byte_member Let_def
          RTI_TSFM_ProtobufTransformation_validate_input_type_def RTI_TSFM_ProtobufTransformation_validate_output_type_def
          split: option.splits if_splits)
  qed
qed

text \<open>When memory suffices, every step before the initialisation of the state succeeds.\<close>

lemma draw_sched_Nil: "sched w = [] \<Longrightarrow> draw w = (True, w)"
  by (cases w) (simp add: draw_def alloc_ok_def)

lemma string_ops_sched_Nil:
  assumes "sched w = []"
  shows "String_replace lib s v w = (Some v, Some v, w)" "copyStringEx s v w = (True, Some v, w)"
    "String_alloc w = (Some [], w)" "empty_string w = (Some [], w)"
  using assms
  by (simp_all add: String_replace_def copyStringEx_def String_alloc_def empty_string_def draw_sched_Nil)

definition configured ::
  "tsfm_lib \<Rightarrow> rs_properties \<Rightarrow> RTI_TSFM_TransformationKind \<Rightarrow> RTI_TSFM_ProtobufTransformationConfig \<Rightarrow> bool" where
  "configured lib properties kind c \<longleftrightarrow> tc_type (cf_parent c) = kind
     \<and> tc_output_type (cf_parent c) = Some (case ts_lookup lib properties ''output_type'' of None \<Rightarrow> [] | Some v \<Rightarrow> v)
     \<and> cf_buffer_member c = Some (case ts_lookup lib properties ''buffer_member'' of None \<Rightarrow> [] | Some v \<Rightarrow> v)
     \<and> cf_descriptor_file c = Some (case ts_lookup lib properties ''descriptor_file'' of None \<Rightarrow> [] | Some v \<Rightarrow> v)
     \<and> cf_message_type c = Some (case ts_lookup lib properties ''message_type'' of None \<Rightarrow> [] | Some v \<Rightarrow> v)"

lemma config_parse_sched_Nil:
  assumes "sched w = []" and "config_kind lib properties = Some kind" and "cf_buffer_member c = Some []"
    and "cf_descriptor_file c = Some []" and "cf_message_type c = Some []" and "cf_garbage c = []"
  shows "\<exists>c'. RTI_TSFM_ProtobufTransformationConfig_parse_from_properties lib c properties w = Inr (DDS_RETCODE_OK, c', w)
    \<and> cf_addr c' = cf_addr c \<and> cf_garbage c' = [] \<and> configured lib properties kind c'"
proof -
  have "\<exists>p. RTI_TSFM_TransformationConfig_parse_from_properties lib (cf_parent c) properties w = Inr (DDS_RETCODE_OK, Some p, w)
    \<and> tc_type p = kind
    \<and> tc_output_type p = Some (case ts_lookup lib properties ''output_type'' of None \<Rightarrow> [] | Some v \<Rightarrow> v)"
    using assms(1,2)
    by (auto simp: RTI_TSFM_TransformationConfig_parse_from_properties_def string_ops_sched_Nil config_kind_def
        RTI_TSFM_TransformationConfig_parse_from_properties_alloc_def RTI_TSFM_TransformationConfig_default_def
        RTI_TSFM_TransformationConfig_set_def Let_def split: option.splits)
  moreover have "replace_from_property lib properties name s w =
      (True, case ts_lookup lib properties name of None \<Rightarrow> s | Some v \<Rightarrow> Some v, w)" for name s
    using assms(1) by (simp add: replace_from_property_def string_ops_sched_Nil split: option.split)
  ultimately show ?thesis
    using assms(3-6)
    by (auto simp: RTI_TSFM_ProtobufTransformationConfig_parse_from_properties_def configured_def split: option.split)
qed

lemma base_initialize_named:
  assumes "sched w = []" and "fst (seq_initialize ops buffer)" and "tr_config self = Some c"
    and "tc_output_type c = Some n" and "n = [] \<or> n = output_type"
  shows "\<exists>self' w'. RTI_TSFM_Transformation_initialize lib ops buffer self plugin output_type properties w =
      Inr (DDS_RETCODE_OK, self', w') \<and> sched w' = [] \<and> tr_config self' = Some (c\<lparr>tc_output_type := Some output_type\<rparr>)"
  using assms
  by (auto simp: RTI_TSFM_Transformation_initialize_def initialize_configured_def RTI_TSFM_Mutex_initialize_def draw_sched_Nil
      RTI_TSFM_Transformation_create_type_support_def alloc_sched_Nil string_ops_sched_Nil Let_def split: prod.splits)

lemma initialize_iff:
  assumes "sched w = []" and "fst (seq_initialize (pl_base_seq lib) (pl_base_seq_init lib))"
    and "tr_config (pt_parent t) = Some (cf_parent (pt_config t))"
    and "tc_output_type (cf_parent (pt_config t)) = Some n" and "n = [] \<or> n = ti_name out_info"
    and "\<forall>fd. None \<notin> set (message_types (pl_descriptors lib) fd)" and "searchable (pl_names lib) member"
    and "cf_descriptor_file (pt_config t) = Some file_name" and "cf_buffer_member (pt_config t) = Some member"
  shows "\<exists>r t' w' parent w1. RTI_TSFM_ProtobufTransformation_initialize lib t plugin in_info out_info properties w = Inr (r, t', w')
    \<and> (r = DDS_RETCODE_OK \<longleftrightarrow> pbt_accepts lib (tc_type (cf_parent (pt_config t))) member file_name
          (cf_message_type (pt_config t)) in_info out_info)
    \<and> RTI_TSFM_Transformation_initialize (pl_tsfm lib) (pl_base_seq lib) (pl_base_seq_init lib)
        (pt_parent t) plugin (ti_name out_info) properties w = Inr (DDS_RETCODE_OK, parent, w1)"
proof -
  obtain parent w1 where base: "RTI_TSFM_Transformation_initialize (pl_tsfm lib) (pl_base_seq lib) (pl_base_seq_init lib)
      (pt_parent t) plugin (ti_name out_info) properties w = Inr (DDS_RETCODE_OK, parent, w1)" "sched w1 = []"
    "tr_config parent = Some ((cf_parent (pt_config t))\<lparr>tc_output_type := Some (ti_name out_info)\<rparr>)"
    using base_initialize_named [OF assms(1-5)] by blast
  let ?config = "(pt_config t)\<lparr>cf_parent := (cf_parent (pt_config t))\<lparr>tc_output_type := Some (ti_name out_info)\<rparr>\<rparr>"
  obtain r st' w' where "initialize_state lib ?config (pt_state t) in_info out_info w1 = Inr (r, st', w')"
    "r = DDS_RETCODE_OK \<longleftrightarrow> pbt_accepts lib (tc_type (cf_parent ?config)) member file_name (cf_message_type ?config) in_info out_info"
    using initialize_state_iff [OF base(2) assms(6), where config = ?config and file_name = file_name and member = member
        and st = "pt_state t" and in_info = in_info and out_info = out_info] assms(7-9) by auto
  then show ?thesis
    using base by (simp add: RTI_TSFM_ProtobufTransformation_initialize_def)
qed

text \<open>Making a transformation when nothing fails, up to its initialisation.\<close>

lemma new_until_initialize:
  fixes lib :: "('s, 'pool, 'fdp, 'fd, 'd, 'm, 'tc, 'q) pbt_lib"
  assumes "wf_ledger w" and "sched w = []" and "config_kind (pl_tsfm lib) properties = Some kind"
    and "fst (seq_initialize (pl_octet_seq lib) (pl_raw_seq lib))" and "fst (seq_initialize (pl_char_seq lib) (pl_raw_seq lib))"
    and "clean_memory lib"
  shows "\<exists>(t :: ('s, 'm, 'tc, 'q) RTI_TSFM_ProtobufTransformation) self w1.
    RTI_TSFM_ProtobufTransformation_new lib plugin in_info out_info properties w =
      bindF (RTI_TSFM_ProtobufTransformation_initialize lib t plugin in_info out_info properties w1) (\<lambda>(r, t', w).
        if r \<noteq> DDS_RETCODE_OK then new_failed lib self (Some (pt_state t')) (Some (pt_config t')) w
        else Inr (DDS_RETCODE_OK, Some t', w))
    \<and> pt_addr t = self \<and> owns_exactly w (cf_addr (pt_config t) # state_blocks (pt_state t) @ [self]) w1
    \<and> blank_state (pt_state t) \<and> sched w1 = [] \<and> tr_config (pt_parent t) = Some (cf_parent (pt_config t))
    \<and> configured (pl_tsfm lib) properties kind (pt_config t) \<and> cf_garbage (pt_config t) = []"
proof -
  obtain self w1 where a: "alloc Transform_Block w = (Some self, w1)" "sched w1 = []" using alloc_sched_Nil [OF assms(2)] assms(2) by auto
  obtain sa w2 where s: "alloc State_Object w1 = (Some sa, w2)" "sched w2 = []" using alloc_sched_Nil [OF a(2)] a(2) by auto
  obtain ca w3 where c: "alloc UserConfig_Object w2 = (Some ca, w3)" "sched w3 = []" using alloc_sched_Nil [OF s(2)] s(2) by auto
  obtain so sc where i: "seq_initialize (pl_octet_seq lib) (pl_raw_seq lib) = (True, so)"
    "seq_initialize (pl_char_seq lib) (pl_raw_seq lib) = (True, sc)" using assms(4,5) by (metis prod.collapse)
  let ?st = "\<lparr>st_addr = sa, st_msg_converter = None, st_message_type = None, st_pb_buffer = None,
      st_octet_seq = so, st_char_seq = sc\<rparr> :: ('m, 'tc, 'q) RTI_TSFM_ProtobufTransformationState"
  let ?c = "(pl_raw_config lib ca)\<lparr>cf_addr := ca, cf_parent := (cf_parent (pl_raw_config lib ca))\<lparr>tc_addr := ca\<rparr>,
      cf_buffer_member := Some [], cf_descriptor_file := Some [], cf_message_type := Some [], cf_garbage := []\<rparr>"
  obtain c' where p: "RTI_TSFM_ProtobufTransformationConfig_parse_from_properties (pl_tsfm lib) ?c properties w3 = Inr (DDS_RETCODE_OK, c', w3)"
    and c': "cf_addr c' = ca" "configured (pl_tsfm lib) properties kind c'" "cf_garbage c' = []"
    using config_parse_sched_Nil [OF c(2) assms(3), of ?c] assms(6) by (auto simp: clean_memory_def)
  let ?t = "\<lparr>pt_addr = self, pt_config = c', pt_state = ?st,
      pt_parent = \<lparr>tr_config = Some (cf_parent c'), tr_plugin = plugin, tr_tsupport = None,
        tr_read_buffer = pl_base_seq_init lib, tr_read_buffer_loaned = False, tr_lock = Mutex_Uninitialised\<rparr>\<rparr>"
  have "owns_exactly w [self] w1" using owns_exactly_alloc [OF owns_exactly_start [OF assms(1)] a(1)] by simp
  then have "owns_exactly w [sa, self] w2" using owns_exactly_alloc [OF _ s(1)] by fastforce
  then have own: "owns_exactly w [ca, sa, self] w3" using owns_exactly_alloc [OF _ c(1)] by fastforce
  show ?thesis
    by (rule exI [of _ ?t], rule exI [of _ self], rule exI [of _ w3])
      (use a s c i p c' own assms(6) in \<open>simp add: clean_memory_def RTI_TSFM_ProtobufTransformation_new_def
        RTI_TSFM_ProtobufTransformationState_create_data_def RTI_TSFM_ProtobufTransformationConfigTypeSupport_create_data_def
        string_ops_sched_Nil state_blocks_def blank_state_def\<close>)
qed

text \<open>
  In memory that holds an invalid pointer where the base keeps its input type, no transformation is
  made even when every allocation succeeds: the pointer is used.
\<close>

lemma dirty_memory_faults:
  assumes "sched w = []" and "fst (seq_initialize (pl_octet_seq lib) (pl_raw_seq lib))"
    and "fst (seq_initialize (pl_char_seq lib) (pl_raw_seq lib))"
    and "\<forall>a. ''input_type'' \<in> set (cf_garbage (pl_raw_config lib a))"
  shows "RTI_TSFM_ProtobufTransformation_new lib plugin in_info out_info properties w = Inl Uninitialised"
proof -
  obtain self w1 where a: "alloc Transform_Block w = (Some self, w1)" "sched w1 = []" using alloc_sched_Nil [OF assms(1)] assms(1) by auto
  obtain sa w2 where s: "alloc State_Object w1 = (Some sa, w2)" "sched w2 = []" using alloc_sched_Nil [OF a(2)] a(2) by auto
  obtain ca w3 where c: "alloc UserConfig_Object w2 = (Some ca, w3)" "sched w3 = []" using alloc_sched_Nil [OF s(2)] s(2) by auto
  obtain so sc where i: "seq_initialize (pl_octet_seq lib) (pl_raw_seq lib) = (True, so)"
    "seq_initialize (pl_char_seq lib) (pl_raw_seq lib) = (True, sc)" using assms(2,3) by (metis prod.collapse)
  show ?thesis
    using a s c i assms(4)
    by (simp add: RTI_TSFM_ProtobufTransformation_new_def RTI_TSFM_ProtobufTransformationState_create_data_def
        RTI_TSFM_ProtobufTransformationConfigTypeSupport_create_data_def string_ops_sched_Nil
        RTI_TSFM_ProtobufTransformationConfig_parse_from_properties_def)
qed

text \<open>The verdict of the plugin, with what it owns.\<close>

lemma new_iff_accepted:
  assumes "ptr_seq (pl_base_seq lib) valid elems cap init" and "fst (seq_initialize (pl_base_seq lib) (pl_base_seq_init lib))"
    and "fst (seq_initialize (pl_octet_seq lib) (pl_raw_seq lib))" and "fst (seq_initialize (pl_char_seq lib) (pl_raw_seq lib))"
    and "wf_ledger w" and "sched w = []" and "config_kind (pl_tsfm lib) properties = Some kind"
    and "ts_lookup (pl_tsfm lib) properties ''output_type'' \<in> {None, Some [], Some (ti_name out_info)}"
    and "ts_lookup (pl_tsfm lib) properties ''buffer_member'' = Some member"
    and "ts_lookup (pl_tsfm lib) properties ''descriptor_file'' = Some file_name"
    and "searchable (pl_names lib) member" and "\<forall>fd. None \<notin> set (message_types (pl_descriptors lib) fd)"
    and "clean_memory lib" and "accepted = pbt_accepts lib kind member file_name (ts_lookup (pl_tsfm lib) properties ''message_type'') in_info out_info"
  shows "\<exists>p w'. RTI_TSFM_ProtobufTransformation_new lib plugin in_info out_info properties w =
      Inr (if accepted then DDS_RETCODE_OK else DDS_RETCODE_ERROR, p, w')
    \<and> (if accepted then \<exists>t. p = Some t \<and> owns_exactly w (pt_blocks t) w'
       else p = None \<and> (\<exists>ts. live w ts = None \<and> live w' = (live w)(ts \<mapsto> TypeSupport_Object)))"
proof -
  obtain t self w1 where new: "RTI_TSFM_ProtobufTransformation_new lib plugin in_info out_info properties w =
      bindF (RTI_TSFM_ProtobufTransformation_initialize lib t plugin in_info out_info properties w1) (\<lambda>(r, t', w).
        if r \<noteq> DDS_RETCODE_OK then new_failed lib self (Some (pt_state t')) (Some (pt_config t')) w
        else Inr (DDS_RETCODE_OK, Some t', w))"
    and t: "pt_addr t = self" "owns_exactly w (cf_addr (pt_config t) # state_blocks (pt_state t) @ [self]) w1"
      "blank_state (pt_state t)" "sched w1 = []" "tr_config (pt_parent t) = Some (cf_parent (pt_config t))"
    and c: "configured (pl_tsfm lib) properties kind (pt_config t)" and g: "cf_garbage (pt_config t) = []"
    using new_until_initialize [OF assms(5-7,3,4,13), where plugin = plugin and in_info = in_info and out_info = out_info] by blast
  obtain n where n: "tc_output_type (cf_parent (pt_config t)) = Some n" "n = [] \<or> n = ti_name out_info"
    using c assms(8) by (auto simp: configured_def)
  have "pbt_accepts lib (tc_type (cf_parent (pt_config t))) member file_name (cf_message_type (pt_config t)) in_info out_info = accepted"
    using c unfolding assms(14) by (simp add: configured_def pbt_accepts_def split: option.split)
  then obtain r t' w' where i: "RTI_TSFM_ProtobufTransformation_initialize lib t plugin in_info out_info properties w1 = Inr (r, t', w')"
    and r: "r = DDS_RETCODE_OK \<longleftrightarrow> accepted"
    and base: "\<exists>parent w2. RTI_TSFM_Transformation_initialize (pl_tsfm lib) (pl_base_seq lib) (pl_base_seq_init lib)
        (pt_parent t) plugin (ti_name out_info) properties w1 = Inr (DDS_RETCODE_OK, parent, w2)"
    using initialize_iff [OF t(4) assms(2) t(5) n assms(12,11), of file_name plugin in_info properties] c assms(9,10)
    by (auto simp: configured_def)
  note own = initialize_owns [OF assms(1,2) t(2) [folded t(1)] t(3,5) n(1) g i]
  show ?thesis
  proof (cases accepted)
    case True
    then show ?thesis using new i r own by auto
  next
    case False
    then obtain ts where "owns_exactly w ((case Some (pt_state t') of None \<Rightarrow> [] | Some s \<Rightarrow> state_blocks s)
        @ opt_list (map_option cf_addr (Some (pt_config t'))) @ self # [ts]) w'"
      and ts: "live w' ts = Some TypeSupport_Object"
      using own base r t(1) by auto
    from new_failed_owns [OF this(1), of lib] obtain w3 where
      f: "new_failed lib self (Some (pt_state t')) (Some (pt_config t')) w' = Inr (DDS_RETCODE_ERROR, None, w3)"
      and "owns_exactly w [ts] w3" "live w3 ts = Some TypeSupport_Object" using own ts by auto
    then have "live w ts = None \<and> live w3 = (live w)(ts \<mapsto> TypeSupport_Object)" using owns_exactly_one [of w ts w3] by simp
    then show ?thesis using new i r False f by auto
  qed
qed

section \<open>Properties\<close>

text \<open>
  C13. Making a transformation when memory suffices and holds no invalid pointer: with properties that
  give a buffer member of a usable name and a descriptor file, a \<open>transform_type\<close> that is absent or a
  known kind, and an \<open>output_type\<close> that is absent, empty or the type of the output stream, the plugin
  returns a transformation exactly when it accepts the types and finds the message, and the
  transformation owns exactly its blocks; otherwise it reports an error and the type support of the
  base, which it made before, stays behind as the only resource of the ledger.
\<close>

theorem protobuf_new_iff:
  assumes "ptr_seq (pl_base_seq lib) valid elems cap init" and "fst (seq_initialize (pl_base_seq lib) (pl_base_seq_init lib))"
    and "fst (seq_initialize (pl_octet_seq lib) (pl_raw_seq lib))" and "fst (seq_initialize (pl_char_seq lib) (pl_raw_seq lib))"
    and "wf_ledger w" and "sched w = []" and "config_kind (pl_tsfm lib) properties = Some kind"
    and "ts_lookup (pl_tsfm lib) properties ''output_type'' \<in> {None, Some [], Some (ti_name out_info)}"
    and "ts_lookup (pl_tsfm lib) properties ''buffer_member'' = Some member"
    and "ts_lookup (pl_tsfm lib) properties ''descriptor_file'' = Some file_name"
    and "searchable (pl_names lib) member" and "\<forall>fd. None \<notin> set (message_types (pl_descriptors lib) fd)"
    and "clean_memory lib" and "accepted = pbt_accepts lib kind member file_name (ts_lookup (pl_tsfm lib) properties ''message_type'') in_info out_info"
  shows "\<exists>p w'. RTI_TSFM_ProtobufTransformation_new lib plugin in_info out_info properties w =
      Inr (if accepted then DDS_RETCODE_OK else DDS_RETCODE_ERROR, p, w')
    \<and> (if accepted then \<exists>t. p = Some t \<and> owns_exactly w (pt_blocks t) w'
       else p = None \<and> (\<exists>ts. live w ts = None \<and> live w' = (live w)(ts \<mapsto> TypeSupport_Object)))"
  using assms by (rule new_iff_accepted)

text \<open>
  C12. Whatever allocations fail, when the memory for the configuration is given out with no invalid
  pointer in it, as zeroed memory: when making a transformation returns, a failure leaves nothing on the
  ledger or the type support of the base, and a success owns exactly the configuration, the state with
  its converter, message name and buffer, the type support and its own block; deleting the unused
  transformation takes exactly those away, and frees no pointer that was never set.
\<close>

theorem protobuf_new_delete:
  assumes "ptr_seq (pl_base_seq lib) valid elems cap init" and "fst (seq_initialize (pl_base_seq lib) (pl_base_seq_init lib))"
    and "wf_ledger w" and "clean_memory lib"
    and "RTI_TSFM_ProtobufTransformation_new lib plugin in_info out_info properties w = Inr (r, p, w')"
  shows "case p of
      None \<Rightarrow> r = DDS_RETCODE_ERROR
        \<and> (live w' = live w \<or> (\<exists>ts. live w ts = None \<and> live w' = (live w)(ts \<mapsto> TypeSupport_Object)))
    | Some t \<Rightarrow> r = DDS_RETCODE_OK \<and> owns_exactly w (pt_blocks t) w'
        \<and> (\<exists>w''. RTI_TSFM_ProtobufTransformation_delete lib t w' = Inr w'' \<and> live w'' = live w)"
  using new_owns [OF assms] delete_unused [OF assms(1), of _ w w']
  by (auto simp: new_outcome_def left_by_failed_new_def split: option.splits)

text \<open>
  C31. The name of the message is the configured one; without it, the scoped name of the DDS type
  with a dot for each double colon.
\<close>

theorem message_type_name_scoped:
  assumes "alloc String_Object w = (Some a, w1)" and "\<forall>x \<in> set (scope # scopes). CHR '':'' \<notin> set x"
  shows "message_type_name config_type (scope @ concat (map (\<lambda>x. ''::'' @ x) scopes)) w =
    Inr (Some (a, if config_type \<in> {None, Some []} then scope @ concat (map (\<lambda>x. ''.'' @ x) scopes)
                  else the config_type), w1)"
proof -
  have d: "dotted (scope @ concat (map (\<lambda>x. ''::'' @ x) scopes)) = scope @ concat (map (\<lambda>x. ''.'' @ x) scopes)"
    using assms(2) by (subst dotted_plain, simp, subst dotted_scopes) auto
  show ?thesis unfolding message_type_name_eq [OF assms(1)] d by (rule refl)
qed

text \<open>Type codes, files and messages to evaluate the plugin: one structure with a sequence of octets.\<close>

definition test_names :: "nat typecode_ops" where
  "test_names = \<lparr>
     tc_find = (\<lambda>tc n. if tc = 0 \<and> n = ''data'' then Some 0 else None),
     tc_member = (\<lambda>tc i. if tc = 0 \<and> i = 0 then Some 1 else None),
     str_token = (\<lambda>s d. strtok_r s), str_dup = Some, str_cpy = (\<lambda>n s. take (n - 1) s)\<rparr>"

definition test_tc :: "nat tc_ops" where
  "test_tc = \<lparr>
     tc_kind = (\<lambda>tc. if tc = 0 then Some DDS_TK_STRUCT else if tc = 1 then Some DDS_TK_SEQUENCE else Some DDS_TK_OCTET),
     tc_content_type = (\<lambda>tc. if tc = 1 then Some 2 else None), tc_name = (\<lambda>tc. None)\<rparr>"

definition test_lib ::
  "(addr option lseq, unit, string list, string list, string, string, nat, byte lseq) pbt_lib" where
  "test_lib = \<lparr>pl_tsfm = assoc_lib, pl_base_seq = lseq_ops None, pl_base_seq_init = empty_lseq,
     pl_raw_config = (\<lambda>a. \<lparr>cf_addr = 0, cf_parent = \<lparr>tc_addr = 0, tc_type = RTI_TSFM_TransformationKind_SERIALIZER,
       tc_input_type = None, tc_output_type = None\<rparr>, cf_buffer_member = None, cf_descriptor_file = None,
       cf_message_type = None, cf_garbage = []\<rparr>),
     pl_octet_seq = lseq_ops 0, pl_char_seq = lseq_ops 0, pl_raw_seq = empty_lseq,
     pl_names = test_names, pl_tc = test_tc, pl_dimensions = (\<lambda>tc. None), pl_member_count = (\<lambda>tc. Some 1),
     pl_length = (\<lambda>tc. Some 100),
     pl_parse_descriptor_set = (\<lambda>f. if f = ''shapes.desc'' then [[''shapes.Shape'']] else []),
     pl_descriptors = name_ops, pl_pool = (),
     pl_wire = \<lparr>pb_new = Some, pb_clear = (\<lambda>m. []), pb_parse = (\<lambda>m b n. (True, m)), pb_serialize = (\<lambda>m. (True, []))\<rparr>\<rparr>"

definition test_properties :: rs_properties where
  "test_properties = [(''buffer_member'', ''data''), (''descriptor_file'', ''shapes.desc'')]"

abbreviation shape_info :: "nat type_info" where
  "shape_info \<equiv> \<lparr>ti_name = ''shapes::Shape'', ti_dynamic = True, ti_type = 0\<rparr>"

abbreviation bytes_info :: "nat type_info" where
  "bytes_info \<equiv> \<lparr>ti_name = ''Bytes'', ti_dynamic = True, ti_type = 0\<rparr>"

lemma test_lib_sel [simp]:
  "pl_tsfm test_lib = assoc_lib" "pl_base_seq test_lib = lseq_ops None" "pl_base_seq_init test_lib = empty_lseq"
  "pl_octet_seq test_lib = lseq_ops 0" "pl_char_seq test_lib = lseq_ops 0" "pl_raw_seq test_lib = empty_lseq"
  "pl_names test_lib = test_names" "pl_tc test_lib = test_tc" "pl_descriptors test_lib = name_ops"
  by (simp_all add: test_lib_def)

lemma test_clean: "clean_memory test_lib"
  by (simp add: clean_memory_def test_lib_def)

lemma test_searchable: "searchable (pl_names test_lib) ''data''"
  by (simp add: searchable_def string_laws_def test_names_def TYPE_CODE_LENGTH_def)

lemma test_accepts:
  "pbt_accepts test_lib RTI_TSFM_TransformationKind_SERIALIZER ''data'' ''shapes.desc'' None shape_info bytes_info"
proof -
  have "name_components ''data'' = [''data'']" by (simp add: name_components.simps)
  then show ?thesis
    by (simp add: pbt_accepts_def byte_member_def test_names_def test_tc_def test_lib_def name_ops_def)
qed

lemmas test_new_hyps = sample_seq.ptr_seq_axioms [folded test_lib_sel(2)] wf_empty_heap

lemma test_new_laws:
  "fst (seq_initialize (pl_base_seq test_lib) (pl_base_seq_init test_lib))"
  "fst (seq_initialize (pl_octet_seq test_lib) (pl_raw_seq test_lib))"
  "fst (seq_initialize (pl_char_seq test_lib) (pl_raw_seq test_lib))"
  "config_kind (pl_tsfm test_lib) test_properties = Some RTI_TSFM_TransformationKind_SERIALIZER"
  "ts_lookup (pl_tsfm test_lib) test_properties ''output_type'' \<in> {None, Some [], Some (ti_name bytes_info)}"
  "ts_lookup (pl_tsfm test_lib) test_properties ''buffer_member'' = Some ''data''"
  "ts_lookup (pl_tsfm test_lib) test_properties ''descriptor_file'' = Some ''shapes.desc''"
  "\<forall>fd. None \<notin> set (message_types (pl_descriptors test_lib) fd)"
  "pbt_accepts test_lib RTI_TSFM_TransformationKind_SERIALIZER ''data'' ''shapes.desc''
     (ts_lookup (pl_tsfm test_lib) test_properties ''message_type'') shape_info bytes_info"
  using test_accepts by (simp_all add: lseq_ops_def config_kind_def assoc_lib_def test_properties_def name_ops_def)

theorem protobuf_new_iff_witness:
  "(\<exists>t w'. RTI_TSFM_ProtobufTransformation_new test_lib 0 shape_info bytes_info test_properties (empty_heap [] :: unit heap)
      = Inr (DDS_RETCODE_OK, Some t, w') \<and> owns_exactly (empty_heap [] :: unit heap) (pt_blocks t) w')
   \<and> (\<exists>w' ts. RTI_TSFM_ProtobufTransformation_new test_lib 0 (shape_info\<lparr>ti_dynamic := False\<rparr>) bytes_info test_properties
      (empty_heap [] :: unit heap) = Inr (DDS_RETCODE_ERROR, None, w') \<and> live w' = [ts \<mapsto> TypeSupport_Object])"
proof -
  have "sched (empty_heap [] :: unit heap) = []" "live (empty_heap [] :: unit heap) = Map.empty" by (simp_all add: empty_heap_def)
  note new = protobuf_new_iff [OF test_new_hyps(1) test_new_laws(1-3) wf_empty_heap this(1) test_new_laws(4-7) test_searchable
      test_new_laws(8) test_clean refl, where plugin = 0] and empty = this(2)
  have "\<not> pbt_accepts test_lib RTI_TSFM_TransformationKind_SERIALIZER ''data'' ''shapes.desc''
     (ts_lookup (pl_tsfm test_lib) test_properties ''message_type'') (shape_info\<lparr>ti_dynamic := False\<rparr>) bytes_info"
    by (simp add: pbt_accepts_def)
  then show ?thesis
    using new [where in_info = shape_info] new [where in_info = "shape_info\<lparr>ti_dynamic := False\<rparr>"] test_new_laws(9) empty
    by auto
qed

theorem protobuf_new_delete_witness:
  "\<exists>t w' w''. RTI_TSFM_ProtobufTransformation_new test_lib 0 shape_info bytes_info test_properties (empty_heap [] :: unit heap)
      = Inr (DDS_RETCODE_OK, Some t, w') \<and> RTI_TSFM_ProtobufTransformation_delete test_lib t w' = Inr w'' \<and> live w'' = Map.empty"
proof -
  have "sched (empty_heap [] :: unit heap) = []" by (simp add: empty_heap_def)
  from new_iff_accepted [OF test_new_hyps(1) test_new_laws(1-3) wf_empty_heap this test_new_laws(4-7) test_searchable
      test_new_laws(8) test_clean refl, where in_info = shape_info and plugin = 0]
  obtain t w' where t: "RTI_TSFM_ProtobufTransformation_new test_lib 0 shape_info bytes_info test_properties
      (empty_heap [] :: unit heap) = Inr (DDS_RETCODE_OK, Some t, w')"
    using test_new_laws(9) by auto
  from protobuf_new_delete [OF test_new_hyps(1) test_new_laws(1) wf_empty_heap test_clean t] t show ?thesis
    by (auto simp: empty_heap_def)
qed

theorem message_type_name_scoped_witness:
  "\<exists>a w1. message_type_name None ''com::rti::Shape'' (empty_heap [] :: unit heap) = Inr (Some (a, ''com.rti.Shape''), w1)"
proof -
  have a: "alloc String_Object (empty_heap [] :: unit heap) = (Some 0, snd (alloc String_Object (empty_heap [])))"
    by (simp add: empty_heap_def alloc_def alloc_ok_def acquire_def)
  from message_type_name_scoped [OF a, of "''com''" "[''rti'', ''Shape'']" None] show ?thesis by auto
qed

end
