(* ===== verification/Long_Double.thy ===== *)
theory Long_Double
  imports Complex_Main Prelude
begin

text \<open>
  \<^verbatim>\<open>common/utils/srcCxx/UtilsLongDouble.hpp\<close>: the casts from \<open>long double\<close> to the integer types. A
  finite value is a rational number; the limits of the integer types are exact as \<open>long double\<close>, as
  with the extended precision of x86.
\<close>

section \<open>Values and static casts\<close>

datatype long_double = Finite rat | Pos_Inf | Neg_Inf | NaN

definition ld_greater :: "long_double \<Rightarrow> int \<Rightarrow> bool" where
  "ld_greater v n = (case v of Finite x \<Rightarrow> x > of_int n | Pos_Inf \<Rightarrow> True | _ \<Rightarrow> False)"

definition ld_less :: "long_double \<Rightarrow> int \<Rightarrow> bool" where
  "ld_less v n = (case v of Finite x \<Rightarrow> x < of_int n | Neg_Inf \<Rightarrow> True | _ \<Rightarrow> False)"

text \<open>The fractional part is discarded; the behaviour is undefined when the rest does not fit.\<close>

definition trunc :: "rat \<Rightarrow> int" where
  "trunc x = (if x < 0 then \<lceil>x\<rceil> else \<lfloor>x\<rfloor>)"

definition cast_between :: "int \<Rightarrow> int \<Rightarrow> long_double \<Rightarrow> fault + 'a::len word" where
  "cast_between lo hi v =
     (case v of
        Finite x \<Rightarrow> if lo \<le> trunc x \<and> trunc x \<le> hi then Inr (word_of_int (trunc x)) else Inl Undefined_Behaviour
      | _ \<Rightarrow> Inl Undefined_Behaviour)"

definition static_cast_signed :: "long_double \<Rightarrow> fault + 'a::len word" where
  "static_cast_signed v = cast_between (- (2 ^ (LENGTH('a) - 1))) (2 ^ (LENGTH('a) - 1) - 1) v"

definition static_cast_unsigned :: "long_double \<Rightarrow> fault + 'a::len word" where
  "static_cast_unsigned v = cast_between 0 (2 ^ LENGTH('a) - 1) v"

section \<open>The casts of the library\<close>

text \<open>
  The result is whether the warning is printed, and the value. A signed number converted to the
  unsigned type of the same size keeps its bits.
\<close>

type_synonym 'w cast_result = "bool \<times> (fault + 'w)"

definition safe_cast_uint8 :: "long_double \<Rightarrow> 8 word cast_result" where
  "safe_cast_uint8 v = (ld_greater v 255 \<or> ld_less v (- 128),
     if ld_less v 0 then static_cast_signed v else static_cast_unsigned v)"

definition safe_cast_uint16 :: "long_double \<Rightarrow> 16 word cast_result" where
  "safe_cast_uint16 v = (ld_greater v 65535 \<or> ld_less v (- 32768),
     if ld_less v 0 then static_cast_signed v else static_cast_unsigned v)"

definition safe_cast_uint32 :: "long_double \<Rightarrow> 32 word cast_result" where
  "safe_cast_uint32 v = (ld_greater v 4294967295 \<or> ld_less v (- 2147483648),
     if ld_less v 0 then static_cast_signed v else static_cast_unsigned v)"

definition safe_cast_uint64 :: "long_double \<Rightarrow> 64 word cast_result" where
  "safe_cast_uint64 v = (ld_greater v 18446744073709551615 \<or> ld_less v (- 9223372036854775808),
     if ld_less v 0 then static_cast_signed v else static_cast_unsigned v)"

text \<open>Whether \<open>char\<close> is signed depends on the platform.\<close>

definition safe_cast_char :: "bool \<Rightarrow> long_double \<Rightarrow> 8 word cast_result" where
  "safe_cast_char char_signed v =
     (if char_signed then (ld_greater v 127 \<or> ld_less v (- 128), static_cast_signed v)
      else (ld_greater v 255 \<or> ld_less v 0, static_cast_unsigned v))"

definition safe_cast_int8 :: "long_double \<Rightarrow> 8 word cast_result" where
  "safe_cast_int8 v = (ld_greater v 127 \<or> ld_less v (- 128), static_cast_signed v)"

definition safe_cast_int16 :: "long_double \<Rightarrow> 16 word cast_result" where
  "safe_cast_int16 v = (ld_greater v 32767 \<or> ld_less v (- 32768), static_cast_signed v)"

definition safe_cast_int32 :: "long_double \<Rightarrow> 32 word cast_result" where
  "safe_cast_int32 v = (ld_greater v 2147483647 \<or> ld_less v (- 2147483648), static_cast_signed v)"

definition safe_cast_int64 :: "long_double \<Rightarrow> 64 word cast_result" where
  "safe_cast_int64 v = (ld_greater v 9223372036854775807 \<or> ld_less v (- 9223372036854775808), static_cast_signed v)"

definition safe_cast_bool :: "long_double \<Rightarrow> bool" where
  "safe_cast_bool v = (v \<noteq> Finite 0)"

section \<open>When a cast is defined\<close>

lemma trunc_ge: "m \<le> 0 \<Longrightarrow> m \<le> trunc x \<longleftrightarrow> of_int m - 1 < x"
  by (auto simp: trunc_def le_ceiling_iff le_floor_iff)

lemma trunc_le: "0 \<le> n \<Longrightarrow> trunc x \<le> n \<longleftrightarrow> x < of_int n + 1"
  by (auto simp: trunc_def ceiling_le_iff floor_le_iff)

text \<open>
  The contract of a cast to a type with \<open>n\<close> bits: it is defined for the finite values
  whose truncation is a number of the type, or a negative number of the signed type of the same
  size, and a value without a warning is one of them, unless it is no number.
\<close>

definition cast_range :: "int \<Rightarrow> int \<Rightarrow> long_double \<Rightarrow> 'a::len word cast_result \<Rightarrow> bool" where
  "cast_range lo hi v result \<longleftrightarrow>
     snd result = (case v of
        Finite x \<Rightarrow> if of_int lo - 1 < x \<and> x < of_int hi + 1 then Inr (word_of_int (trunc x)) else Inl Undefined_Behaviour
      | _ \<Rightarrow> Inl Undefined_Behaviour)
     \<and> fst result = (case v of Finite x \<Rightarrow> x < of_int lo \<or> of_int hi < x | NaN \<Rightarrow> False | _ \<Rightarrow> True)"

lemma cast_between_range:
  assumes "lo \<le> 0" and "0 \<le> hi"
  shows "cast_between lo hi v = (case v of
     Finite x \<Rightarrow> if of_int lo - 1 < x \<and> x < of_int hi + 1 then Inr (word_of_int (trunc x)) else Inl Undefined_Behaviour
   | _ \<Rightarrow> Inl Undefined_Behaviour)"
  by (auto simp: cast_between_def trunc_ge [OF assms(1)] trunc_le [OF assms(2)] split: long_double.split)

lemma signed_range:
  assumes "hi = 2 ^ (LENGTH('a) - 1) - 1" and "lo = - (2 ^ (LENGTH('a) - 1))"
  shows "cast_range lo hi v (ld_greater v hi \<or> ld_less v lo, static_cast_signed v :: fault + 'a::len word)"
proof -
  have "(static_cast_signed v :: fault + 'a word) = cast_between lo hi v" unfolding static_cast_signed_def assms ..
  then show ?thesis
    using cast_between_range [of lo hi v] assms
    by (auto simp: cast_range_def ld_greater_def ld_less_def split: long_double.split)
qed

lemma unsigned_range:
  assumes "hi = 2 ^ LENGTH('a) - 1" and "lo = - (2 ^ (LENGTH('a) - 1))"
  shows "cast_range lo hi v (ld_greater v hi \<or> ld_less v lo,
    if ld_less v 0 then static_cast_signed v else static_cast_unsigned v :: fault + 'a::len word)"
proof -
  have hi: "0 \<le> hi" "0 \<le> (2 :: int) ^ (LENGTH('a) - 1) - 1" and lo: "lo \<le> 0" using assms by simp_all
  have r: "(0 :: rat) \<le> of_int hi" "(0 :: rat) \<le> of_int (2 ^ (LENGTH('a) - 1) - 1)" "of_int lo \<le> (0 :: rat)"
    using hi lo by (simp_all only: of_int_0_le_iff of_int_le_0_iff)
  have "x < of_int (2 ^ (LENGTH('a) - 1) - 1) + 1 \<and> x < of_int hi + 1" if "x < 0" for x :: rat
    using that r by linarith
  moreover have "of_int lo - 1 < x \<and> of_int 0 - 1 < x" if "\<not> x < 0" for x :: rat
    using that r by linarith
  moreover have l: "rat_of_int lo = - (2 ^ (LENGTH('a) - Suc 0))" using assms(2) by simp
  ultimately show ?thesis
    by (auto simp: l cast_range_def ld_greater_def ld_less_def static_cast_signed_def static_cast_unsigned_def
        cast_between_range hi lo assms(2) [symmetric] assms(1) [symmetric] split: long_double.split)
qed


section \<open>Properties\<close>

text \<open>
  C27. The casts to unsigned types: a finite value is cast to its truncation modulo the size of the
  type exactly when it lies above the least signed number minus one and below the greatest unsigned
  number plus one; outside, the behaviour is undefined although only a warning is printed. The
  warning is printed for the values that are not between the two numbers.
\<close>

theorem safe_cast_unsigned_ranges:
  "cast_range (- 128) 255 v (safe_cast_uint8 v) \<and> cast_range (- 32768) 65535 v (safe_cast_uint16 v)
   \<and> cast_range (- 2147483648) 4294967295 v (safe_cast_uint32 v)
   \<and> cast_range (- 9223372036854775808) 18446744073709551615 v (safe_cast_uint64 v)"
  unfolding safe_cast_uint8_def safe_cast_uint16_def safe_cast_uint32_def safe_cast_uint64_def
  by (intro conjI; rule unsigned_range) simp_all

text \<open>The same for the signed types and for both kinds of \<open>char\<close>.\<close>

theorem safe_cast_signed_ranges:
  "cast_range (- 128) 127 v (safe_cast_int8 v) \<and> cast_range (- 32768) 32767 v (safe_cast_int16 v)
   \<and> cast_range (- 2147483648) 2147483647 v (safe_cast_int32 v)
   \<and> cast_range (- 9223372036854775808) 9223372036854775807 v (safe_cast_int64 v)
   \<and> cast_range (- 128) 127 v (safe_cast_char True v)"
  unfolding safe_cast_int8_def safe_cast_int16_def safe_cast_int32_def safe_cast_int64_def safe_cast_char_def if_True
  by (intro conjI; rule signed_range) simp_all

end
