(* ===== verification/Cxx_Utils.thy ===== *)
theory Cxx_Utils
  imports Prelude
begin

text \<open>
  \<^verbatim>\<open>common/utils/srcCxx/UtilsStrings.hpp\<close>, the splitting of a string at a delimiter, and
  \<^verbatim>\<open>ScopeExitAction.hpp\<close>, the object whose destructor runs an action.
\<close>

section \<open>Splitting a string\<close>

text \<open>
  \<open>find_from s c p\<close> is \<open>s.find(c, p)\<close>: the first position from \<open>p\<close> on where \<open>s\<close> has the
  character \<open>c\<close>, \<open>None\<close> for \<open>npos\<close>. The loop makes \<open>prev_position\<close> either \<open>npos\<close>, where it
  ends, or a position behind the delimiter that was found, at most the length of the string.
\<close>

definition find_from :: "string \<Rightarrow> char \<Rightarrow> nat \<Rightarrow> nat option" where
  "find_from s c p = find (\<lambda>i. s ! i = c) [p..<length s]"

lemma find_from_Some:
  "find_from s c p = Some i \<longleftrightarrow> p \<le> i \<and> i < length s \<and> s ! i = c \<and> (\<forall>j. p \<le> j \<and> j < i \<longrightarrow> s ! j \<noteq> c)"
proof
  assume "find_from s c p = Some i"
  then obtain k where "k < length s - p" "s ! (p + k) = c" "i = p + k" "\<forall>j<k. s ! (p + j) \<noteq> c"
    unfolding find_from_def find_Some_iff by auto
  then show "p \<le> i \<and> i < length s \<and> s ! i = c \<and> (\<forall>j. p \<le> j \<and> j < i \<longrightarrow> s ! j \<noteq> c)"
    by (metis add_diff_inverse_nat le_add1 less_diff_conv add.commute nat_add_left_cancel_less not_less)
next
  assume "p \<le> i \<and> i < length s \<and> s ! i = c \<and> (\<forall>j. p \<le> j \<and> j < i \<longrightarrow> s ! j \<noteq> c)"
  then show "find_from s c p = Some i"
    unfolding find_from_def find_Some_iff by (intro exI [of _ "i - p"]) auto
qed

lemma find_from_None: "find_from s c p = None \<longleftrightarrow> (\<forall>i. p \<le> i \<and> i < length s \<longrightarrow> s ! i \<noteq> c)"
  by (auto simp: find_from_def find_None_iff)

function split_from :: "string \<Rightarrow> char \<Rightarrow> nat \<Rightarrow> string list \<Rightarrow> string list" where
  "split_from input delim prev_position output =
     (case find_from input delim prev_position of
        Some len \<Rightarrow>
          let word_length = len - prev_position in
          split_from input delim (prev_position + (word_length + 1))
            (output @ [take word_length (drop prev_position input)])
      | None \<Rightarrow> output @ [drop prev_position input])"
  by pat_completeness auto
termination
  by (relation "measure (\<lambda>(s, c, p, _). length s - p)") (auto simp: find_from_Some)

definition split :: "string \<Rightarrow> char \<Rightarrow> string list" where
  "split input delim = split_from input delim 0 []"

section \<open>What splitting yields\<close>

text \<open>The words of a string by recursion on its characters, and the words joined again.\<close>

fun words :: "char \<Rightarrow> string \<Rightarrow> string list" where
  "words c [] = [[]]"
| "words c (x # xs) = (if x = c then [] # words c xs else (x # hd (words c xs)) # tl (words c xs))"

fun join :: "char \<Rightarrow> string list \<Rightarrow> string" where
  "join c [] = []"
| "join c [w] = w"
| "join c (w # ws) = w @ c # join c ws"

lemma words_nonempty [simp]: "words c s \<noteq> []"
  by (cases s) simp_all

lemma words_single: "c \<notin> set w \<Longrightarrow> words c w = [w]"
  by (induction w) auto

lemma words_append: "c \<notin> set w \<Longrightarrow> words c (w @ c # r) = w # words c r"
  by (induction w) auto

lemma join_Cons: "ws \<noteq> [] \<Longrightarrow> join c (w # ws) = w @ c # join c ws"
  by (cases ws) simp_all

lemma join_head: "join c ((x # w) # ws) = x # join c (w # ws)"
  by (cases ws) simp_all

lemma join_words: "join c (words c s) = s"
  by (induction s) (auto simp: join_Cons join_head)

lemma words_no_delim: "c \<notin> set (concat (words c s))"
proof (induction s)
  case (Cons x s)
  have "set (concat (words c s)) = set (hd (words c s)) \<union> set (concat (tl (words c s)))"
    by (cases "words c s") simp_all
  with Cons show ?case by auto
qed simp

lemma words_join: "ws \<noteq> [] \<Longrightarrow> c \<notin> set (concat ws) \<Longrightarrow> words c (join c ws) = ws"
  by (induction c ws rule: join.induct) (auto simp: words_single words_append)

lemma find_from_split:
  assumes "find_from s c p = Some i"
  shows "drop p s = take (i - p) (drop p s) @ c # drop (Suc i) s" and "c \<notin> set (take (i - p) (drop p s))"
proof -
  have i: "p \<le> i" "i < length s" "s ! i = c" "\<And>j. p \<le> j \<Longrightarrow> j < i \<Longrightarrow> s ! j \<noteq> c"
    using assms by (auto simp: find_from_Some)
  have "drop p s ! (i - p) = c" "drop (Suc (i - p)) (drop p s) = drop (Suc i) s" using i by simp_all
  then show "drop p s = take (i - p) (drop p s) @ c # drop (Suc i) s"
    using id_take_nth_drop [of "i - p" "drop p s"] i by simp
  show "c \<notin> set (take (i - p) (drop p s))"
    using i by (force simp: in_set_conv_nth)
qed

lemma find_from_rest: "find_from s c p = None \<Longrightarrow> c \<notin> set (drop p s)"
  by (auto simp: find_from_None in_set_conv_nth less_diff_conv add.commute)

declare split_from.simps [simp del]

lemma split_from_words: "split_from s c p out = out @ words c (drop p s)"
proof (induction s c p out rule: split_from.induct)
  case (1 s c p out)
  show ?case
  proof (cases "find_from s c p")
    case None
    then show ?thesis by (simp add: split_from.simps [of s c p] words_single find_from_rest)
  next
    case (Some i)
    then have "p + (i - p + 1) = Suc i" by (simp add: find_from_Some)
    moreover have "words c (drop p s) = take (i - p) (drop p s) # words c (drop (Suc i) s)"
      using words_append [OF find_from_split(2) [OF Some]] find_from_split(1) [OF Some] by metis
    ultimately show ?thesis using 1 [OF Some refl] Some by (simp add: split_from.simps [of s c p] Let_def)
  qed
qed

text \<open>
  C40. Splitting is the inverse of joining: the result is the only non-empty list of words without
  the delimiter that, joined with the delimiter between them, are the string. So the empty
  string has one empty word, and adjacent delimiters have an empty word between them.
\<close>

theorem split_correct: "split s c = ws \<longleftrightarrow> ws \<noteq> [] \<and> c \<notin> set (concat ws) \<and> join c ws = s"
  using words_join [of ws c] words_no_delim [of c s] words_nonempty [of c s] join_words [of c s]
  unfolding split_def split_from_words by auto

section \<open>Actions at the end of a scope\<close>

text \<open>
  A \<open>scope_exit\<close> object holds an action and a flag. Its move constructor is the default one:
  the new object has the action and the flag of the old one, which keeps them (the callables
  of the gateway are closures over references and pointers, whose move is a copy). The
  destructor runs the action unless the flag is set.
\<close>

record 's scope_exit =
  the_callable :: "'s \<Rightarrow> 's"
  is_cancelled :: bool

definition scope_exit_init :: "('s \<Rightarrow> 's) \<Rightarrow> 's scope_exit" where
  "scope_exit_init callable = \<lparr>the_callable = callable, is_cancelled = False\<rparr>"

definition scope_exit_move :: "'s scope_exit \<Rightarrow> 's scope_exit" where
  "scope_exit_move other = \<lparr>the_callable = the_callable other, is_cancelled = is_cancelled other\<rparr>"

definition scope_exit_destroy :: "'s scope_exit \<Rightarrow> 's \<Rightarrow> 's" where
  "scope_exit_destroy self s = (if \<not> is_cancelled self then the_callable self s else s)"

definition scope_exit_cancel :: "'s scope_exit \<Rightarrow> 's scope_exit" where
  "scope_exit_cancel self = self\<lparr>is_cancelled := True\<rparr>"

text \<open>
  \<open>make_scope_exit\<close> returns a temporary that initialises the variable of the caller. The
  C++ 11 of the build lets the compiler construct the temporary in the variable, or move it
  there once for each of the two copies and destroy the temporaries; \<open>moves\<close> is the number
  of moves it makes.
\<close>

fun make_scope_exit :: "nat \<Rightarrow> ('s \<Rightarrow> 's) \<Rightarrow> 's \<Rightarrow> 's scope_exit \<times> 's" where
  "make_scope_exit 0 callable s = (scope_exit_init callable, s)"
| "make_scope_exit (Suc moves) callable s =
     (let (tmp, s) = make_scope_exit moves callable s; x = scope_exit_move tmp in (x, scope_exit_destroy tmp s))"

text \<open>A scope: the object is made, the body runs and may cancel the action, the object is destroyed.\<close>

definition scope :: "nat \<Rightarrow> ('s \<Rightarrow> 's) \<Rightarrow> ('s \<Rightarrow> bool \<times> 's) \<Rightarrow> 's \<Rightarrow> 's" where
  "scope moves callable body s =
     (let (x, s) = make_scope_exit moves callable s; (cancel, s) = body s in
      scope_exit_destroy (if cancel then scope_exit_cancel x else x) s)"

lemma make_scope_exit_runs:
  "make_scope_exit moves callable s = (scope_exit_init callable, (callable ^^ moves) s)"
  by (induction moves) (simp_all add: scope_exit_init_def scope_exit_move_def scope_exit_destroy_def Let_def)

text \<open>
  Every move runs the action before the body, where it was meant to run after it: only when the
  copies are elided the action runs once, at the end, unless it was cancelled.
\<close>

theorem scope_runs:
  "scope moves callable body s =
     (case body ((callable ^^ moves) s) of (cancel, s') \<Rightarrow> if cancel then s' else callable s')"
  by (auto simp: scope_def make_scope_exit_runs scope_exit_init_def scope_exit_destroy_def scope_exit_cancel_def
      split: prod.splits)

end
