(* ===== verification/Spec2Isabelle.thy ===== *)
theory Spec2Isabelle
  imports Gateway Kafka_Connection Protobuf_Lifecycle Long_Double Cxx_Utils
begin

text \<open>
  \<^bold>\<open>The program.\<close> The gateway connects the RTI Routing Service with Kafka. Plugins for the Routing
  Service make and move its samples: the Kafka adapter (\<^verbatim>\<open>plugins/adapters/kafka/srcC\<close>) has stream
  writers, which send samples to a topic, and stream readers, which poll a topic; the protobuf
  transformation (\<^verbatim>\<open>plugins/transformations/protobuf/srcCxx\<close>) turns a DynamicData sample into the
  bytes of a protobuf message and back. Both use libraries of the repository: helpers for sequences
  and DynamicData (\<^verbatim>\<open>common/dds_specific/srcC\<close>), a framework for transformation plugins
  (\<^verbatim>\<open>common/transformation/srcC\<close>), the conversion of messages (\<^verbatim>\<open>common/protobuf2dds/srcCxx\<close>) and
  small C++ utilities (\<^verbatim>\<open>common/utils/srcCxx\<close>). On a route, a sample is serialised by the
  transformation into the octet sequence \<^verbatim>\<open>payload.data\<close>, the writer sends the content of that
  sequence, a reader on the other side sets what it polled in the same member of its sample, and
  another transformation deserialises it.

  \<^bold>\<open>Modelling conventions.\<close> Operations of the C and C++ sources keep their names. A function that
  changes objects takes them as arguments and returns them updated; undefined behaviour, a
  failed assertion, a call that never returns and an exhausted stack are values \<^typ>\<open>fault\<close> on the left of a sum
  (\<open>Prelude\<close>), return codes and NULL are ordinary values on the right. Dynamically created objects
  live on a ledger (\<open>Prelude\<close>): it records what is live, releasing what is not live is a fault, and its
  schedule \<open>sched\<close> says which allocations fail, so that a theorem about every ledger covers every
  combination of failures. Connext, librdkafka, protobuf and the Routing Service are parameters:
  records of functions, with their documented behaviour as the assumptions of locales
  or as named predicates, each of which is shown to hold for a concrete instance.

  \<^bold>\<open>The theories, and what their lemmas show.\<close>

  \<^item> \<open>Prelude\<close>: machine types, faults and their sequencing, casts between words, C strings in memory
    of known extent, the ledger and the predicates of ownership \<open>owned\<close> and \<open>owns_exactly\<close>.

  \<^item> \<open>Dds_Sequence\<close> (\<^verbatim>\<open>SequenceHelpers.c\<close>): the interface \<open>dds_seq\<close> of Connext sequences with loans,
    its instance \<open>lseq\<close>, and the nul terminator that the helpers append.

  \<^item> \<open>Dynamic_Helpers\<close> (\<^verbatim>\<open>DynamicDataHelpers.c\<close>): the type of a dotted member name, and the transfer of
    octet and char sequences between samples and memory, with the interface \<open>dyn_member\<close>. What
    was stored with its size is read back; a failed store disables the sequence.

  \<^item> \<open>Kafka_Writer\<close> (\<^verbatim>\<open>KafkaStreamWriter.c\<close>): the write of a list of samples and its retry loop, a
    \<^theory_text>\<open>partial_function\<close> whose value \<open>None\<close> is a loop that never ends. When the queue drains, a
    write ends and sends the C string at the start of every payload that the producer takes: it drops
    a message that is refused for another reason than a full queue, and still counts it.

  \<^item> \<open>Kafka_Reader\<close> (\<^verbatim>\<open>KafkaStreamReader.c\<close>): the polling thread, \<open>read\<close> and \<open>return_loan\<close> as
    interleaved steps, one for each statement that acts on shared state, with every failure.
    An invariant gives mutual exclusion, memory safety and delivery in order; other theorems
    show where delivery ends and when the thread can be joined.

  \<^item> \<open>Kafka_Connection\<close> (\<^verbatim>\<open>KafkaConnection.c\<close>, \<^verbatim>\<open>KafkaAdapter.c\<close>): creation and deletion of the plugin,
    connections, writers and readers on the ledger: when they succeed, what they leave on every
    failure, and what they leak.

  \<^item> \<open>Tsfm_Config\<close>, \<open>Tsfm_Transformation\<close>, \<open>Tsfm_Plugin\<close>, \<open>Tsfm_Template\<close> (\<^verbatim>\<open>Transformation.c\<close>,
    \<^verbatim>\<open>TransformationPlugin.c\<close>, \<^verbatim>\<open>TransformationUserPlugin.c\<close>, \<^verbatim>\<open>TransformationInfrastructure.c\<close>,
    \<^verbatim>\<open>TransformationTemplateDefine.h\<close>): the configurations, the base transformation with its buffer
    of loaned samples, the registry of a plugin, and the template that a plugin instantiates. The two
    configuration parsers share the contract \<open>config_parser\<close>, the registry implements a list, a
    transformation never faults and puts the output of every valid sample at the index of its input, and
    what a creation acquires a deletion releases. Taking a mutex may fail, and taking a mutex that is
    held is undefined, as POSIX has it for the default kind.

  \<^item> \<open>Dynamic_Data_Utils\<close> (\<^verbatim>\<open>DynamicDataUtils.cpp\<close>): aliases of types and the setters that narrow
    numbers, which store the number they are given or refuse it.

  \<^item> \<open>Protobuf_Reflection\<close>: the interface of protobuf's reflection, \<open>pb_message\<close>, with its instance.
    Setting a field clears the other fields of its oneof, and a number that a closed enumeration does
    not have is kept apart from the fields; a message represents an object up to these two.
    \<open>Dds_To_Protobuf\<close> (\<^verbatim>\<open>DdsToProtobuf.cpp\<close>, \<^verbatim>\<open>ProtobufConverterUtils.hpp\<close>) and \<open>Protobuf_To_Dds\<close>
    (\<^verbatim>\<open>ProtobufToDds.cpp\<close>) are the two conversions. \<open>Dds_To_Protobuf_Correct\<close> specifies when a
    message \<open>represents\<close> an object, \<open>Protobuf_To_Dds_Correct\<close> when an object has the fields of a
    message \<open>stored\<close>, and they prove that a successful conversion establishes that; both
    specifications compare numbers, not the code that moves them. \<open>Dynamic_Data_Tree\<close> instantiates
    the contracts of both directions with trees. \<open>Protobuf_Conversion\<close> has the round trips of values,
    termination, the objects that stay bound, the types that can be nested, and what is refused.

  \<^item> \<open>Protobuf_Converter\<close> (\<^verbatim>\<open>ProtobufDescriptorSet.cxx\<close>, \<^verbatim>\<open>ProtobufDynamicDataConverter.cxx\<close>): the search
    for the message type and the converter. What one converter serialises another one parses into a
    message that agrees with it in every field that is not a map, as a map keeps neither order nor
    duplicates on the wire.

  \<^item> \<open>Protobuf_Transformation\<close>, \<open>Protobuf_Lifecycle\<close>, \<open>Protobuf_Samples\<close>
    (\<^verbatim>\<open>ProtobufTransformation.cxx\<close>): configuration, validation of types, creation and deletion with the
    resources they own, and the two directions on samples. The strings of the base in a new
    configuration are what its memory held: with memory that may hold invalid pointers the creation
    faults, and the theorems on the life cycle ask for memory without them.

  \<^item> \<open>Long_Double\<close> (\<^verbatim>\<open>UtilsLongDouble.hpp\<close>) and \<open>Cxx_Utils\<close> (\<^verbatim>\<open>UtilsStrings.hpp\<close>,
    \<^verbatim>\<open>ScopeExitAction.hpp\<close>): the ranges of the casts; splitting as the inverse of joining; how often the
    action of a scope runs.

  \<^item> \<open>Gateway\<close> and this theory: the serialiser before the writer, and the whole route over a Kafka
    that may lose, reorder and repeat messages. The messages are cut at their first nul byte, so that the route is
    faithful exactly for messages without one that are followed by one in memory.

  \<^bold>\<open>Bounds and fuel.\<close> The conversions recurse through nested messages with a natural number, the
  depth of the stack that is left; \<open>conversions_terminate\<close> shows that any number above the nesting
  of the data suffices. \<open>make_scope_exit\<close> takes the number of moves that the compiler does not elide. The
  loop that splits a string ends by a measure. The loops over tokens and over a full queue are partial
  functions, and theorems say when they return. Integers have their width where it matters:
  lengths of sequences are 32-bit numbers, and theorems bound them by \<open>2 ^ 31\<close> where the code converts
  them to signed ones. Floating-point members are bits; a \<open>long double\<close> is rational, infinite or not a
  number, with limits that are exact as in extended precision.

  \<^bold>\<open>Simplifications.\<close> Semaphores of the reader are binary, and steps of the two threads are atomic
  where they touch one shared field. The user functions of the base transformation are functions of
  the input and output sample; the functions of the protobuf plugin, which also change the state of
  the transformation, are therefore stated on their own and not as an instance of the
  template. The guards of the conversions run their action once, as when the compiler elides the copies
  of the guard. Exceptions of the C++ library for exhausted memory (\<open>std::bad_alloc\<close>) are left out; \<open>new
  (std::nothrow)\<close> is an allocation that may fail.

  \<^bold>\<open>Not modelled.\<close> The macros of \<^verbatim>\<open>TransformationLog.h\<close> print to the standard output and change nothing
  else; \<^verbatim>\<open>TransformationPlatform.h\<close> renames functions of the C library, and its lookup of a property is
  part of the definitions that use it. The mutexes are those of POSIX: the branch for Windows
  in \<^verbatim>\<open>TransformationInfrastructure.c\<close> jumps to a label that it does not declare and does not compile.
  Plugins that define their own plugin configuration or plugin state are not instances of the template
  here, because none in the repository does. The headers \<^verbatim>\<open>TransformationSimple.h\<close>,
  \<^verbatim>\<open>TransformationTemplateDeclare.h\<close> and those of the helpers mainly declare functions that are defined elsewhere.
  The bytes of the descriptor file are read and parsed by protobuf, and the wire format is protobuf's:
  both are parameters. librdkafka, protobuf and the other libraries under \<^verbatim>\<open>third-party\<close> are vendored, and
  the programs under \<^verbatim>\<open>examples\<close> and \<^verbatim>\<open>test\<close> send and print sample data.
\<close>

section \<open>From one end of the gateway to the other\<close>



text \<open>
  C4. From one end of the gateway to the other: a sample is serialised, written to Kafka, delivered
  by a reader on the other side, which sets the delivered bytes in its sample, and deserialised
  there. Kafka may drop, reorder and repeat messages, but delivers only what the producer enqueued,
  and this sample was the first one for the topic. When the protobuf message has no nul byte and the
  memory of the writer's sequence goes on with one, the deserialiser parses exactly the bytes of a
  message that represents the sample; when its parser accepts them it converts a message that agrees
  with that one in every field that is not a map, and when that conversion succeeds, the sample it
  fills stores the message.
\<close>

theorem gateway_transfers:
  assumes "dds_reading (sl_conv lib) valid elems cap text_of octets_of collection"
    and "dds_writing (sl_conv lib) text_of octets_of" and "wire_laws (lib_pb (sl_conv lib)) (sl_wire lib)"
    and "dyn_member (sl_octet_seq lib) qvalid qelems qcap (sl_octets lib)"
    and "qvalid (st_octet_seq sender)" and "st_msg_converter sender = Some (sa, sc)"
    and "cf_buffer_member config = Some ''payload.data''"
    and "RTI_TSFM_ProtobufTransformation_serialize lib n config sender v out = Inr (DDS_RETCODE_OK, out', sender')"
    and "st_pb_buffer sender' = Some (ba, bytes)" and "int (length bytes) < 2 ^ 31"
    and "\<forall>x \<in> {out, received}. \<exists>info. sl_get_member_info lib x ''payload.data'' = (DDS_RETCODE_OK, info)
          \<and> member_kind info = DDS_TK_SEQUENCE \<and> element_kind info = DDS_TK_OCTET"
    and "producer_laws kops sent" and "drains kops"
    and "sw_rk self = Some k" and "sw_topic self = Some topic" and "sent k = []" and "qvalid init_seq"
    and "dd_get_seq (sl_octets lib) out' init_seq ''payload.data'' = (DDS_RETCODE_OK, t)"
    and "seq_buffer (sl_octet_seq lib) t = Some b"
    and "0 \<notin> set bytes" and "length bytes < length b" and "b ! length bytes = 0"
    and "RTI_RS_KafkaStreamWriter_write (sl_octet_seq lib) init_seq (sl_octets lib) kops self [out'] = Some (Inr (count, self'))"
    and "sw_rk self' = Some k'"
    and "reachable_reader failures s" and "set (polled s) \<subseteq> set (map snd (sent k'))" and "msg \<in> set (delivered s)"
    and "qvalid u" and "qelems u = msg" and "dd_set_seq (sl_octets lib) x ''payload.data'' u = (DDS_RETCODE_OK, received)"
    and "qvalid (st_octet_seq receiver)" and "st_msg_converter receiver = Some (ra, rc)"
    and "pb_clear (sl_wire lib) (conv_msg rc) = pb_clear (sl_wire lib) (conv_msg sc)"
    and "cf_buffer_member config' = Some ''payload.data''"
    and "br_retcode (RTI_COMMON_DynamicData_get_octet_seq_contiguous_buffer (sl_octet_seq lib) (sl_octets lib) received
          None True 0 (st_octet_seq receiver) ''payload.data'') = DDS_RETCODE_OK"
  shows "\<exists>m. represents (sl_conv lib) text_of octets_of v m \<and> pb_serialize (sl_wire lib) m = (True, bytes)
    \<and> (\<forall>m' ok w' st. pb_parse (sl_wire lib) (pb_clear (sl_wire lib) (conv_msg rc)) bytes (int (length bytes)) = (True, m') \<longrightarrow>
        protobuf_to_dds (sl_conv lib) d w m' (conv_state rc) = Inr (ok, w', st) \<longrightarrow>
        agrees (lib_pb (sl_conv lib)) m m'
        \<and> (\<exists>receiver'. RTI_TSFM_ProtobufTransformation_deserialize lib d config' receiver received w = Inr (DDS_RETCODE_OK, w', receiver'))
        \<and> (ok \<longrightarrow> stored (sl_conv lib) text_of octets_of w' m'))"
proof -
  have i: "\<exists>info. sl_get_member_info lib y ''payload.data'' = (DDS_RETCODE_OK, info)
          \<and> member_kind info = DDS_TK_SEQUENCE \<and> element_kind info = DDS_TK_OCTET" if "y \<in> {out, received}" for y
    using assms(11) that by blast
  obtain z sb sc' where z: "qvalid z" "qelems z = bytes" "dd_set_seq (sl_octets lib) out ''payload.data'' z = (DDS_RETCODE_OK, out')"
    and ser: "ProtobufDynamicDataConverter_serialize (sl_conv lib) (sl_wire lib) n sc v sb = Inr (True, bytes, sc')"
    by (rule serialize_sets_bytes [OF assms(4-10) i]) simp
  have "set (map snd (sent k')) \<subseteq> {bytes}"
    using written_whole [OF assms(4) z assms(12-15,17-19) assms(20-24)] assms(16) by auto
  then have "msg = bytes" using delivered_polled [OF assms(25)] assms(26,27) by blast
  then have "qelems u = bytes" using assms(29) by simp
  then show ?thesis
    by (rule set_bytes_deserialized [OF assms(1-4,33) ser assms(10,28) _ assms(30-32,34) i assms(35)]) simp
qed

theorem gateway_transfers_witness:
  "\<exists>m receiver'. represents tree_lib dtext doctets sample_data m
    \<and> RTI_TSFM_ProtobufTransformation_deserialize tree_samples 3 (carrier_config ''payload.data'') carrier_state
        (carrier ''payload.data'' [10]) blank_data = Inr (DDS_RETCODE_OK, sample_data, receiver')
    \<and> agrees msg_ops m sample_message \<and> stored tree_lib dtext doctets sample_data sample_message"
proof -
  obtain state' where s: "RTI_TSFM_ProtobufTransformation_serialize tree_samples 3 (carrier_config ''payload.data'') carrier_state
      sample_data (carrier ''payload.data'' []) = Inr (DDS_RETCODE_OK, carrier ''payload.data'' [10], state')"
    "st_pb_buffer state' = Some (4, [10])"
    using carrier_serialize by blast
  note laws = tree_reading.dds_reading_axioms tree_writing.dds_writing_axioms sample_wire_laws tree_member.dyn_member_axioms
  have "\<exists>m. represents (sl_conv tree_samples) dtext doctets sample_data m \<and> pb_serialize (sl_wire tree_samples) m = (True, [10])
    \<and> (\<forall>m' ok w' st. pb_parse (sl_wire tree_samples) (pb_clear (sl_wire tree_samples) (conv_msg sample_converter)) [10]
          (int (length [10 :: byte])) = (True, m') \<longrightarrow>
        protobuf_to_dds (sl_conv tree_samples) 3 blank_data m' (conv_state sample_converter) = Inr (ok, w', st) \<longrightarrow>
        agrees (lib_pb (sl_conv tree_samples)) m m'
        \<and> (\<exists>receiver'. RTI_TSFM_ProtobufTransformation_deserialize tree_samples 3 (carrier_config ''payload.data'') carrier_state
            (carrier ''payload.data'' [10]) blank_data = Inr (DDS_RETCODE_OK, w', receiver'))
        \<and> (ok \<longrightarrow> stored (sl_conv tree_samples) dtext doctets w' m'))"
    by (rule gateway_transfers [where valid = lseq_wf and elems = lseq_elems and cap = lseq_cap and collection = dcollection
          and qvalid = lseq_wf and qelems = lseq_elems and qcap = lseq_cap and kops = "bounded_ops 1" and sent = bq_sent
          and init_seq = zeroed_lseq and self = route_writer and failures = False and s = served and msg = "[10]"
          and u = "\<lparr>l_mem = [10], l_len = 1, l_loaned = True\<rparr>" and x = "carrier ''payload.data'' []" and b = "[10, 0, 0]"
          and self' = "route_writer\<lparr>sw_rk := Some \<lparr>bq_sent = [(''t'', [10])], bq_pending = 1\<rparr>\<rparr>",
          OF _ _ _ _ carrier_state_facts s _ _ bounded_producer(1) bounded_drains route_facts(2,3) _ route_facts(1) _ _ _ _ _ _ _ reach_served])
      (use laws carrier_state_facts route_sequence route_write route_set route_info served_facts carrier_fetch(1) in
        \<open>auto simp: lseq_wf_def lseq_elems_def carrier_state_def\<close>)
  moreover obtain st where "protobuf_to_dds tree_lib 3 blank_data sample_message (conv_state sample_converter) = Inr (True, sample_data, st)"
    using sample_converts_back by (auto simp: sample_converter_def)
  moreover have "pb_parse sample_wire (pb_clear sample_wire (conv_msg sample_converter)) [10] (int (length [10 :: byte])) = (True, sample_message)"
    by (simp add: sample_wire_def sample_converter_def)
  ultimately show ?thesis unfolding tree_samples_sel tree_lib_simps by blast
qed

end
